(* ===== verification/Misaka_Prelude.thy ===== *)
theory Misaka_Prelude
  imports Main "HOL-Library.Word" "HOL-Library.AList" "HOL-Library.Multiset" "HOL-Library.Product_Lexorder"
    "HOL-Library.List_Lexorder" "HOL-Library.Char_ord"
begin

text \<open>
  Shared vocabulary of the development: Rust's integer types as words, fixed-size byte arrays
  as words read big-endian, \<open>Result\<close> as a sum, \<open>HashMap\<close> as an association list with distinct
  keys, files as what reading them yields, and the generic facts about lists, words and strings
  that the component theories share.
\<close>

named_theorems hm_simps \<open>facts on the hash-map operations\<close>
named_theorems ser_defs \<open>the derived serializers\<close>
named_theorems ty_simps \<open>typing of serialised values\<close>

unbundle bit_operations_syntax

section \<open>Integers, arrays and results\<close>

text \<open>
  \<open>usize\<close> lengths and counters that only ever count elements of a collection are \<open>nat\<close>; every
  integer that is stored, compared against a clock or can wrap keeps its width.
  A Rust array \<open>[u8; N]\<close> is an \<open>8 * N\<close>-bit word, its first byte the most significant one, so the
  length is part of the type as it is in Rust.
\<close>

type_synonym u8 = "8 word"
type_synonym u16 = "16 word"
type_synonym u32 = "32 word"
type_synonym u64 = "64 word"
type_synonym bytes = "u8 list"
type_synonym arr16 = "128 word"
type_synonym arr32 = "256 word"
type_synonym arr64 = "512 word"

text \<open>\<open>Result<T, E>\<close>: the error on the left.\<close>

abbreviation Ok :: "'a \<Rightarrow> 'e + 'a" where "Ok \<equiv> Inr"
abbreviation Err :: "'e \<Rightarrow> 'e + 'a" where "Err \<equiv> Inl"

definition is_ok :: "'e + 'a \<Rightarrow> bool" where
  "is_ok r = (case r of Inl _ \<Rightarrow> False | Inr _ \<Rightarrow> True)"

lemma is_ok_simps [simp]: "is_ok (Ok x)" "\<not> is_ok (Err e)"
  by (simp_all add: is_ok_def)

lemma is_ok_iff: "is_ok r \<longleftrightarrow> (\<exists>x. r = Ok x)"
  by (cases r) auto

text \<open>The \<open>?\<close> operator: leave with the error, go on with the value.\<close>

definition and_then :: "'e + 'a \<Rightarrow> ('a \<Rightarrow> 'e + 'b) \<Rightarrow> 'e + 'b" where
  "and_then r f = (case r of Inl e \<Rightarrow> Inl e | Inr x \<Rightarrow> f x)"

lemma and_then_simps [simp]: "and_then (Ok x) f = f x" "and_then (Err e) f = Err e"
  by (simp_all add: and_then_def)

lemma and_then_eq_Ok: "and_then r f = Ok y \<longleftrightarrow> (\<exists>x. r = Ok x \<and> f x = Ok y)"
  by (cases r) auto

definition map_err :: "('e \<Rightarrow> 'f) \<Rightarrow> 'e + 'a \<Rightarrow> 'f + 'a" where
  "map_err g r = (case r of Inl e \<Rightarrow> Inl (g e) | Inr x \<Rightarrow> Inr x)"

lemma map_err_simps [simp]: "map_err g (Ok x) = Ok x" "map_err g (Err e) = Err (g e)"
  by (simp_all add: map_err_def)

lemma map_err_eq_Ok [simp]: "map_err g r = Ok x \<longleftrightarrow> r = Ok x"
  by (cases r) auto

subsection \<open>Saturating arithmetic\<close>

definition saturating_add :: "'a::len word \<Rightarrow> 'a word \<Rightarrow> 'a word" where
  "saturating_add a b = (if unat a + unat b < 2 ^ LENGTH('a) then a + b else - 1)"

definition saturating_sub :: "'a::len word \<Rightarrow> 'a word \<Rightarrow> 'a word" where
  "saturating_sub a b = (if b \<le> a then a - b else 0)"

lemma unat_minus_one_word: "unat (- 1 :: 'a::len word) = 2 ^ LENGTH('a) - 1"
  by (simp add: unsigned_minus_1_eq_mask mask_eq_exp_minus_1)

lemma unat_lt_exp: "unat w < 2 ^ LENGTH('a)" for w :: "'a::len word"
  by (rule unsigned_less)

lemma unat_saturating_add:
  "unat (saturating_add a b) = min (unat a + unat b) (2 ^ LENGTH('a) - 1)"
  for a b :: "'a::len word"
proof (cases "unat a + unat b < 2 ^ LENGTH('a)")
  case True
  then show ?thesis by (simp add: saturating_add_def unat_word_ariths)
next
  case False
  then show ?thesis by (simp add: saturating_add_def unat_minus_one_word)
qed

lemma unat_saturating_sub: "unat (saturating_sub a b) = unat a - unat b"
  for a b :: "'a::len word"
  by (cases "b \<le> a") (auto simp: saturating_sub_def unat_sub word_le_nat_alt)

lemma saturating_add_ge: "a \<le> saturating_add a b" for a b :: "'a::len word"
  using unat_lt_exp [of a] by (simp add: word_le_nat_alt unat_saturating_add del: unsigned_less)

lemma saturating_add_one_gr: "a \<noteq> - 1 \<Longrightarrow> a < saturating_add a 1" for a :: "'a::len word"
proof -
  assume "a \<noteq> - 1"
  then have "unat a \<noteq> unat (- 1 :: 'a word)" by (simp only: word_unat_eq_iff not_False_eq_True)
  then have "unat a \<noteq> 2 ^ LENGTH('a) - 1" by (simp add: unat_minus_one_word)
  with unat_lt_exp [of a] have "unat a < 2 ^ LENGTH('a) - 1" by linarith
  then show ?thesis by (simp add: word_less_nat_alt unat_saturating_add)
qed

section \<open>Byte views of words\<close>

text \<open>\<open>to_be_bytes\<close> / \<open>from_be_bytes\<close>: the bytes of a word, most significant first, and back.\<close>

definition word_bytes :: "nat \<Rightarrow> 'a::len word \<Rightarrow> bytes" where
  "word_bytes n w = map (\<lambda>i. ucast (drop_bit (8 * (n - 1 - i)) w)) [0..<n]"

definition bytes_word :: "bytes \<Rightarrow> 'a::len word" where
  "bytes_word bs = foldl (\<lambda>acc b. push_bit 8 acc OR ucast b) 0 bs"

lemma length_word_bytes [simp]: "length (word_bytes n w) = n"
  by (simp add: word_bytes_def)

lemma word_bytes_Suc: "word_bytes (Suc n) w = word_bytes n (drop_bit 8 w) @ [ucast w]"
proof -
  have "map (\<lambda>i. ucast (drop_bit (8 * (n - i)) w) :: u8) [0..<n]
      = map (\<lambda>i. ucast (drop_bit (8 * (n - 1 - i)) (drop_bit 8 w))) [0..<n]"
  proof (rule map_cong [OF refl])
    fix i assume "i \<in> set [0..<n]"
    then have "8 * (n - i) = 8 * (n - 1 - i) + 8" by auto
    then show "(ucast (drop_bit (8 * (n - i)) w) :: u8)
        = ucast (drop_bit (8 * (n - 1 - i)) (drop_bit 8 w))"
      by simp
  qed
  then show ?thesis by (simp add: word_bytes_def)
qed

lemma bytes_word_snoc [simp]: "bytes_word (bs @ [b]) = push_bit 8 (bytes_word bs) OR ucast b"
  by (simp add: bytes_word_def)

lemma bytes_word_word_bytes: "bytes_word (word_bytes n w) = take_bit (8 * n) w"
  for w :: "'a::len word"
proof (induction n arbitrary: w)
  case 0
  then show ?case by (simp add: word_bytes_def bytes_word_def)
next
  case (Suc n)
  show ?case
    unfolding word_bytes_Suc bytes_word_snoc Suc.IH
    by (rule bit_word_eqI)
      (auto simp: bit_simps less_diff_conv2 simp del: push_bit_take_bit)
qed

text \<open>An array of the full width survives the round trip, so its byte view determines it.\<close>

lemma bytes_word_full: "8 * n = LENGTH('a) \<Longrightarrow> bytes_word (word_bytes n w) = w"
  for w :: "'a::len word"
  by (simp add: bytes_word_word_bytes take_bit_word_eq_self)

lemma bytes_word_fits: "take_bit (8 * length bs) (bytes_word bs :: 'a::len word) = bytes_word bs"
proof (induction bs rule: rev_induct)
  case Nil
  then show ?case by (simp add: bytes_word_def)
next
  case (snoc b bs)
  show ?case
  proof (rule bit_eqI)
    fix k
    have "bit (bytes_word bs :: 'a word) (k - 8) \<Longrightarrow> k - 8 < 8 * length bs"
      by (subst (asm) snoc.IH [symmetric]) (simp add: bit_take_bit_iff)
    then show "bit (take_bit (8 * length (bs @ [b])) (bytes_word (bs @ [b]) :: 'a word)) k = bit (bytes_word (bs @ [b]) :: 'a word) k"
      by (auto simp: bit_take_bit_iff bit_or_iff bit_push_bit_iff bit_ucast_iff dest: bit_imp_le_length)
  qed
qed

lemma word_bytes_bytes_word: "8 * length bs \<le> LENGTH('a::len) \<Longrightarrow> word_bytes (length bs) (bytes_word bs :: 'a word) = bs"
proof (induction bs rule: rev_induct)
  case Nil
  then show ?case by (simp add: word_bytes_def)
next
  case (snoc b bs)
  have "drop_bit 8 (bytes_word (bs @ [b]) :: 'a word) = bytes_word bs"
  proof (rule bit_eqI)
    fix k
    have "bit (bytes_word bs :: 'a word) k \<Longrightarrow> k < 8 * length bs"
      by (subst (asm) bytes_word_fits [symmetric]) (simp add: bit_take_bit_iff)
    then show "bit (drop_bit 8 (bytes_word (bs @ [b]) :: 'a word)) k = bit (bytes_word bs :: 'a word) k"
      using snoc.prems by (auto simp: bit_drop_bit_eq bit_or_iff bit_push_bit_iff bit_ucast_iff dest: bit_imp_le_length)
  qed
  moreover have "(ucast (bytes_word (bs @ [b]) :: 'a word) :: u8) = b"
    using snoc.prems by (intro bit_eqI) (auto simp: bit_ucast_iff bit_or_iff bit_push_bit_iff dest: bit_imp_le_length)
  ultimately show ?case using snoc by (simp add: word_bytes_Suc del: bytes_word_snoc)
qed

lemma word_bytes_inj:
  "8 * n = LENGTH('a) \<Longrightarrow> word_bytes n v = word_bytes n w \<Longrightarrow> v = w"
  for v w :: "'a::len word"
  by (metis bytes_word_full)

lemma word_bytes_eq_iff [simp]:
  "word_bytes 16 a = word_bytes 16 b \<longleftrightarrow> a = b"
  "word_bytes 32 c = word_bytes 32 d \<longleftrightarrow> c = d"
  "word_bytes 64 e = word_bytes 64 f \<longleftrightarrow> e = f"
  "word_bytes 2 u = word_bytes 2 v \<longleftrightarrow> u = v"
  "word_bytes 4 x = word_bytes 4 y \<longleftrightarrow> x = y"
  "word_bytes 8 p = word_bytes 8 q \<longleftrightarrow> p = q"
  for a b :: arr16 and c d :: arr32 and e f :: arr64 and u v :: u16 and x y :: u32 and p q :: u64
  by (auto intro: word_bytes_inj)

text \<open>\<open>let bytes: [u8; N] = vec.try_into()?\<close>: only a vector of exactly \<open>N\<close> bytes converts.\<close>

definition try_into_array :: "nat \<Rightarrow> bytes \<Rightarrow> 'a::len word option" where
  "try_into_array n bs = (if length bs = n then Some (bytes_word bs) else None)"

section \<open>Strings\<close>

text \<open>
  A Rust \<open>str\<close> is its UTF-8 byte sequence, here a \<open>string\<close>. \<open>trim\<close> removes the code points with
  the Unicode property White\_Space, listed by their encodings.
\<close>

definition str_bytes :: "string \<Rightarrow> bytes" where
  "str_bytes s = map of_char s"

definition bytes_str :: "bytes \<Rightarrow> string" where
  "bytes_str bs = map (\<lambda>b. char_of (unat b)) bs"

lemma unat_of_char: "unat (of_char c :: u8) = of_char c"
proof -
  have "unat (of_nat (of_char c) :: u8) = (of_char c :: nat) mod 256"
    by (simp add: unsigned_of_nat take_bit_eq_mod)
  then show ?thesis by (simp add: of_nat_of_char)
qed

lemma of_char_u8_eq_iff [simp]: "(of_char c :: u8) = of_char d \<longleftrightarrow> c = d"
  by (metis of_char_eq_iff unat_of_char)

lemma bytes_str_bytes [simp]: "bytes_str (str_bytes s) = s"
  by (simp add: bytes_str_def str_bytes_def o_def unat_of_char)

lemma str_bytes_eq_iff [simp]: "str_bytes s = str_bytes t \<longleftrightarrow> s = t"
  by (metis bytes_str_bytes)

definition str_of_codes :: "nat list \<Rightarrow> string" where
  "str_of_codes ns = map char_of ns"

definition white_space_codes :: "nat list list" where
  "white_space_codes =
     ([[9], [10], [11], [12], [13], [32], [194, 133], [194, 160], [225, 154, 128]]
      @ map (\<lambda>n. [226, 128, n]) [128, 129, 130, 131, 132, 133, 134, 135, 136, 137, 138, 168, 169, 175]
      @ [[226, 129, 159], [227, 128, 128]])"

definition white_space :: "string list" where
  "white_space = map str_of_codes white_space_codes"

lemma set_map_filter_some: "set (List.map_filter f xs) = {y. Some y \<in> f ` set xs}"
  by (induction xs) (auto simp: List.map_filter_simps image_iff split: option.splits)

definition strip_prefix :: "'a list \<Rightarrow> 'a list \<Rightarrow> 'a list option" where
  "strip_prefix p s = (if take (length p) s = p then Some (drop (length p) s) else None)"

lemma strip_prefix_append [simp]: "strip_prefix p (p @ s) = Some s"
  by (simp add: strip_prefix_def)

lemma strip_prefix_SomeD: "strip_prefix p s = Some t \<Longrightarrow> s = p @ t"
  by (auto simp: strip_prefix_def split: if_splits) (metis append_take_drop_id)

lemma length_strip_prefix: "strip_prefix p s = Some t \<Longrightarrow> length s = length p + length t"
  by (auto dest: strip_prefix_SomeD)

text \<open>\<open>strip_any ps s\<close> removes one of the (non-empty) patterns from the front, if one is there.\<close>

fun strip_any :: "string list \<Rightarrow> string \<Rightarrow> string option" where
  "strip_any [] s = None"
| "strip_any (p # ps) s =
     (case strip_prefix p s of Some t \<Rightarrow> if p = [] then strip_any ps s else Some t
      | None \<Rightarrow> strip_any ps s)"

lemma strip_any_shorter: "strip_any ps s = Some t \<Longrightarrow> length t < length s"
  by (induction ps s rule: strip_any.induct)
    (auto split: option.splits if_splits dest: length_strip_prefix)

lemma strip_any_NoneI:
  "(\<And>p. p \<in> set ps \<Longrightarrow> p \<noteq> [] \<Longrightarrow> s = [] \<or> hd p \<noteq> hd s) \<Longrightarrow> strip_any ps s = None"
proof (induction ps)
  case (Cons p ps)
  have rest: "strip_any ps s = None" by (rule Cons.IH) (simp add: Cons.prems)
  have "strip_prefix p s = None" if "p \<noteq> []"
    using that Cons.prems [of p] by (cases p; cases s) (auto simp: strip_prefix_def)
  with rest show ?case by (auto split: option.splits)
qed simp

function trim_front :: "string list \<Rightarrow> string \<Rightarrow> string" where
  "trim_front ps s = (case strip_any ps s of None \<Rightarrow> s | Some t \<Rightarrow> trim_front ps t)"
  by pat_completeness auto
termination
  by (relation "measure (\<lambda>(ps, s). length s)") (auto dest: strip_any_shorter)

declare trim_front.simps [simp del]

definition trim_start :: "string \<Rightarrow> string" where
  "trim_start = trim_front white_space"

definition trim_end :: "string \<Rightarrow> string" where
  "trim_end s = rev (trim_front (map rev white_space) (rev s))"

definition trim :: "string \<Rightarrow> string" where
  "trim s = trim_end (trim_start s)"

text \<open>\<open>trim_end_matches('/')\<close>\<close>

definition trim_end_slash :: "string \<Rightarrow> string" where
  "trim_end_slash s = rev (dropWhile (\<lambda>c. c = CHR ''/'') (rev s))"

text \<open>
  A string whose first and last bytes are graphic ASCII characters is not changed by \<open>trim\<close>:
  no encoding of a White\_Space code point begins or ends with such a byte.
\<close>

definition graphic :: "char \<Rightarrow> bool" where
  "graphic c \<longleftrightarrow> 33 \<le> (of_char c :: nat) \<and> (of_char c :: nat) < 127"

lemma white_space_ends:
  "p \<in> set white_space \<Longrightarrow> p \<noteq> [] \<and> \<not> graphic (hd p) \<and> \<not> graphic (last p)"
  by (auto simp: white_space_def white_space_codes_def str_of_codes_def graphic_def)

lemma trim_start_graphic: "s = [] \<or> graphic (hd s) \<Longrightarrow> trim_start s = s"
proof -
  assume "s = [] \<or> graphic (hd s)"
  then have "strip_any white_space s = None"
    by (intro strip_any_NoneI) (metis white_space_ends)
  then show ?thesis by (simp add: trim_start_def trim_front.simps)
qed

lemma trim_end_graphic: "s = [] \<or> graphic (last s) \<Longrightarrow> trim_end s = s"
proof -
  assume *: "s = [] \<or> graphic (last s)"
  have "strip_any (map rev white_space) (rev s) = None"
  proof (rule strip_any_NoneI)
    fix p assume "p \<in> set (map rev white_space)"
    then obtain q where q: "q \<in> set white_space" and p: "p = rev q" by auto
    from white_space_ends [OF q] p * show "rev s = [] \<or> hd p \<noteq> hd (rev s)"
      by (auto simp: hd_rev)
  qed
  then show ?thesis by (simp add: trim_end_def trim_front.simps)
qed

lemma trim_graphic:
  "s = [] \<or> graphic (hd s) \<Longrightarrow> s = [] \<or> graphic (last s) \<Longrightarrow> trim s = s"
  by (simp add: trim_def trim_start_graphic trim_end_graphic)

text \<open>Surrounding white space is removed: no encoding is a proper prefix or suffix of another.\<close>

lemma strip_prefix_comparable:
  "strip_prefix p (w @ t) = Some r \<Longrightarrow> take (length p) w = p \<or> take (length w) p = w"
  by (drule strip_prefix_SomeD) (metis append_eq_append_conv_if)

lemma strip_any_member:
  assumes "w \<in> set ps" "w \<noteq> []"
    and "\<And>p. p \<in> set ps \<Longrightarrow> take (length p) w = p \<or> take (length w) p = w \<Longrightarrow> p = w"
  shows "strip_any ps (w @ t) = Some t"
  using assms
proof (induction ps)
  case (Cons p ps)
  show ?case
  proof (cases "p = w")
    case True
    with Cons.prems show ?thesis by simp
  next
    case False
    with Cons.prems(3) [of p] have "strip_prefix p (w @ t) = None"
      using strip_prefix_comparable [of p w t] by (cases "strip_prefix p (w @ t)") auto
    moreover have "strip_any ps (w @ t) = Some t"
      by (rule Cons.IH) (use Cons.prems False in auto)
    ultimately show ?thesis by simp
  qed
qed simp

definition prefix_free :: "'a list list \<Rightarrow> bool" where
  "prefix_free ps = list_all (\<lambda>p. list_all (\<lambda>w. take (length p) w = p \<or> take (length w) p = w \<longrightarrow> p = w) ps) ps"

lemma prefix_freeD:
  "prefix_free ps \<Longrightarrow> p \<in> set ps \<Longrightarrow> w \<in> set ps \<Longrightarrow> take (length p) w = p \<or> take (length w) p = w \<Longrightarrow> p = w"
  unfolding prefix_free_def list_all_iff by blast

lemma prefix_free_map:
  assumes "prefix_free ps" "inj_on f (\<Union>p\<in>set ps. set p)"
  shows "prefix_free (map (map f) ps)"
proof -
  have eq: "take (length p) w = p" if "p \<in> set ps" "w \<in> set ps" "take (length p) (map f w) = map f p" for p w
  proof -
    have "map f (take (length p) w) = map f p" using that(3) by (simp add: take_map)
    moreover have "inj_on f (set (take (length p) w) \<union> set p)"
      by (rule inj_on_subset [OF assms(2)]) (use that in \<open>auto dest: in_set_takeD\<close>)
    ultimately show ?thesis by (simp add: inj_on_map_eq_map)
  qed
  show ?thesis
    unfolding prefix_free_def list_all_iff
  proof (intro ballI impI)
    fix q v assume "q \<in> set (map (map f) ps)" "v \<in> set (map (map f) ps)"
      and qv: "take (length q) v = q \<or> take (length v) q = v"
    then obtain p w where pw: "p \<in> set ps" "w \<in> set ps" "q = map f p" "v = map f w" by auto
    with qv have "take (length p) w = p \<or> take (length w) p = w" using eq by auto
    with prefix_freeD [OF assms(1) pw(1, 2)] pw show "q = v" by simp
  qed
qed

lemma white_space_codes_prefix_free:
  "prefix_free white_space_codes" "prefix_free (map rev white_space_codes)"
  by (simp_all add: prefix_free_def white_space_codes_def)

lemma white_space_codes_bytes: "p \<in> set white_space_codes \<Longrightarrow> n \<in> set p \<Longrightarrow> n < 256"
  by (auto simp: white_space_codes_def)

lemma inj_on_char_of: "inj_on (char_of :: nat \<Rightarrow> char) {..<256}"
  by (rule inj_onI) (simp add: char_of_eq_iff take_bit_eq_mod)

lemma white_space_prefix_free: "prefix_free white_space" "prefix_free (map rev white_space)"
proof -
  have *: "inj_on (char_of :: nat \<Rightarrow> char) (\<Union>p\<in>set white_space_codes. set p)"
    by (rule inj_on_subset [OF inj_on_char_of]) (auto dest: white_space_codes_bytes)
  then have **: "inj_on (char_of :: nat \<Rightarrow> char) (\<Union>p\<in>set (map rev white_space_codes). set p)" by simp
  have "white_space = map (map char_of) white_space_codes"
    by (simp add: white_space_def str_of_codes_def)
  moreover have "map rev white_space = map (map char_of) (map rev white_space_codes)"
    by (simp add: white_space_def str_of_codes_def rev_map)
  ultimately show "prefix_free white_space" "prefix_free (map rev white_space)"
    using prefix_free_map [OF white_space_codes_prefix_free(1) *]
      prefix_free_map [OF white_space_codes_prefix_free(2) **] by simp_all
qed

lemma trim_front_member:
  assumes "\<And>w. w \<in> set ws \<Longrightarrow> w \<in> set ps \<and> w \<noteq> []" and pf: "prefix_free ps"
  shows "trim_front ps (concat ws @ s) = trim_front ps s"
  using assms(1)
proof (induction ws)
  case (Cons w ws)
  have w: "w \<in> set ps" "w \<noteq> []" using Cons.prems [of w] by simp_all
  have "strip_any ps (w @ concat ws @ s) = Some (concat ws @ s)"
    by (rule strip_any_member [OF w]) (rule prefix_freeD [OF pf _ w(1)])
  then have "trim_front ps (concat (w # ws) @ s) = trim_front ps (concat ws @ s)"
    by (subst trim_front.simps) simp
  with Cons show ?case by simp
qed simp

lemma trim_white_space:
  assumes "set ws \<subseteq> set white_space" "set ws' \<subseteq> set white_space"
    and "s \<noteq> []" "graphic (hd s)" "graphic (last s)"
  shows "trim (concat ws @ s @ concat ws') = s"
proof -
  have "trim_start (concat ws @ s @ concat ws') = trim_start (s @ concat ws')"
    unfolding trim_start_def
    by (rule trim_front_member [OF _ white_space_prefix_free(1)]) (use assms(1) white_space_ends in blast)
  also have "\<dots> = s @ concat ws'" using assms(3, 4) by (intro trim_start_graphic) simp
  finally have start: "trim_start (concat ws @ s @ concat ws') = s @ concat ws'" .
  have "rev (s @ concat ws') = concat (map rev (rev ws')) @ rev s" by (simp add: rev_concat rev_map)
  then have "trim_end (s @ concat ws') = rev (trim_front (map rev white_space) (concat (map rev (rev ws')) @ rev s))"
    by (simp add: trim_end_def)
  also have "trim_front (map rev white_space) (concat (map rev (rev ws')) @ rev s)
      = trim_front (map rev white_space) (rev s)"
    by (rule trim_front_member [OF _ white_space_prefix_free(2)]) (use assms(2) white_space_ends in auto)
  finally have "trim_end (s @ concat ws') = trim_end s" by (simp add: trim_end_def)
  with start trim_end_graphic [of s] assms(3, 5) show ?thesis by (simp add: trim_def)
qed

section \<open>Slices\<close>

text \<open>\<open>slice.chunks(n)\<close>, which panics for \<open>n = 0\<close> (the program only uses positive sizes)\<close>

function chunks :: "nat \<Rightarrow> 'a list \<Rightarrow> 'a list list" where
  "chunks n xs = (if n = 0 \<or> xs = [] then [] else take n xs # chunks n (drop n xs))"
  by pat_completeness auto
termination
  by (relation "measure (\<lambda>(n, xs). length xs)") auto

declare chunks.simps [simp del]

lemma chunks_Nil [simp]: "chunks n [] = []"
  by (simp add: chunks.simps)

lemma chunks_step: "0 < n \<Longrightarrow> xs \<noteq> [] \<Longrightarrow> chunks n xs = take n xs # chunks n (drop n xs)"
  by (subst chunks.simps) simp

lemma concat_chunks: "0 < n \<Longrightarrow> concat (chunks n xs) = xs"
proof (induction "length xs" arbitrary: xs rule: less_induct)
  case less
  then show ?case by (cases "xs = []") (simp_all add: chunks_step)
qed

section \<open>Hash maps\<close>

text \<open>
  A \<open>HashMap\<close> is an association list with distinct keys. Rust leaves the iteration order open;
  no property of the development depends on the order of the list.
\<close>

declare map_of_eq_Some_iff [simp del] Some_eq_map_of_iff [simp del]

type_synonym ('k, 'v) hashmap = "('k \<times> 'v) list"

abbreviation hm_get :: "('k, 'v) hashmap \<Rightarrow> 'k \<Rightarrow> 'v option" where
  "hm_get m k \<equiv> map_of m k"

abbreviation hm_insert :: "'k \<Rightarrow> 'v \<Rightarrow> ('k, 'v) hashmap \<Rightarrow> ('k, 'v) hashmap" where
  "hm_insert k v m \<equiv> AList.update k v m"

abbreviation hm_remove :: "'k \<Rightarrow> ('k, 'v) hashmap \<Rightarrow> ('k, 'v) hashmap" where
  "hm_remove k m \<equiv> AList.delete k m"

definition hm_retain :: "('k \<Rightarrow> 'v \<Rightarrow> bool) \<Rightarrow> ('k, 'v) hashmap \<Rightarrow> ('k, 'v) hashmap" where
  "hm_retain P m = filter (\<lambda>(k, v). P k v) m"

abbreviation hm_values :: "('k, 'v) hashmap \<Rightarrow> 'v list" where
  "hm_values m \<equiv> map snd m"

abbreviation hm_wf :: "('k, 'v) hashmap \<Rightarrow> bool" where
  "hm_wf m \<equiv> distinct (map fst m)"

lemma hm_get_insert [hm_simps]: "hm_get (hm_insert k v m) k' = (if k' = k then Some v else hm_get m k')"
  by (simp add: update_conv)

lemma hm_get_remove [hm_simps]: "hm_get (hm_remove k m) k' = (if k' = k then None else hm_get m k')"
  by (simp add: delete_conv)

lemma hm_wf_insert [hm_simps]: "hm_wf m \<Longrightarrow> hm_wf (hm_insert k v m)"
  by (rule distinct_update)

lemma hm_wf_remove [hm_simps]: "hm_wf m \<Longrightarrow> hm_wf (hm_remove k m)"
  by (rule distinct_delete)

lemma hm_wf_retain [hm_simps]: "hm_wf m \<Longrightarrow> hm_wf (hm_retain P m)"
  by (auto simp: hm_retain_def intro: distinct_map_filter)

lemma hm_get_retain [hm_simps]:
  "hm_wf m \<Longrightarrow> hm_get (hm_retain P m) k = (case hm_get m k of None \<Rightarrow> None | Some v \<Rightarrow> if P k v then Some v else None)"
  unfolding hm_retain_def
proof (induction m)
  case (Cons p m)
  then have IH: "map_of (filter (\<lambda>(k, v). P k v) m) k
      = (case map_of m k of None \<Rightarrow> None | Some v \<Rightarrow> if P k v then Some v else None)" by simp
  show ?case
  proof (cases "fst p = k")
    case True
    with Cons.prems have "map_of m k = None" by (simp add: map_of_eq_None_iff)
    with IH True show ?thesis by (cases p) simp
  next
    case False
    with IH show ?thesis by (cases p) simp
  qed
qed simp

lemma hm_get_in: "hm_wf m \<Longrightarrow> (k, v) \<in> set m \<longleftrightarrow> hm_get m k = Some v"
  by (auto intro: map_of_is_SomeI dest: map_of_SomeD)

lemma hm_values_iff: "hm_wf m \<Longrightarrow> v \<in> set (hm_values m) \<longleftrightarrow> (\<exists>k. hm_get m k = Some v)"
  by (force simp: hm_get_in [symmetric])

text \<open>\<open>iter.collect::<HashMap>()\<close>: later pairs win.\<close>

definition hm_collect :: "('k \<times> 'v) list \<Rightarrow> ('k, 'v) hashmap" where
  "hm_collect ps = fold (\<lambda>(k, v) m. hm_insert k v m) ps []"

lemma hm_collect_wf: "hm_wf (hm_collect ps)" for ps :: "('k \<times> 'v) list"
proof -
  have "hm_wf m \<Longrightarrow> hm_wf (fold (\<lambda>(k, v) m. hm_insert k v m) ps m)" for m :: "('k \<times> 'v) list"
    by (induction ps arbitrary: m) (auto simp: distinct_update)
  then show ?thesis by (simp add: hm_collect_def)
qed

lemma hm_get_collect: "hm_get (hm_collect ps) k = map_of (rev ps) k" for ps :: "('k \<times> 'v) list"
proof -
  have "hm_get (fold (\<lambda>(k, v) m. hm_insert k v m) ps m) k
      = (case map_of (rev ps) k of None \<Rightarrow> hm_get m k | Some v \<Rightarrow> Some v)" for m :: "('k \<times> 'v) list"
    by (induction ps arbitrary: m) (auto simp: hm_simps map_add_def split: option.splits)
  from this [of "[]"] show ?thesis by (simp add: hm_collect_def split: option.splits)
qed

section \<open>Decimal numbers\<close>

definition digit_value :: "char \<Rightarrow> nat option" where
  "digit_value c = (let n = (of_char c :: nat) in if 48 \<le> n \<and> n \<le> 57 then Some (n - 48) else None)"

fun parse_digits :: "string \<Rightarrow> nat \<Rightarrow> nat option" where
  "parse_digits [] acc = Some acc"
| "parse_digits (c # cs) acc = (case digit_value c of None \<Rightarrow> None | Some d \<Rightarrow> parse_digits cs (10 * acc + d))"

text \<open>\<open>str::parse::<u64>\<close>: an optional plus sign, at least one digit, no overflow\<close>

definition parse_u64 :: "string \<Rightarrow> u64 option" where
  "parse_u64 s =
     (let ds = (case s of [] \<Rightarrow> [] | c # cs \<Rightarrow> if c = CHR ''+'' then cs else s)
      in if ds = [] then None
         else case parse_digits ds 0 of None \<Rightarrow> None
              | Some n \<Rightarrow> if n < 2 ^ 64 then Some (of_nat n) else None)"

text \<open>\<open>to_string\<close> of an unsigned integer\<close>

definition digit_char :: "nat \<Rightarrow> char" where
  "digit_char d = char_of (48 + d)"

fun show_nat :: "nat \<Rightarrow> string" where
  "show_nat n = (if n < 10 then [digit_char n] else show_nat (n div 10) @ [digit_char (n mod 10)])"

declare show_nat.simps [simp del]

lemma digit_value_char [simp]: "d < 10 \<Longrightarrow> digit_value (digit_char d) = Some d"
  by (simp add: digit_value_def digit_char_def)

lemma parse_digits_append:
  "parse_digits (xs @ ys) acc = (case parse_digits xs acc of None \<Rightarrow> None | Some n \<Rightarrow> parse_digits ys n)"
  by (induction xs arbitrary: acc) (auto split: option.splits)

lemma parse_digits_show: "parse_digits (show_nat n) 0 = Some n"
proof (induction n rule: show_nat.induct)
  case (1 n)
  then show ?case by (subst show_nat.simps) (auto simp: parse_digits_append)
qed

lemma digit_char_graphic: "d < 10 \<Longrightarrow> graphic (digit_char d) \<and> digit_char d \<noteq> CHR ''+''"
proof -
  assume d: "d < 10"
  then have "digit_char d \<noteq> CHR ''+''" using digit_value_char [of d] by (auto simp: digit_value_def)
  with d show ?thesis by (simp add: graphic_def digit_char_def)
qed

lemma show_nat_ends: "show_nat n \<noteq> [] \<and> graphic (hd (show_nat n)) \<and> graphic (last (show_nat n)) \<and> hd (show_nat n) \<noteq> CHR ''+''"
proof (induction n rule: show_nat.induct)
  case (1 n)
  then show ?case by (subst (1 2 3 4) show_nat.simps) (auto simp: digit_char_graphic)
qed

lemma parse_u64_show: "parse_u64 (show_nat (unat w)) = Some w"
proof -
  obtain c cs where cs: "show_nat (unat w) = c # cs" using show_nat_ends by (cases "show_nat (unat w)") blast+
  with show_nat_ends [of "unat w"] have "c \<noteq> CHR ''+''" by simp
  then have "parse_u64 (show_nat (unat w))
      = (case parse_digits (show_nat (unat w)) 0 of None \<Rightarrow> None | Some n \<Rightarrow> if n < 2 ^ 64 then Some (of_nat n) else None)"
    by (simp only: parse_u64_def Let_def cs list.case if_False list.distinct)
  moreover have "unat w < 2 ^ 64" using unsigned_less [of w] by simp
  ultimately show ?thesis by (simp only: parse_digits_show option.case if_True) simp
qed

lemma trim_show: "trim (show_nat n) = show_nat n"
  using show_nat_ends [of n] by (intro trim_graphic) auto

section \<open>Files\<close>

text \<open>
  A persisted artifact is what reading its file yields: no file, an I/O error, text that does not
  parse, or the value. (The JSON text itself is the value it parses to.) \<open>std::fs::write\<close> opens
  the file with truncation and then writes: it succeeds, or it fails to open the file and changes
  nothing, or it is interrupted and leaves a proper prefix, which is not a complete document.
\<close>

datatype 'a disk = Absent | Unreadable | Malformed | Holds 'a

datatype write_outcome = Written | Not_opened | Torn

definition file_exists :: "'a disk \<Rightarrow> bool" where
  "file_exists f = (case f of Absent \<Rightarrow> False | _ \<Rightarrow> True)"

lemma file_exists_simps [simp]:
  "\<not> file_exists Absent" "file_exists Unreadable" "file_exists Malformed" "file_exists (Holds v)"
  by (simp_all add: file_exists_def)

definition fs_write :: "write_outcome \<Rightarrow> 'a \<Rightarrow> 'a disk \<Rightarrow> 'a disk" where
  "fs_write w v f = (case w of Written \<Rightarrow> Holds v | Not_opened \<Rightarrow> f | Torn \<Rightarrow> Malformed)"

lemma fs_write_simps [simp]:
  "fs_write Written v f = Holds v" "fs_write Not_opened v f = f" "fs_write Torn v f = Malformed"
  by (simp_all add: fs_write_def)

text \<open>Reading a file that may be missing, and writing one, with the errors of the caller.\<close>

definition load_disk :: "'e \<Rightarrow> 'e \<Rightarrow> 'a disk \<Rightarrow> 'e + 'a option" where
  "load_disk io bad f =
     (case f of Absent \<Rightarrow> Ok None | Unreadable \<Rightarrow> Err io | Malformed \<Rightarrow> Err bad | Holds v \<Rightarrow> Ok (Some v))"

definition store_disk :: "'e \<Rightarrow> write_outcome \<Rightarrow> 'a \<Rightarrow> 'a disk \<Rightarrow> ('e + unit) \<times> 'a disk" where
  "store_disk io w v f = ((if w = Written then Ok () else Err io), fs_write w v f)"

lemma load_disk_simps [simp]:
  "load_disk io bad Absent = Ok None" "load_disk io bad Unreadable = Err io"
  "load_disk io bad Malformed = Err bad" "load_disk io bad (Holds v) = Ok (Some v)"
  by (simp_all add: load_disk_def)

lemma store_disk_simps [simp]:
  "store_disk io Written v f = (Ok (), Holds v)" "store_disk io Not_opened v f = (Err io, f)"
  "store_disk io Torn v f = (Err io, Malformed)"
  by (simp_all add: store_disk_def)

end
