(* ===== verification/Misaka_External.thy ===== *)
theory Misaka_External
  imports Misaka_Prelude
begin

text \<open>
  The packages the sources call and do not contain: \<open>bincode\<close>, \<open>ed25519_dalek\<close>, \<open>sha2\<close> and
  \<open>uuid\<close>. They are the fields of the record \<open>lib\<close>, an argument of every definition that uses
  them, and what the sources rely on are the hypotheses \<open>ed25519_correct\<close>,
  \<open>bincode_injective\<close> and \<open>uuid_injective\<close>.

  A value handed to \<open>bincode::serialize\<close> is first a value of the serde data model (\<open>sval\<close>);
  the type that \<open>derive(Serialize)\<close> gives it is a \<open>sty\<close>. The locale \<open>signed_artifact\<close> is the
  contract shared by all artifacts of the program that carry one signature over their other
  fields.
\<close>

section \<open>The serde data model\<close>

datatype sty = TU8 | TU16 | TU32 | TU64 | TBool | TStr | TBytes | TOpt sty | TSeq sty
  | TTup "sty list" | TEnum "sty list"

datatype sval = SU8 u8 | SU16 u16 | SU32 u32 | SU64 u64 | SBool bool | SStr string | SBytes bytes
  | SNone | SSome sval | SSeq "sval list" | STup "sval list" | SVariant nat sval

fun has_ty :: "sty \<Rightarrow> sval \<Rightarrow> bool" where
  "has_ty t (SU8 _) = (t = TU8)"
| "has_ty t (SU16 _) = (t = TU16)"
| "has_ty t (SU32 _) = (t = TU32)"
| "has_ty t (SU64 _) = (t = TU64)"
| "has_ty t (SBool _) = (t = TBool)"
| "has_ty t (SStr _) = (t = TStr)"
| "has_ty t (SBytes _) = (t = TBytes)"
| "has_ty t SNone = (case t of TOpt _ \<Rightarrow> True | _ \<Rightarrow> False)"
| "has_ty t (SSome v) = (case t of TOpt t' \<Rightarrow> has_ty t' v | _ \<Rightarrow> False)"
| "has_ty t (SSeq vs) = (case t of TSeq t' \<Rightarrow> \<forall>v\<in>set vs. has_ty t' v | _ \<Rightarrow> False)"
| "has_ty t (STup vs) = (case t of TTup ts \<Rightarrow> list_all2 has_ty ts vs | _ \<Rightarrow> False)"
| "has_ty t (SVariant i v) =
     (case t of TEnum ts \<Rightarrow> if i < length ts then has_ty (ts ! i) v else False | _ \<Rightarrow> False)"

declare has_ty.simps [ty_simps, simp del]

text \<open>Structures are tuples, \<open>[u8; N]\<close> is a tuple of \<open>N\<close> bytes, a unit variant has no payload.\<close>

definition unit_variant :: "nat \<Rightarrow> sval" where
  "unit_variant i = SVariant i (STup [])"

definition unit_ty :: sty where
  "unit_ty = TTup []"

lemma unit_variant_ty [ty_simps]:
  "has_ty (TEnum ts) (unit_variant i) \<longleftrightarrow> i < length ts \<and> has_ty (ts ! i) (STup [])"
  by (simp add: unit_variant_def has_ty.simps)

declare unit_ty_def [ty_simps]

lemma unit_variant_inj [simp]: "unit_variant i = unit_variant j \<longleftrightarrow> i = j"
  by (simp add: unit_variant_def)

definition ser_arr :: "nat \<Rightarrow> 'a::len word \<Rightarrow> sval" where
  "ser_arr n w = STup (map SU8 (word_bytes n w))"

definition arr_ty :: "nat \<Rightarrow> sty" where
  "arr_ty n = TTup (replicate n TU8)"

lemma ser_arr_inj [simp]:
  "8 * n = LENGTH('a) \<Longrightarrow> ser_arr n v = ser_arr n w \<longleftrightarrow> v = w" for v w :: "'a::len word"
proof -
  have "inj SU8" by (simp add: inj_def)
  moreover assume "8 * n = LENGTH('a)"
  ultimately show ?thesis by (auto simp: ser_arr_def inj_map_eq_map dest: word_bytes_inj)
qed

lemma ser_arr_ty [ty_simps]: "has_ty (arr_ty n) (ser_arr n w)"
  by (auto simp: arr_ty_def ser_arr_def list_all2_conv_all_nth has_ty.simps)

definition ser_opt :: "('a \<Rightarrow> sval) \<Rightarrow> 'a option \<Rightarrow> sval" where
  "ser_opt f x = (case x of None \<Rightarrow> SNone | Some v \<Rightarrow> SSome (f v))"

lemma ser_opt_inj: "(\<And>x y. f x = f y \<Longrightarrow> x = y) \<Longrightarrow> ser_opt f a = ser_opt f b \<Longrightarrow> a = b"
  by (auto simp: ser_opt_def split: option.splits)

lemma ser_opt_U64 [simp]: "ser_opt SU64 a = ser_opt SU64 b \<longleftrightarrow> a = b"
  using ser_opt_inj [of SU64 a b] by auto

lemma ser_opt_ty [ty_simps]: "(\<And>v. has_ty t (f v)) \<Longrightarrow> has_ty (TOpt t) (ser_opt f x)"
  by (auto simp: ser_opt_def has_ty.simps split: option.splits)

definition ser_seq :: "('a \<Rightarrow> sval) \<Rightarrow> 'a list \<Rightarrow> sval" where
  "ser_seq f xs = SSeq (map f xs)"

lemma ser_seq_inj: "(\<And>x y. f x = f y \<Longrightarrow> x = y) \<Longrightarrow> ser_seq f a = ser_seq f b \<Longrightarrow> a = b"
  by (simp add: ser_seq_def) (metis list.inj_map_strong)

lemma ser_seq_Str [simp]: "ser_seq SStr a = ser_seq SStr b \<longleftrightarrow> a = b"
  using ser_seq_inj [of SStr a b] by auto

lemma ser_seq_ty [ty_simps]: "(\<And>v. has_ty t (f v)) \<Longrightarrow> has_ty (TSeq t) (ser_seq f xs)"
  by (auto simp: ser_seq_def has_ty.simps)

section \<open>The packages\<close>

record lib =
  bincode :: "sval \<Rightarrow> bytes"
  ed_valid_key :: "arr32 \<Rightarrow> bool"
  ed_verify :: "arr32 \<Rightarrow> bytes \<Rightarrow> arr64 \<Rightarrow> bool"
  ed_sign :: "arr32 \<Rightarrow> bytes \<Rightarrow> arr64"
  ed_public :: "arr32 \<Rightarrow> arr32"
  sha256 :: "bytes \<Rightarrow> arr32"
  uuid_str :: "arr16 \<Rightarrow> string"

text \<open>
  \<open>SigningKey::sign\<close> produces what \<open>VerifyingKey::verify\<close> accepts for the matching key;
  \<open>bincode::serialize\<close> does not identify two values of one type (it has an inverse,
  \<open>bincode::deserialize\<close>); \<open>Uuid::to_string\<close> is read back by \<open>Uuid::parse_str\<close>.
\<close>

definition ed25519_correct :: "lib \<Rightarrow> bool" where
  "ed25519_correct L \<longleftrightarrow> (\<forall>sk m. ed_valid_key L (ed_public L sk)
     \<and> ed_verify L (ed_public L sk) m (ed_sign L sk m))"

definition bincode_injective :: "lib \<Rightarrow> bool" where
  "bincode_injective L \<longleftrightarrow> (\<forall>t a b. has_ty t a \<longrightarrow> has_ty t b \<longrightarrow> bincode L a = bincode L b \<longrightarrow> a = b)"

definition uuid_injective :: "lib \<Rightarrow> bool" where
  "uuid_injective L \<longleftrightarrow> (\<forall>a b. uuid_str L a = uuid_str L b \<longrightarrow> a = b)"

lemma bincode_injD:
  "bincode_injective L \<Longrightarrow> has_ty t a \<Longrightarrow> has_ty t b \<Longrightarrow> bincode L a = bincode L b \<Longrightarrow> a = b"
  unfolding bincode_injective_def by blast

lemma uuid_str_eq_iff: "uuid_injective L \<Longrightarrow> uuid_str L a = uuid_str L b \<longleftrightarrow> a = b"
  unfolding uuid_injective_def by blast

text \<open>
  The verification every public-key newtype of the program has (\<open>SisterPublicKey::verify\<close>,
  \<open>HumanPublicKey::verify\<close>, \<open>AuthorityPublicKey::verify\<close>): a key that does not decode
  verifies nothing.
\<close>

definition key_verify :: "lib \<Rightarrow> arr32 \<Rightarrow> bytes \<Rightarrow> arr64 \<Rightarrow> bool" where
  "key_verify L key message signature =
     (if \<not> ed_valid_key L key then False else ed_verify L key message signature)"

lemma key_verify_sign [simp]:
  "ed25519_correct L \<Longrightarrow> key_verify L (ed_public L sk) m (ed_sign L sk m)"
  by (simp add: key_verify_def ed25519_correct_def)

text \<open>Two different messages accepted under one key with one signature: what Ed25519 rules out.\<close>

definition signature_collision :: "lib \<Rightarrow> arr32 \<Rightarrow> arr64 \<Rightarrow> bool" where
  "signature_collision L key s \<longleftrightarrow>
     (\<exists>m m'. m \<noteq> m' \<and> key_verify L key m s \<and> key_verify L key m' s)"

section \<open>Signed artifacts\<close>

locale signed_artifact =
  fixes ty :: sty
    and payload :: "lib \<Rightarrow> 'a \<Rightarrow> sval"
    and sig_of :: "'a \<Rightarrow> arr64"
    and set_sig :: "arr64 \<Rightarrow> 'a \<Rightarrow> 'a"
  assumes payload_ty: "has_ty ty (payload L a)"
    and payload_set_sig: "payload L (set_sig s a) = payload L a"
    and sig_set_sig: "sig_of (set_sig s a) = s"
    and set_sig_same: "set_sig (sig_of a) a = a"
    and payload_inj: "uuid_injective L \<Longrightarrow> payload L a = payload L b \<Longrightarrow> set_sig s a = set_sig s b"
begin

lemma signed_verifies:
  "ed25519_correct L \<Longrightarrow>
   key_verify L (ed_public L sk) (bincode L (payload L (set_sig (ed_sign L sk (bincode L (payload L a))) a)))
     (sig_of (set_sig (ed_sign L sk (bincode L (payload L a))) a))"
  by (simp add: payload_set_sig sig_set_sig)

lemma signing_bytes_inj:
  assumes "bincode_injective L" "uuid_injective L"
    and "bincode L (payload L a) = bincode L (payload L b)" "sig_of a = sig_of b"
  shows "a = b"
  using bincode_injD [OF assms(1) payload_ty payload_ty assms(3)] payload_inj [OF assms(2)] assms(4)
  by (metis set_sig_same)

lemma tamper:
  assumes "bincode_injective L" "uuid_injective L"
    and "key_verify L key (bincode L (payload L a)) (sig_of a)"
    and "key_verify L key (bincode L (payload L b)) (sig_of b)"
    and "sig_of a = sig_of b" "a \<noteq> b"
  shows "signature_collision L key (sig_of a)"
  using assms signing_bytes_inj [OF assms(1, 2)] unfolding signature_collision_def by metis

end

end
