(* ===== verification/Misaka_Sample.thy ===== *)
theory Misaka_Sample
  imports Misaka_External
begin

text \<open>
  One concrete instance \<open>lib0\<close> of the packages of \<^verbatim>\<open>Misaka_External\<close>, for evaluating the
  model on examples: a self-delimiting byte encoding of the serde data model and a signature
  that is the key itself. It satisfies all three hypotheses.
\<close>

fun enc_bytes :: "bytes \<Rightarrow> bytes" where
  "enc_bytes [] = [0]"
| "enc_bytes (b # bs) = 1 # b # enc_bytes bs"

lemma enc_bytes_prefix_free: "enc_bytes a @ r = enc_bytes b @ s \<longleftrightarrow> a = b \<and> r = s"
proof (induction a arbitrary: b)
  case Nil
  then show ?case by (cases b) auto
next
  case (Cons x xs)
  then show ?case by (cases b) auto
qed

fun enc :: "sval \<Rightarrow> bytes" where
  "enc (SU8 w) = [w]"
| "enc (SU16 w) = word_bytes 2 w"
| "enc (SU32 w) = word_bytes 4 w"
| "enc (SU64 w) = word_bytes 8 w"
| "enc (SBool b) = [if b then 1 else 0]"
| "enc (SStr s) = enc_bytes (str_bytes s)"
| "enc (SBytes bs) = enc_bytes bs"
| "enc SNone = [0]"
| "enc (SSome v) = 1 # enc v"
| "enc (SSeq vs) = concat (map (\<lambda>v. 1 # enc v) vs) @ [0]"
| "enc (STup vs) = concat (map enc vs)"
| "enc (SVariant i v) = replicate i 1 @ 0 # enc v"

lemma enc_seq_prefix_free:
  assumes "\<And>v b r s. v \<in> set vs \<Longrightarrow> has_ty t b \<Longrightarrow> enc v @ r = enc b @ s \<Longrightarrow> v = b \<and> r = s"
    and "\<forall>b\<in>set bs. has_ty t b"
    and "concat (map (\<lambda>v. 1 # enc v) vs) @ 0 # r = concat (map (\<lambda>v. 1 # enc v) bs) @ 0 # s"
  shows "vs = bs \<and> r = s"
  using assms
proof (induction vs arbitrary: bs)
  case Nil
  then show ?case by (cases bs) auto
next
  case (Cons v vs)
  from Cons.prems(3) obtain b bs' where bs: "bs = b # bs'" by (cases bs) auto
  from Cons.prems(2, 3) bs Cons.prems(1) [of v b]
  have "v = b" and rest: "concat (map (\<lambda>v. 1 # enc v) vs) @ 0 # r = concat (map (\<lambda>v. 1 # enc v) bs') @ 0 # s"
    by auto
  moreover have "vs = bs' \<and> r = s"
    by (rule Cons.IH) (use Cons.prems(1, 2) bs rest in auto)
  ultimately show ?case using bs by simp
qed

lemma enc_tup_prefix_free:
  assumes "\<And>t v b r s. v \<in> set vs \<Longrightarrow> has_ty t v \<Longrightarrow> has_ty t b \<Longrightarrow> enc v @ r = enc b @ s \<Longrightarrow> v = b \<and> r = s"
    and "list_all2 has_ty ts vs" "list_all2 has_ty ts bs"
    and "concat (map enc vs) @ r = concat (map enc bs) @ s"
  shows "vs = bs \<and> r = s"
  using assms
proof (induction vs arbitrary: ts bs)
  case (Cons v vs)
  from Cons.prems(2) obtain t ts' where ts: "ts = t # ts'" "has_ty t v" "list_all2 has_ty ts' vs"
    by (auto simp: list_all2_Cons2)
  with Cons.prems(3) obtain b bs' where bs: "bs = b # bs'" "has_ty t b" "list_all2 has_ty ts' bs'"
    by (auto simp: list_all2_Cons1)
  have eq: "v = b \<and> concat (map enc vs) @ r = concat (map enc bs') @ s"
    by (rule Cons.prems(1)) (use Cons.prems(4) ts bs in auto)
  moreover have "vs = bs' \<and> r = s"
  proof (rule Cons.IH)
    show "v = b \<and> r = s" if "v \<in> set vs" "has_ty t v" "has_ty t b" "enc v @ r = enc b @ s" for t v b r s
      by (rule Cons.prems(1)) (use that in auto)
  qed (use ts bs eq in auto)
  ultimately show ?case using bs by simp
qed simp

lemma enc_variant_prefix_free:
  "replicate i 1 @ 0 # r = replicate j (1::u8) @ 0 # s \<longleftrightarrow> i = j \<and> r = s"
proof (induction i arbitrary: j)
  case 0
  then show ?case by (cases j) auto
next
  case (Suc i)
  then show ?case by (cases j) auto
qed

lemma has_ty_cases:
  "has_ty t (SU8 x) \<longleftrightarrow> t = TU8" "has_ty t (SU16 y) \<longleftrightarrow> t = TU16" "has_ty t (SU32 z) \<longleftrightarrow> t = TU32"
  "has_ty t (SU64 w) \<longleftrightarrow> t = TU64" "has_ty t (SBool p) \<longleftrightarrow> t = TBool" "has_ty t (SStr str) \<longleftrightarrow> t = TStr"
  "has_ty t (SBytes bs) \<longleftrightarrow> t = TBytes" "has_ty t SNone \<longleftrightarrow> (\<exists>t'. t = TOpt t')"
  "has_ty t (SSome v) \<longleftrightarrow> (\<exists>t'. t = TOpt t' \<and> has_ty t' v)"
  "has_ty t (SSeq vs) \<longleftrightarrow> (\<exists>t'. t = TSeq t' \<and> (\<forall>v\<in>set vs. has_ty t' v))"
  "has_ty t (STup vs) \<longleftrightarrow> (\<exists>ts. t = TTup ts \<and> list_all2 has_ty ts vs)"
  "has_ty t (SVariant i v) \<longleftrightarrow> (\<exists>ts. t = TEnum ts \<and> i < length ts \<and> has_ty (ts ! i) v)"
  by (cases t; simp add: has_ty.simps)+

lemma has_ty_inv:
  "has_ty (TOpt t) a \<Longrightarrow> a = SNone \<or> (\<exists>v. a = SSome v \<and> has_ty t v)"
  "has_ty (TSeq t) a \<Longrightarrow> \<exists>vs. a = SSeq vs \<and> (\<forall>v\<in>set vs. has_ty t v)"
  "has_ty (TTup ts) a \<Longrightarrow> \<exists>vs. a = STup vs \<and> list_all2 has_ty ts vs"
  "has_ty (TEnum ts) a \<Longrightarrow> \<exists>i v. a = SVariant i v \<and> i < length ts \<and> has_ty (ts ! i) v"
  by (cases a; simp add: has_ty_cases)+

lemma has_ty_inv_basic:
  "has_ty TU8 a \<Longrightarrow> \<exists>x. a = SU8 x" "has_ty TU16 a \<Longrightarrow> \<exists>x. a = SU16 x" "has_ty TU32 a \<Longrightarrow> \<exists>x. a = SU32 x"
  "has_ty TU64 a \<Longrightarrow> \<exists>x. a = SU64 x" "has_ty TBool a \<Longrightarrow> \<exists>x. a = SBool x" "has_ty TStr a \<Longrightarrow> \<exists>x. a = SStr x"
  "has_ty TBytes a \<Longrightarrow> \<exists>x. a = SBytes x"
  by (cases a; simp add: has_ty_cases)+

lemma enc_prefix_free:
  "has_ty t a \<Longrightarrow> has_ty t b \<Longrightarrow> enc a @ r = enc b @ s \<Longrightarrow> a = b \<and> r = s"
proof (induction a arbitrary: t b r s)
  case (SSeq vs)
  then obtain t' where t: "t = TSeq t'" "\<forall>v\<in>set vs. has_ty t' v" by (auto simp: has_ty_cases)
  with SSeq.prems(2) obtain bs where b: "b = SSeq bs" "\<forall>v\<in>set bs. has_ty t' v"
    using has_ty_inv(2) by blast
  have "vs = bs \<and> r = s"
  proof (rule enc_seq_prefix_free [where t = t'])
    show "v = b \<and> r = s" if "v \<in> set vs" "has_ty t' b" "enc v @ r = enc b @ s" for v b r s
      using SSeq.IH [OF that(1) _ that(2, 3)] t that(1) by blast
  qed (use SSeq.prems(3) b in auto)
  with b show ?case by simp
next
  case (STup vs)
  then obtain ts where t: "t = TTup ts" "list_all2 has_ty ts vs" by (auto simp: has_ty_cases)
  with STup.prems(2) obtain bs where b: "b = STup bs" "list_all2 has_ty ts bs"
    using has_ty_inv(3) by blast
  have "vs = bs \<and> r = s"
    by (rule enc_tup_prefix_free [OF STup.IH]) (use STup.prems(3) t b in auto)
  with b show ?case by simp
next
  case (SVariant i v)
  then obtain ts where t: "t = TEnum ts" "has_ty (ts ! i) v" by (auto simp: has_ty_cases)
  with SVariant.prems(2) obtain j w where b: "b = SVariant j w" "has_ty (ts ! j) w"
    using has_ty_inv(4) by blast
  with SVariant.prems(3) have "i = j \<and> enc v @ r = enc w @ s"
    by (simp add: enc_variant_prefix_free)
  with SVariant.IH [OF t(2), of w r s] b show ?case by auto
next
  case (SSome v)
  then obtain t' where t: "t = TOpt t'" "has_ty t' v" by (auto simp: has_ty_cases)
  with SSome.prems(2, 3) obtain w where "b = SSome w" "has_ty t' w"
    using has_ty_inv(1) [of t' b] by auto
  with SSome.IH [OF t(2), of w] SSome.prems(3) show ?case by simp
qed (auto simp: has_ty_cases enc_bytes_prefix_free
      dest!: has_ty_inv(1) has_ty_inv_basic split: if_splits)

definition lib0 :: lib where
  "lib0 = \<lparr>bincode = enc, ed_valid_key = (\<lambda>_. True), ed_verify = (\<lambda>k m s. s = ucast k),
     ed_sign = (\<lambda>k m. ucast k), ed_public = (\<lambda>k. k),
     sha256 = (\<lambda>m. bytes_word (take 32 m)), uuid_str = (\<lambda>w. bytes_str (word_bytes 16 w))\<rparr>"

lemma lib0_simps [simp]:
  "bincode lib0 = enc" "ed_valid_key lib0 k" "ed_verify lib0 k m s \<longleftrightarrow> s = ucast k"
  "ed_sign lib0 k m = ucast k" "ed_public lib0 k = k"
  "uuid_str lib0 w = bytes_str (word_bytes 16 w)"
  by (simp_all add: lib0_def)

lemma lib0_key_verify [simp]: "key_verify lib0 k m s \<longleftrightarrow> s = ucast k"
  by (simp add: key_verify_def)

lemma lib0_ed25519 [simp]: "ed25519_correct lib0"
  by (simp add: ed25519_correct_def)

lemma lib0_bincode [simp]: "bincode_injective lib0"
  unfolding bincode_injective_def
  by (metis append.right_neutral enc_prefix_free lib0_simps(1))

lemma lib0_uuid [simp]: "uuid_injective lib0"
proof -
  have "inj (\<lambda>b::u8. char_of (unat b) :: char)"
  proof (rule injI)
    fix a b :: u8
    assume "(char_of (unat a) :: char) = char_of (unat b)"
    then have "unat a mod 256 = unat b mod 256" by (simp add: char_of_eq_iff take_bit_eq_mod)
    with unat_lt_exp [of a] unat_lt_exp [of b] show "a = b" by (simp add: word_unat_eq_iff)
  qed
  then show ?thesis
    by (auto simp: uuid_injective_def bytes_str_def inj_map_eq_map word_bytes_eq_iff)
qed

end
