(* ===== verification/Misaka_Identity.thy ===== *)
theory Misaka_Identity
  imports Misaka_Sample
begin

text \<open>
  \<^verbatim>\<open>misaka-core/src/identity.rs\<close>: the identities, the artifacts signed by the network authority,
  by Sisters and by humans, and their verification. One record per structure, \<open>X_issue\<close> and
  \<open>X_verify\<close> for its constructor and its check, \<open>X_payload\<close> for the structure \<open>XUnsigned\<close> handed
  to \<open>bincode::serialize\<close> and \<open>X_signing_bytes\<close> for the signed bytes. The key and signature
  newtypes are their byte arrays. Each artifact is an instance of \<open>signed_artifact\<close>.
\<close>

section \<open>Identifiers and keys\<close>

type_synonym NetworkId = arr16
type_synonym SisterId = u64
type_synonym HumanId = arr16
type_synonym SisterPublicKey = arr32
type_synonym HumanPublicKey = arr32
type_synonym AuthorityPublicKey = arr32
type_synonym SisterSignature = arr64
type_synonym HumanSignature = arr64
type_synonym AuthoritySignature = arr64
type_synonym SisterKeyPair = arr32
type_synonym HumanKeyPair = arr32
type_synonym AuthorityKeyPair = arr32
type_synonym IrohEndpointId = arr32

definition NetworkId_serialize :: "lib \<Rightarrow> NetworkId \<Rightarrow> sval" where
  "NetworkId_serialize L n = SStr (uuid_str L n)"

definition HumanId_serialize :: "lib \<Rightarrow> HumanId \<Rightarrow> sval" where
  "HumanId_serialize L h = SStr (uuid_str L h)"

definition ser_key :: "arr32 \<Rightarrow> sval" where
  "ser_key k = ser_arr 32 k"

definition ser_signature :: "arr64 \<Rightarrow> sval" where
  "ser_signature s = SBytes (word_bytes 64 s)"

text \<open>\<open>Deserialize for SisterSignature\<close> (and its human and authority twins)\<close>

definition de_signature :: "bytes \<Rightarrow> arr64 option" where
  "de_signature bs = try_into_array 64 bs"

definition SisterPublicKey_verify :: "lib \<Rightarrow> SisterPublicKey \<Rightarrow> bytes \<Rightarrow> SisterSignature \<Rightarrow> bool" where
  "SisterPublicKey_verify L = key_verify L"

definition HumanPublicKey_verify :: "lib \<Rightarrow> HumanPublicKey \<Rightarrow> bytes \<Rightarrow> HumanSignature \<Rightarrow> bool" where
  "HumanPublicKey_verify L = key_verify L"

definition AuthorityPublicKey_verify :: "lib \<Rightarrow> AuthorityPublicKey \<Rightarrow> bytes \<Rightarrow> AuthoritySignature \<Rightarrow> bool" where
  "AuthorityPublicKey_verify L = key_verify L"

definition SisterKeyPair_public_key :: "lib \<Rightarrow> SisterKeyPair \<Rightarrow> SisterPublicKey" where
  "SisterKeyPair_public_key L = ed_public L"

definition SisterKeyPair_sign :: "lib \<Rightarrow> SisterKeyPair \<Rightarrow> bytes \<Rightarrow> SisterSignature" where
  "SisterKeyPair_sign L = ed_sign L"

definition HumanKeyPair_public_key :: "lib \<Rightarrow> HumanKeyPair \<Rightarrow> HumanPublicKey" where
  "HumanKeyPair_public_key L = ed_public L"

definition HumanKeyPair_sign :: "lib \<Rightarrow> HumanKeyPair \<Rightarrow> bytes \<Rightarrow> HumanSignature" where
  "HumanKeyPair_sign L = ed_sign L"

definition AuthorityKeyPair_public_key :: "lib \<Rightarrow> AuthorityKeyPair \<Rightarrow> AuthorityPublicKey" where
  "AuthorityKeyPair_public_key L = ed_public L"

definition AuthorityKeyPair_sign :: "lib \<Rightarrow> AuthorityKeyPair \<Rightarrow> bytes \<Rightarrow> AuthoritySignature" where
  "AuthorityKeyPair_sign L = ed_sign L"

lemmas key_defs = SisterPublicKey_verify_def HumanPublicKey_verify_def AuthorityPublicKey_verify_def
  SisterKeyPair_public_key_def SisterKeyPair_sign_def HumanKeyPair_public_key_def
  HumanKeyPair_sign_def AuthorityKeyPair_public_key_def AuthorityKeyPair_sign_def

lemma ser_prims_inj [simp]:
  "ser_key k = ser_key k' \<longleftrightarrow> k = k'" "ser_signature s = ser_signature s' \<longleftrightarrow> s = s'"
  by (simp_all add: ser_key_def ser_signature_def)

lemma ser_id_inj:
  "uuid_injective L \<Longrightarrow> NetworkId_serialize L n = NetworkId_serialize L n' \<longleftrightarrow> n = n'"
  "uuid_injective L \<Longrightarrow> HumanId_serialize L h = HumanId_serialize L h' \<longleftrightarrow> h = h'"
  by (simp_all add: NetworkId_serialize_def HumanId_serialize_def uuid_str_eq_iff)

lemma ser_prims_ty [ty_simps]:
  "has_ty (arr_ty 32) (ser_key k)" "has_ty TBytes (ser_signature s)"
  "has_ty TStr (NetworkId_serialize L n)" "has_ty TStr (HumanId_serialize L h)"
  by (simp_all add: ser_key_def ser_signature_def NetworkId_serialize_def HumanId_serialize_def ty_simps)

text \<open>A signature survives serialisation: 64 bytes are read back, any other length is refused.\<close>

lemma de_ser_signature: "de_signature (word_bytes 64 s) = Some s"
  by (simp add: de_signature_def try_into_array_def bytes_word_full)

section \<open>Humans, roles and permissions\<close>

record HumanIdentity =
  hi_id :: HumanId
  hi_display_name :: string
  hi_public_key :: HumanPublicKey

datatype Principal = Principal_Human HumanId | Principal_Sister SisterId

datatype Role = Owner | Admin | Operator

datatype Permission = NetworkInvite | NetworkRevoke | SisterInspect | JobSubmit | JobCancel
  | FileSend | TunnelOpen | ShellOpen

definition Role_allows :: "Role \<Rightarrow> Permission \<Rightarrow> bool" where
  "Role_allows role permission = (case role of
     Owner \<Rightarrow> True
   | Admin \<Rightarrow> permission \<in> {NetworkInvite, NetworkRevoke, SisterInspect}
   | Operator \<Rightarrow> permission \<in> {SisterInspect, JobSubmit, JobCancel, FileSend, TunnelOpen, ShellOpen})"

definition HumanIdentity_serialize :: "lib \<Rightarrow> HumanIdentity \<Rightarrow> sval" where
  "HumanIdentity_serialize L h =
     STup [HumanId_serialize L (hi_id h), SStr (hi_display_name h), ser_key (hi_public_key h)]"

definition HumanIdentity_ty :: sty where
  "HumanIdentity_ty = TTup [TStr, TStr, arr_ty 32]"

fun Principal_serialize :: "lib \<Rightarrow> Principal \<Rightarrow> sval" where
  "Principal_serialize L (Principal_Human h) = SVariant 0 (HumanId_serialize L h)"
| "Principal_serialize L (Principal_Sister s) = SVariant 1 (SU64 s)"

definition Principal_ty :: sty where
  "Principal_ty = TEnum [TStr, TU64]"

fun Role_serialize :: "Role \<Rightarrow> sval" where
  "Role_serialize Owner = unit_variant 0"
| "Role_serialize Admin = unit_variant 1"
| "Role_serialize Operator = unit_variant 2"

definition Role_ty :: sty where
  "Role_ty = TEnum (replicate 3 unit_ty)"

fun Permission_serialize :: "Permission \<Rightarrow> sval" where
  "Permission_serialize NetworkInvite = unit_variant 0"
| "Permission_serialize NetworkRevoke = unit_variant 1"
| "Permission_serialize SisterInspect = unit_variant 2"
| "Permission_serialize JobSubmit = unit_variant 3"
| "Permission_serialize JobCancel = unit_variant 4"
| "Permission_serialize FileSend = unit_variant 5"
| "Permission_serialize TunnelOpen = unit_variant 6"
| "Permission_serialize ShellOpen = unit_variant 7"

definition Permission_ty :: sty where
  "Permission_ty = TEnum (replicate 8 unit_ty)"

lemma ser_enums_inj [simp]:
  "Role_serialize r = Role_serialize r' \<longleftrightarrow> r = r'"
  "Permission_serialize p = Permission_serialize p' \<longleftrightarrow> p = p'"
  by (cases r; cases r'; simp) (cases p; cases p'; simp)

lemma ser_principal_inj: "uuid_injective L \<Longrightarrow> Principal_serialize L p = Principal_serialize L q \<longleftrightarrow> p = q"
  by (cases p; cases q) (simp_all add: ser_id_inj)

lemma ser_human_inj: "uuid_injective L \<Longrightarrow> HumanIdentity_serialize L p = HumanIdentity_serialize L q \<longleftrightarrow> p = q"
  by (auto simp: HumanIdentity_serialize_def ser_id_inj)

lemma ser_enums_ty [ty_simps]:
  "has_ty Role_ty (Role_serialize r)" "has_ty Permission_ty (Permission_serialize p)"
  "has_ty Principal_ty (Principal_serialize L q)" "has_ty HumanIdentity_ty (HumanIdentity_serialize L h)"
  subgoal by (cases r) (simp_all add: Role_ty_def ty_simps)
  subgoal by (cases p) (simp_all add: Permission_ty_def ty_simps)
  subgoal by (cases q) (simp_all add: Principal_ty_def ty_simps)
  subgoal by (simp add: HumanIdentity_ty_def HumanIdentity_serialize_def ty_simps)
  done

section \<open>Network authority and certificates\<close>

record NetworkAuthority =
  na_network_id :: NetworkId
  na_authority_public_key :: AuthorityPublicKey

definition NetworkAuthority_generate :: "lib \<Rightarrow> AuthorityKeyPair \<Rightarrow> NetworkId \<Rightarrow> NetworkAuthority \<times> AuthorityKeyPair" where
  "NetworkAuthority_generate L key network_id =
     (\<lparr>na_network_id = network_id, na_authority_public_key = AuthorityKeyPair_public_key L key\<rparr>, key)"

definition NetworkAuthority_serialize :: "lib \<Rightarrow> NetworkAuthority \<Rightarrow> sval" where
  "NetworkAuthority_serialize L a =
     STup [NetworkId_serialize L (na_network_id a), ser_key (na_authority_public_key a)]"

definition NetworkAuthority_ty :: sty where
  "NetworkAuthority_ty = TTup [TStr, arr_ty 32]"

record HumanMembershipCertificate =
  hmc_network_id :: NetworkId
  hmc_human :: HumanIdentity
  hmc_role :: Role
  hmc_issued_at :: u64
  hmc_expires_at :: "u64 option"
  hmc_serial :: u64
  hmc_authority_signature :: AuthoritySignature

definition HumanMembershipCertificate_payload :: "lib \<Rightarrow> HumanMembershipCertificate \<Rightarrow> sval" where
  "HumanMembershipCertificate_payload L c =
     STup [NetworkId_serialize L (hmc_network_id c), HumanIdentity_serialize L (hmc_human c),
       Role_serialize (hmc_role c), SU64 (hmc_issued_at c), ser_opt SU64 (hmc_expires_at c),
       SU64 (hmc_serial c)]"

definition HumanMembershipCertificate_payload_ty :: sty where
  "HumanMembershipCertificate_payload_ty = TTup [TStr, HumanIdentity_ty, Role_ty, TU64, TOpt TU64, TU64]"

definition HumanMembershipCertificate_signing_bytes :: "lib \<Rightarrow> HumanMembershipCertificate \<Rightarrow> bytes" where
  "HumanMembershipCertificate_signing_bytes L c = bincode L (HumanMembershipCertificate_payload L c)"

definition HumanMembershipCertificate_issue ::
    "lib \<Rightarrow> NetworkAuthority \<Rightarrow> AuthorityKeyPair \<Rightarrow> HumanIdentity \<Rightarrow> Role \<Rightarrow> u64 \<Rightarrow> u64 option \<Rightarrow> u64
      \<Rightarrow> HumanMembershipCertificate" where
  "HumanMembershipCertificate_issue L authority authority_key human role issued_at expires_at serial =
     (let certificate = \<lparr>hmc_network_id = na_network_id authority, hmc_human = human,
            hmc_role = role, hmc_issued_at = issued_at, hmc_expires_at = expires_at,
            hmc_serial = serial, hmc_authority_signature = 0\<rparr>
      in certificate\<lparr>hmc_authority_signature :=
           AuthorityKeyPair_sign L authority_key (HumanMembershipCertificate_signing_bytes L certificate)\<rparr>)"

definition HumanMembershipCertificate_verify ::
    "lib \<Rightarrow> HumanMembershipCertificate \<Rightarrow> NetworkAuthority \<Rightarrow> u64 \<Rightarrow> bool" where
  "HumanMembershipCertificate_verify L c authority now \<longleftrightarrow>
     hmc_network_id c = na_network_id authority
     \<and> (case hmc_expires_at c of None \<Rightarrow> True | Some expires \<Rightarrow> hmc_issued_at c \<le> expires)
     \<and> hmc_issued_at c \<le> now
     \<and> (case hmc_expires_at c of None \<Rightarrow> True | Some expires \<Rightarrow> now \<le> expires)
     \<and> AuthorityPublicKey_verify L (na_authority_public_key authority)
         (HumanMembershipCertificate_signing_bytes L c) (hmc_authority_signature c)"

text \<open>The complete certificate, as it is embedded in a \<open>CommandAuthorization\<close>.\<close>

definition HumanMembershipCertificate_serialize :: "lib \<Rightarrow> HumanMembershipCertificate \<Rightarrow> sval" where
  "HumanMembershipCertificate_serialize L c =
     STup [NetworkId_serialize L (hmc_network_id c), HumanIdentity_serialize L (hmc_human c),
       Role_serialize (hmc_role c), SU64 (hmc_issued_at c), ser_opt SU64 (hmc_expires_at c),
       SU64 (hmc_serial c), ser_signature (hmc_authority_signature c)]"

definition HumanMembershipCertificate_ty :: sty where
  "HumanMembershipCertificate_ty =
     TTup [TStr, HumanIdentity_ty, Role_ty, TU64, TOpt TU64, TU64, TBytes]"

record MembershipCertificate =
  mc_network_id :: NetworkId
  mc_sister_public_key :: SisterPublicKey
  mc_sister_id :: SisterId
  mc_issued_at :: u64
  mc_expires_at :: "u64 option"
  mc_serial :: u64
  mc_authority_signature :: AuthoritySignature

definition MembershipCertificate_payload :: "lib \<Rightarrow> MembershipCertificate \<Rightarrow> sval" where
  "MembershipCertificate_payload L c =
     STup [NetworkId_serialize L (mc_network_id c), ser_key (mc_sister_public_key c),
       SU64 (mc_sister_id c), SU64 (mc_issued_at c), ser_opt SU64 (mc_expires_at c),
       SU64 (mc_serial c)]"

definition MembershipCertificate_payload_ty :: sty where
  "MembershipCertificate_payload_ty = TTup [TStr, arr_ty 32, TU64, TU64, TOpt TU64, TU64]"

definition MembershipCertificate_signing_bytes :: "lib \<Rightarrow> MembershipCertificate \<Rightarrow> bytes" where
  "MembershipCertificate_signing_bytes L c = bincode L (MembershipCertificate_payload L c)"

definition MembershipCertificate_issue ::
    "lib \<Rightarrow> NetworkAuthority \<Rightarrow> AuthorityKeyPair \<Rightarrow> SisterPublicKey \<Rightarrow> u64 \<Rightarrow> u64 \<Rightarrow> u64 option \<Rightarrow> u64
      \<Rightarrow> MembershipCertificate" where
  "MembershipCertificate_issue L authority authority_key sister_public_key sister_id issued_at expires_at serial =
     (let certificate = \<lparr>mc_network_id = na_network_id authority,
            mc_sister_public_key = sister_public_key, mc_sister_id = sister_id,
            mc_issued_at = issued_at, mc_expires_at = expires_at, mc_serial = serial,
            mc_authority_signature = 0\<rparr>
      in certificate\<lparr>mc_authority_signature :=
           AuthorityKeyPair_sign L authority_key (MembershipCertificate_signing_bytes L certificate)\<rparr>)"

definition MembershipCertificate_verify :: "lib \<Rightarrow> MembershipCertificate \<Rightarrow> NetworkAuthority \<Rightarrow> bool" where
  "MembershipCertificate_verify L c authority \<longleftrightarrow>
     mc_network_id c = na_network_id authority
     \<and> AuthorityPublicKey_verify L (na_authority_public_key authority)
         (MembershipCertificate_signing_bytes L c) (mc_authority_signature c)"

definition MembershipCertificate_is_valid_at :: "MembershipCertificate \<Rightarrow> u64 \<Rightarrow> bool" where
  "MembershipCertificate_is_valid_at c timestamp \<longleftrightarrow>
     mc_issued_at c \<le> timestamp
     \<and> (case mc_expires_at c of None \<Rightarrow> True | Some expires_at \<Rightarrow> timestamp \<le> expires_at)"

definition MembershipCertificate_serialize :: "lib \<Rightarrow> MembershipCertificate \<Rightarrow> sval" where
  "MembershipCertificate_serialize L c =
     STup [NetworkId_serialize L (mc_network_id c), ser_key (mc_sister_public_key c),
       SU64 (mc_sister_id c), SU64 (mc_issued_at c), ser_opt SU64 (mc_expires_at c),
       SU64 (mc_serial c), ser_signature (mc_authority_signature c)]"

definition MembershipCertificate_ty :: sty where
  "MembershipCertificate_ty = TTup [TStr, arr_ty 32, TU64, TU64, TOpt TU64, TU64, TBytes]"

datatype MembershipKind = MembershipKind_Sister | MembershipKind_Human

fun MembershipKind_serialize :: "MembershipKind \<Rightarrow> sval" where
  "MembershipKind_serialize MembershipKind_Sister = unit_variant 0"
| "MembershipKind_serialize MembershipKind_Human = unit_variant 1"

definition MembershipKind_ty :: sty where
  "MembershipKind_ty = TEnum (replicate 2 unit_ty)"

record RevocationRecord =
  rr_network_id :: NetworkId
  rr_membership_kind :: MembershipKind
  rr_membership_serial :: u64
  rr_revoked_at :: u64
  rr_reason :: string
  rr_authority_signature :: AuthoritySignature

definition RevocationRecord_payload :: "lib \<Rightarrow> RevocationRecord \<Rightarrow> sval" where
  "RevocationRecord_payload L r =
     STup [NetworkId_serialize L (rr_network_id r), MembershipKind_serialize (rr_membership_kind r),
       SU64 (rr_membership_serial r), SU64 (rr_revoked_at r), SStr (rr_reason r)]"

definition RevocationRecord_payload_ty :: sty where
  "RevocationRecord_payload_ty = TTup [TStr, MembershipKind_ty, TU64, TU64, TStr]"

definition RevocationRecord_signing_bytes :: "lib \<Rightarrow> RevocationRecord \<Rightarrow> bytes" where
  "RevocationRecord_signing_bytes L r = bincode L (RevocationRecord_payload L r)"

definition RevocationRecord_issue ::
    "lib \<Rightarrow> NetworkAuthority \<Rightarrow> AuthorityKeyPair \<Rightarrow> MembershipKind \<Rightarrow> u64 \<Rightarrow> u64 \<Rightarrow> string \<Rightarrow> RevocationRecord" where
  "RevocationRecord_issue L authority authority_key membership_kind membership_serial revoked_at reason =
     (let record' = \<lparr>rr_network_id = na_network_id authority, rr_membership_kind = membership_kind,
            rr_membership_serial = membership_serial, rr_revoked_at = revoked_at,
            rr_reason = reason, rr_authority_signature = 0\<rparr>
      in record'\<lparr>rr_authority_signature :=
           AuthorityKeyPair_sign L authority_key (RevocationRecord_signing_bytes L record')\<rparr>)"

definition RevocationRecord_verify :: "lib \<Rightarrow> RevocationRecord \<Rightarrow> NetworkAuthority \<Rightarrow> bool" where
  "RevocationRecord_verify L r authority \<longleftrightarrow>
     rr_network_id r = na_network_id authority
     \<and> AuthorityPublicKey_verify L (na_authority_public_key authority)
         (RevocationRecord_signing_bytes L r) (rr_authority_signature r)"

section \<open>Locators signed by a Sister\<close>

record TransportBinding =
  tb_network_id :: NetworkId
  tb_sister_id :: SisterId
  tb_sister_public_key :: SisterPublicKey
  tb_iroh_endpoint_id :: IrohEndpointId
  tb_sequence :: u64
  tb_signature_by_sister_key :: SisterSignature

definition TransportBinding_payload :: "lib \<Rightarrow> TransportBinding \<Rightarrow> sval" where
  "TransportBinding_payload L b =
     STup [NetworkId_serialize L (tb_network_id b), SU64 (tb_sister_id b),
       ser_key (tb_sister_public_key b), ser_key (tb_iroh_endpoint_id b), SU64 (tb_sequence b)]"

definition TransportBinding_payload_ty :: sty where
  "TransportBinding_payload_ty = TTup [TStr, TU64, arr_ty 32, arr_ty 32, TU64]"

definition TransportBinding_signing_bytes :: "lib \<Rightarrow> TransportBinding \<Rightarrow> bytes" where
  "TransportBinding_signing_bytes L b = bincode L (TransportBinding_payload L b)"

definition TransportBinding_sign ::
    "lib \<Rightarrow> NetworkId \<Rightarrow> u64 \<Rightarrow> IrohEndpointId \<Rightarrow> u64 \<Rightarrow> SisterKeyPair \<Rightarrow> TransportBinding" where
  "TransportBinding_sign L network_id sister_id iroh_endpoint_id sequence key =
     (let binding = \<lparr>tb_network_id = network_id, tb_sister_id = sister_id,
            tb_sister_public_key = SisterKeyPair_public_key L key,
            tb_iroh_endpoint_id = iroh_endpoint_id, tb_sequence = sequence,
            tb_signature_by_sister_key = 0\<rparr>
      in binding\<lparr>tb_signature_by_sister_key :=
           SisterKeyPair_sign L key (TransportBinding_signing_bytes L binding)\<rparr>)"

definition TransportBinding_verify :: "lib \<Rightarrow> TransportBinding \<Rightarrow> bool" where
  "TransportBinding_verify L b = SisterPublicKey_verify L (tb_sister_public_key b)
     (TransportBinding_signing_bytes L b) (tb_signature_by_sister_key b)"

definition TransportBinding_serialize :: "lib \<Rightarrow> TransportBinding \<Rightarrow> sval" where
  "TransportBinding_serialize L b =
     STup [NetworkId_serialize L (tb_network_id b), SU64 (tb_sister_id b),
       ser_key (tb_sister_public_key b), ser_key (tb_iroh_endpoint_id b), SU64 (tb_sequence b),
       ser_signature (tb_signature_by_sister_key b)]"

definition TransportBinding_ty :: sty where
  "TransportBinding_ty = TTup [TStr, TU64, arr_ty 32, arr_ty 32, TU64, TBytes]"

record PeerRecord =
  pr_network_id :: NetworkId
  pr_sister_id :: SisterId
  pr_sister_public_key :: SisterPublicKey
  pr_endpoint_addr :: string
  pr_transport_binding :: TransportBinding
  pr_sequence :: u64
  pr_updated_at :: u64
  pr_sister_signature :: SisterSignature

definition PeerRecord_payload :: "lib \<Rightarrow> PeerRecord \<Rightarrow> sval" where
  "PeerRecord_payload L r =
     STup [NetworkId_serialize L (pr_network_id r), SU64 (pr_sister_id r),
       ser_key (pr_sister_public_key r), SStr (pr_endpoint_addr r),
       TransportBinding_serialize L (pr_transport_binding r), SU64 (pr_sequence r),
       SU64 (pr_updated_at r)]"

definition PeerRecord_payload_ty :: sty where
  "PeerRecord_payload_ty = TTup [TStr, TU64, arr_ty 32, TStr, TransportBinding_ty, TU64, TU64]"

definition PeerRecord_signing_bytes :: "lib \<Rightarrow> PeerRecord \<Rightarrow> bytes" where
  "PeerRecord_signing_bytes L r = bincode L (PeerRecord_payload L r)"

definition PeerRecord_issue ::
    "lib \<Rightarrow> NetworkId \<Rightarrow> u64 \<Rightarrow> string \<Rightarrow> TransportBinding \<Rightarrow> u64 \<Rightarrow> SisterKeyPair \<Rightarrow> PeerRecord" where
  "PeerRecord_issue L network_id sister_id endpoint_addr transport_binding updated_at key =
     (let record' = \<lparr>pr_network_id = network_id, pr_sister_id = sister_id,
            pr_sister_public_key = SisterKeyPair_public_key L key,
            pr_endpoint_addr = endpoint_addr, pr_transport_binding = transport_binding,
            pr_sequence = tb_sequence transport_binding, pr_updated_at = updated_at,
            pr_sister_signature = 0\<rparr>
      in record'\<lparr>pr_sister_signature :=
           SisterKeyPair_sign L key (PeerRecord_signing_bytes L record')\<rparr>)"

definition PeerRecord_verify :: "lib \<Rightarrow> PeerRecord \<Rightarrow> bool" where
  "PeerRecord_verify L r \<longleftrightarrow>
     pr_network_id r = tb_network_id (pr_transport_binding r)
     \<and> pr_sister_id r = tb_sister_id (pr_transport_binding r)
     \<and> pr_sister_public_key r = tb_sister_public_key (pr_transport_binding r)
     \<and> pr_sequence r = tb_sequence (pr_transport_binding r)
     \<and> TransportBinding_verify L (pr_transport_binding r)
     \<and> SisterPublicKey_verify L (pr_sister_public_key r) (PeerRecord_signing_bytes L r)
         (pr_sister_signature r)"

definition PeerRecord_serialize :: "lib \<Rightarrow> PeerRecord \<Rightarrow> sval" where
  "PeerRecord_serialize L r =
     STup [NetworkId_serialize L (pr_network_id r), SU64 (pr_sister_id r),
       ser_key (pr_sister_public_key r), SStr (pr_endpoint_addr r),
       TransportBinding_serialize L (pr_transport_binding r), SU64 (pr_sequence r),
       SU64 (pr_updated_at r), ser_signature (pr_sister_signature r)]"

definition PeerRecord_ty :: sty where
  "PeerRecord_ty = TTup [TStr, TU64, arr_ty 32, TStr, TransportBinding_ty, TU64, TU64, TBytes]"

section \<open>Network invites\<close>

record NetworkInvite =
  ni_network_id :: NetworkId
  ni_authority :: NetworkAuthority
  ni_bootstrap_records :: "PeerRecord list"
  ni_issued_at :: u64
  ni_expires_at :: u64
  ni_invite_id :: arr16
  ni_membership :: "MembershipCertificate option"
  ni_authority_signature :: AuthoritySignature

definition NetworkInvite_payload :: "lib \<Rightarrow> NetworkInvite \<Rightarrow> sval" where
  "NetworkInvite_payload L i =
     STup [NetworkId_serialize L (ni_network_id i), NetworkAuthority_serialize L (ni_authority i),
       ser_seq (PeerRecord_serialize L) (ni_bootstrap_records i), SU64 (ni_issued_at i),
       SU64 (ni_expires_at i), ser_arr 16 (ni_invite_id i),
       ser_opt (MembershipCertificate_serialize L) (ni_membership i)]"

definition NetworkInvite_payload_ty :: sty where
  "NetworkInvite_payload_ty = TTup [TStr, NetworkAuthority_ty, TSeq PeerRecord_ty, TU64, TU64,
     arr_ty 16, TOpt MembershipCertificate_ty]"

definition NetworkInvite_signing_bytes :: "lib \<Rightarrow> NetworkInvite \<Rightarrow> bytes" where
  "NetworkInvite_signing_bytes L i = bincode L (NetworkInvite_payload L i)"

definition NetworkInvite_issue ::
    "lib \<Rightarrow> NetworkAuthority \<Rightarrow> AuthorityKeyPair \<Rightarrow> PeerRecord list \<Rightarrow> u64 \<Rightarrow> u64 \<Rightarrow> arr16
      \<Rightarrow> MembershipCertificate option \<Rightarrow> NetworkInvite" where
  "NetworkInvite_issue L authority authority_key bootstrap_records issued_at expires_at invite_id membership =
     (let invite = \<lparr>ni_network_id = na_network_id authority, ni_authority = authority,
            ni_bootstrap_records = bootstrap_records, ni_issued_at = issued_at,
            ni_expires_at = expires_at, ni_invite_id = invite_id, ni_membership = membership,
            ni_authority_signature = 0\<rparr>
      in invite\<lparr>ni_authority_signature :=
           AuthorityKeyPair_sign L authority_key (NetworkInvite_signing_bytes L invite)\<rparr>)"

definition NetworkInvite_verify :: "lib \<Rightarrow> NetworkInvite \<Rightarrow> u64 \<Rightarrow> bool" where
  "NetworkInvite_verify L i now \<longleftrightarrow>
     ni_network_id i = na_network_id (ni_authority i)
     \<and> ni_issued_at i \<le> ni_expires_at i
     \<and> ni_issued_at i \<le> now
     \<and> now \<le> ni_expires_at i
     \<and> AuthorityPublicKey_verify L (na_authority_public_key (ni_authority i))
         (NetworkInvite_signing_bytes L i) (ni_authority_signature i)
     \<and> list_all (\<lambda>record'. pr_network_id record' = ni_network_id i \<and> PeerRecord_verify L record')
         (ni_bootstrap_records i)
     \<and> (case ni_membership i of None \<Rightarrow> True | Some membership \<Rightarrow>
          mc_network_id membership = ni_network_id i
          \<and> MembershipCertificate_verify L membership (ni_authority i)
          \<and> MembershipCertificate_is_valid_at membership now)"

section \<open>Command authorizations\<close>

record CommandAuthorization =
  ca_network_id :: NetworkId
  ca_issuer :: HumanIdentity
  ca_membership :: HumanMembershipCertificate
  ca_role :: Role
  ca_permission :: Permission
  ca_target :: "Principal option"
  ca_constraints :: "string list"
  ca_issued_at :: u64
  ca_expires_at :: u64
  ca_nonce :: arr16
  ca_signature :: HumanSignature

definition CommandAuthorization_payload :: "lib \<Rightarrow> CommandAuthorization \<Rightarrow> sval" where
  "CommandAuthorization_payload L a =
     STup [NetworkId_serialize L (ca_network_id a), HumanIdentity_serialize L (ca_issuer a),
       HumanMembershipCertificate_serialize L (ca_membership a), Role_serialize (ca_role a),
       Permission_serialize (ca_permission a), ser_opt (Principal_serialize L) (ca_target a),
       ser_seq SStr (ca_constraints a), SU64 (ca_issued_at a), SU64 (ca_expires_at a),
       ser_arr 16 (ca_nonce a)]"

definition CommandAuthorization_payload_ty :: sty where
  "CommandAuthorization_payload_ty = TTup [TStr, HumanIdentity_ty, HumanMembershipCertificate_ty,
     Role_ty, Permission_ty, TOpt Principal_ty, TSeq TStr, TU64, TU64, arr_ty 16]"

definition CommandAuthorization_signing_bytes :: "lib \<Rightarrow> CommandAuthorization \<Rightarrow> bytes" where
  "CommandAuthorization_signing_bytes L a = bincode L (CommandAuthorization_payload L a)"

definition CommandAuthorization_issue ::
    "lib \<Rightarrow> NetworkId \<Rightarrow> HumanIdentity \<Rightarrow> HumanMembershipCertificate \<Rightarrow> Role \<Rightarrow> Permission
      \<Rightarrow> Principal option \<Rightarrow> string list \<Rightarrow> u64 \<Rightarrow> u64 \<Rightarrow> arr16 \<Rightarrow> HumanKeyPair \<Rightarrow> CommandAuthorization" where
  "CommandAuthorization_issue L network_id issuer membership role permission target constraints
       issued_at expires_at nonce key =
     (let authorization = \<lparr>ca_network_id = network_id, ca_issuer = issuer,
            ca_membership = membership, ca_role = role, ca_permission = permission,
            ca_target = target, ca_constraints = constraints, ca_issued_at = issued_at,
            ca_expires_at = expires_at, ca_nonce = nonce, ca_signature = 0\<rparr>
      in authorization\<lparr>ca_signature :=
           HumanKeyPair_sign L key (CommandAuthorization_signing_bytes L authorization)\<rparr>)"

definition CommandAuthorization_verify :: "lib \<Rightarrow> CommandAuthorization \<Rightarrow> NetworkAuthority \<Rightarrow> u64 \<Rightarrow> bool" where
  "CommandAuthorization_verify L a authority now \<longleftrightarrow>
     ca_network_id a = na_network_id authority
     \<and> ca_issued_at a \<le> ca_expires_at a
     \<and> ca_issued_at a \<le> now
     \<and> now \<le> ca_expires_at a
     \<and> Role_allows (ca_role a) (ca_permission a)
     \<and> hmc_network_id (ca_membership a) = ca_network_id a
     \<and> hmc_role (ca_membership a) = ca_role a
     \<and> hmc_human (ca_membership a) = ca_issuer a
     \<and> HumanMembershipCertificate_verify L (ca_membership a) authority now
     \<and> HumanPublicKey_verify L (hi_public_key (ca_issuer a)) (CommandAuthorization_signing_bytes L a)
         (ca_signature a)"

section \<open>Key possession\<close>

record KeyPossessionChallenge =
  kpc_network_id :: NetworkId
  kpc_nonce :: arr32

definition KeyPossessionChallenge_signing_bytes :: "lib \<Rightarrow> KeyPossessionChallenge \<Rightarrow> bytes" where
  "KeyPossessionChallenge_signing_bytes L c =
     bincode L (STup [NetworkId_serialize L (kpc_network_id c), ser_key (kpc_nonce c)])"

definition SisterKeyPair_sign_challenge :: "lib \<Rightarrow> SisterKeyPair \<Rightarrow> KeyPossessionChallenge \<Rightarrow> SisterSignature" where
  "SisterKeyPair_sign_challenge L key challenge =
     SisterKeyPair_sign L key (KeyPossessionChallenge_signing_bytes L challenge)"

definition SisterPublicKey_verify_challenge ::
    "lib \<Rightarrow> SisterPublicKey \<Rightarrow> KeyPossessionChallenge \<Rightarrow> SisterSignature \<Rightarrow> bool" where
  "SisterPublicKey_verify_challenge L key challenge signature =
     SisterPublicKey_verify L key (KeyPossessionChallenge_signing_bytes L challenge) signature"

section \<open>Display\<close>

definition hex_digit :: "nat \<Rightarrow> char" where
  "hex_digit n = ''0123456789abcdef'' ! n"

definition write_hex :: "bytes \<Rightarrow> string" where
  "write_hex bs = concat (map (\<lambda>b. [hex_digit (unat b div 16), hex_digit (unat b mod 16)]) bs)"

record SisterIdentity =
  si_id :: SisterId
  si_nickname :: string
  si_hostname :: string
  si_platform :: string
  si_version :: string
  si_listen_port :: u16

section \<open>Serialised artifacts are typed and determine the artifact\<close>

lemma ser_kind [simp]: "MembershipKind_serialize k = MembershipKind_serialize k' \<longleftrightarrow> k = k'"
  by (cases k; cases k'; simp)

lemma ser_kind_ty [ty_simps]: "has_ty MembershipKind_ty (MembershipKind_serialize k)"
  by (cases k) (simp_all add: MembershipKind_ty_def ty_simps)

lemma ser_embedded_ty [ty_simps]:
  "has_ty NetworkAuthority_ty (NetworkAuthority_serialize L a)"
  "has_ty HumanMembershipCertificate_ty (HumanMembershipCertificate_serialize L h)"
  "has_ty MembershipCertificate_ty (MembershipCertificate_serialize L m)"
  "has_ty TransportBinding_ty (TransportBinding_serialize L b)"
  "has_ty PeerRecord_ty (PeerRecord_serialize L r)"
proof -
  show *: "has_ty TransportBinding_ty (TransportBinding_serialize L b)" for b
    by (simp add: TransportBinding_ty_def TransportBinding_serialize_def ty_simps)
  show "has_ty PeerRecord_ty (PeerRecord_serialize L r)"
    by (simp add: PeerRecord_ty_def PeerRecord_serialize_def * ty_simps)
qed (simp_all add: NetworkAuthority_ty_def NetworkAuthority_serialize_def
    HumanMembershipCertificate_ty_def HumanMembershipCertificate_serialize_def
    MembershipCertificate_ty_def MembershipCertificate_serialize_def ty_simps)

lemma ser_authority_inj:
  "uuid_injective L \<Longrightarrow> NetworkAuthority_serialize L a = NetworkAuthority_serialize L b \<longleftrightarrow> a = b"
  by (auto simp: NetworkAuthority_serialize_def ser_id_inj)

lemma ser_human_membership_inj:
  "uuid_injective L \<Longrightarrow> HumanMembershipCertificate_serialize L a = HumanMembershipCertificate_serialize L b \<longleftrightarrow> a = b"
  by (auto simp: HumanMembershipCertificate_serialize_def ser_id_inj ser_human_inj)

lemma ser_membership_inj:
  "uuid_injective L \<Longrightarrow> MembershipCertificate_serialize L a = MembershipCertificate_serialize L b \<longleftrightarrow> a = b"
  by (auto simp: MembershipCertificate_serialize_def ser_id_inj)

lemma ser_binding_inj:
  "uuid_injective L \<Longrightarrow> TransportBinding_serialize L a = TransportBinding_serialize L b \<longleftrightarrow> a = b"
  by (auto simp: TransportBinding_serialize_def ser_id_inj)

lemma ser_peer_record_inj:
  "uuid_injective L \<Longrightarrow> PeerRecord_serialize L a = PeerRecord_serialize L b \<longleftrightarrow> a = b"
  by (auto simp: PeerRecord_serialize_def ser_id_inj ser_binding_inj)

lemmas ser_inj_struct = ser_id_inj ser_human_inj ser_principal_inj ser_authority_inj
  ser_human_membership_inj ser_membership_inj ser_binding_inj ser_peer_record_inj

lemma ser_opt_principal:
  "uuid_injective L \<Longrightarrow> ser_opt (Principal_serialize L) a = ser_opt (Principal_serialize L) b \<longleftrightarrow> a = b"
  using ser_opt_inj [of "Principal_serialize L" a b] by (auto simp: ser_inj_struct)

lemma ser_opt_membership:
  "uuid_injective L \<Longrightarrow>
   ser_opt (MembershipCertificate_serialize L) a = ser_opt (MembershipCertificate_serialize L) b \<longleftrightarrow> a = b"
  using ser_opt_inj [of "MembershipCertificate_serialize L" a b] by (auto simp: ser_inj_struct)

lemma ser_seq_peer_record:
  "uuid_injective L \<Longrightarrow>
   ser_seq (PeerRecord_serialize L) a = ser_seq (PeerRecord_serialize L) b \<longleftrightarrow> a = b"
  using ser_seq_inj [of "PeerRecord_serialize L" a b] by (auto simp: ser_inj_struct)

lemmas ser_inj = ser_inj_struct ser_opt_principal ser_opt_membership ser_seq_peer_record

interpretation human_membership: signed_artifact HumanMembershipCertificate_payload_ty
  HumanMembershipCertificate_payload hmc_authority_signature "\<lambda>s. hmc_authority_signature_update (\<lambda>_. s)"
  by unfold_locales
    (auto simp: HumanMembershipCertificate_payload_def HumanMembershipCertificate_payload_ty_def
      ty_simps ser_inj)

interpretation membership: signed_artifact MembershipCertificate_payload_ty
  MembershipCertificate_payload mc_authority_signature "\<lambda>s. mc_authority_signature_update (\<lambda>_. s)"
  by unfold_locales
    (auto simp: MembershipCertificate_payload_def MembershipCertificate_payload_ty_def ty_simps ser_inj)

interpretation revocation: signed_artifact RevocationRecord_payload_ty
  RevocationRecord_payload rr_authority_signature "\<lambda>s. rr_authority_signature_update (\<lambda>_. s)"
  by unfold_locales
    (auto simp: RevocationRecord_payload_def RevocationRecord_payload_ty_def ty_simps ser_inj)

interpretation binding: signed_artifact TransportBinding_payload_ty
  TransportBinding_payload tb_signature_by_sister_key "\<lambda>s. tb_signature_by_sister_key_update (\<lambda>_. s)"
  by unfold_locales
    (auto simp: TransportBinding_payload_def TransportBinding_payload_ty_def ty_simps ser_inj)

interpretation peer_record: signed_artifact PeerRecord_payload_ty
  PeerRecord_payload pr_sister_signature "\<lambda>s. pr_sister_signature_update (\<lambda>_. s)"
  by unfold_locales
    (auto simp: PeerRecord_payload_def PeerRecord_payload_ty_def ty_simps ser_inj)

interpretation invite: signed_artifact NetworkInvite_payload_ty
  NetworkInvite_payload ni_authority_signature "\<lambda>s. ni_authority_signature_update (\<lambda>_. s)"
  by unfold_locales
    (auto simp: NetworkInvite_payload_def NetworkInvite_payload_ty_def ty_simps ser_inj)

interpretation authorization: signed_artifact CommandAuthorization_payload_ty
  CommandAuthorization_payload ca_signature "\<lambda>s. ca_signature_update (\<lambda>_. s)"
  by unfold_locales
    (auto simp: CommandAuthorization_payload_def CommandAuthorization_payload_ty_def ty_simps ser_inj)

section \<open>Issuing and verifying\<close>

lemmas artifact_defs = key_defs
  HumanMembershipCertificate_issue_def HumanMembershipCertificate_signing_bytes_def
  MembershipCertificate_issue_def MembershipCertificate_signing_bytes_def
  RevocationRecord_issue_def RevocationRecord_signing_bytes_def
  TransportBinding_sign_def TransportBinding_signing_bytes_def
  PeerRecord_issue_def PeerRecord_signing_bytes_def
  NetworkInvite_issue_def NetworkInvite_signing_bytes_def
  CommandAuthorization_issue_def CommandAuthorization_signing_bytes_def
  HumanMembershipCertificate_payload_def MembershipCertificate_payload_def
  RevocationRecord_payload_def TransportBinding_payload_def PeerRecord_payload_def
  NetworkInvite_payload_def CommandAuthorization_payload_def

text \<open>The descriptor whose key is the public half of \<open>key\<close>, as \<open>NetworkAuthority::generate\<close> makes it.\<close>

abbreviation authority_of :: "lib \<Rightarrow> NetworkId \<Rightarrow> AuthorityKeyPair \<Rightarrow> NetworkAuthority" where
  "authority_of L network key \<equiv> fst (NetworkAuthority_generate L key network)"

lemma authority_of_sel [simp]:
  "na_network_id (authority_of L network key) = network"
  "na_authority_public_key (authority_of L network key) = ed_public L key"
  by (simp_all add: NetworkAuthority_generate_def key_defs)

lemma MembershipCertificate_issue_verify:
  assumes "ed25519_correct L" "na_authority_public_key authority = ed_public L key"
  shows "MembershipCertificate_verify L
    (MembershipCertificate_issue L authority key pk sid issued expires serial) authority"
  using assms by (simp add: MembershipCertificate_verify_def artifact_defs Let_def)

lemma MembershipCertificate_issue_sel [simp]:
  "mc_network_id (MembershipCertificate_issue L authority key pk sid issued expires serial) = na_network_id authority"
  "mc_sister_public_key (MembershipCertificate_issue L authority key pk sid issued expires serial) = pk"
  "mc_sister_id (MembershipCertificate_issue L authority key pk sid issued expires serial) = sid"
  "mc_issued_at (MembershipCertificate_issue L authority key pk sid issued expires serial) = issued"
  "mc_expires_at (MembershipCertificate_issue L authority key pk sid issued expires serial) = expires"
  "mc_serial (MembershipCertificate_issue L authority key pk sid issued expires serial) = serial"
  by (simp_all add: MembershipCertificate_issue_def Let_def)

lemma HumanMembershipCertificate_issue_verify:
  assumes "ed25519_correct L" "na_authority_public_key authority = ed_public L key"
  shows "HumanMembershipCertificate_verify L
      (HumanMembershipCertificate_issue L authority key human role issued expires serial) authority now
    \<longleftrightarrow> issued \<le> now \<and> (case expires of None \<Rightarrow> True | Some e \<Rightarrow> now \<le> e)"
  using assms
  by (auto simp: HumanMembershipCertificate_verify_def artifact_defs Let_def split: option.splits)

lemma RevocationRecord_issue_verify:
  assumes "ed25519_correct L" "na_authority_public_key authority = ed_public L key"
  shows "RevocationRecord_verify L (RevocationRecord_issue L authority key kind serial at reason) authority"
  using assms by (simp add: RevocationRecord_verify_def artifact_defs Let_def)

lemma TransportBinding_sign_verify:
  "ed25519_correct L \<Longrightarrow> TransportBinding_verify L (TransportBinding_sign L network sid endpoint sequence key)"
  by (simp add: TransportBinding_verify_def artifact_defs Let_def)

lemma TransportBinding_sign_sel [simp]:
  "tb_network_id (TransportBinding_sign L network sid endpoint sequence key) = network"
  "tb_sister_id (TransportBinding_sign L network sid endpoint sequence key) = sid"
  "tb_sister_public_key (TransportBinding_sign L network sid endpoint sequence key) = SisterKeyPair_public_key L key"
  "tb_iroh_endpoint_id (TransportBinding_sign L network sid endpoint sequence key) = endpoint"
  "tb_sequence (TransportBinding_sign L network sid endpoint sequence key) = sequence"
  by (simp_all add: TransportBinding_sign_def Let_def)

lemma PeerRecord_issue_sel [simp]:
  "pr_network_id (PeerRecord_issue L network sid addr b updated key) = network"
  "pr_sister_id (PeerRecord_issue L network sid addr b updated key) = sid"
  "pr_sister_public_key (PeerRecord_issue L network sid addr b updated key) = SisterKeyPair_public_key L key"
  "pr_endpoint_addr (PeerRecord_issue L network sid addr b updated key) = addr"
  "pr_transport_binding (PeerRecord_issue L network sid addr b updated key) = b"
  "pr_sequence (PeerRecord_issue L network sid addr b updated key) = tb_sequence b"
  "pr_updated_at (PeerRecord_issue L network sid addr b updated key) = updated"
  by (simp_all add: PeerRecord_issue_def Let_def)

lemma PeerRecord_issue_signature:
  "ed25519_correct L \<Longrightarrow> SisterPublicKey_verify L (SisterKeyPair_public_key L key)
     (PeerRecord_signing_bytes L (PeerRecord_issue L network sid addr b updated key))
     (pr_sister_signature (PeerRecord_issue L network sid addr b updated key))"
  by (simp add: artifact_defs Let_def)

lemma PeerRecord_issue_verify:
  assumes "ed25519_correct L"
  shows "PeerRecord_verify L (PeerRecord_issue L network sid addr b updated key) \<longleftrightarrow>
    network = tb_network_id b \<and> sid = tb_sister_id b
    \<and> SisterKeyPair_public_key L key = tb_sister_public_key b \<and> TransportBinding_verify L b"
  using PeerRecord_issue_signature [OF assms] by (auto simp: PeerRecord_verify_def)

lemma CommandAuthorization_issue_sel [simp]:
  "ca_network_id (CommandAuthorization_issue L network human certificate role permission target constraints from_time until_time nonce key) = network"
  "ca_issuer (CommandAuthorization_issue L network human certificate role permission target constraints from_time until_time nonce key) = human"
  "ca_membership (CommandAuthorization_issue L network human certificate role permission target constraints from_time until_time nonce key) = certificate"
  "ca_role (CommandAuthorization_issue L network human certificate role permission target constraints from_time until_time nonce key) = role"
  "ca_permission (CommandAuthorization_issue L network human certificate role permission target constraints from_time until_time nonce key) = permission"
  "ca_target (CommandAuthorization_issue L network human certificate role permission target constraints from_time until_time nonce key) = target"
  "ca_constraints (CommandAuthorization_issue L network human certificate role permission target constraints from_time until_time nonce key) = constraints"
  "ca_issued_at (CommandAuthorization_issue L network human certificate role permission target constraints from_time until_time nonce key) = from_time"
  "ca_expires_at (CommandAuthorization_issue L network human certificate role permission target constraints from_time until_time nonce key) = until_time"
  "ca_nonce (CommandAuthorization_issue L network human certificate role permission target constraints from_time until_time nonce key) = nonce"
  by (simp_all add: CommandAuthorization_issue_def Let_def)

lemma CommandAuthorization_issue_signature:
  "ed25519_correct L \<Longrightarrow> HumanPublicKey_verify L (ed_public L key)
     (CommandAuthorization_signing_bytes L (CommandAuthorization_issue L network human certificate role permission target constraints from_time until_time nonce key))
     (ca_signature (CommandAuthorization_issue L network human certificate role permission target constraints from_time until_time nonce key))"
  by (simp add: CommandAuthorization_issue_def CommandAuthorization_signing_bytes_def
      CommandAuthorization_payload_def key_defs Let_def)

text \<open>What an accepted artifact says about its signatures.\<close>

lemma MembershipCertificate_verifyD:
  "MembershipCertificate_verify L c authority \<Longrightarrow>
   key_verify L (na_authority_public_key authority) (bincode L (MembershipCertificate_payload L c)) (mc_authority_signature c)"
  by (simp add: MembershipCertificate_verify_def MembershipCertificate_signing_bytes_def key_defs)

lemma HumanMembershipCertificate_verifyD:
  "HumanMembershipCertificate_verify L c authority now \<Longrightarrow>
   key_verify L (na_authority_public_key authority) (bincode L (HumanMembershipCertificate_payload L c)) (hmc_authority_signature c)"
  by (simp add: HumanMembershipCertificate_verify_def HumanMembershipCertificate_signing_bytes_def key_defs)

lemma RevocationRecord_verifyD:
  "RevocationRecord_verify L c authority \<Longrightarrow>
   key_verify L (na_authority_public_key authority) (bincode L (RevocationRecord_payload L c)) (rr_authority_signature c)"
  by (simp add: RevocationRecord_verify_def RevocationRecord_signing_bytes_def key_defs)

lemma PeerRecord_verifyD:
  "PeerRecord_verify L r \<Longrightarrow>
   key_verify L (pr_sister_public_key r) (bincode L (PeerRecord_payload L r)) (pr_sister_signature r)"
  unfolding PeerRecord_verify_def PeerRecord_signing_bytes_def key_defs by blast

lemma CommandAuthorization_verifyD:
  "CommandAuthorization_verify L a authority now \<Longrightarrow>
   key_verify L (hi_public_key (ca_issuer a)) (bincode L (CommandAuthorization_payload L a)) (ca_signature a)"
  "CommandAuthorization_verify L a authority now \<Longrightarrow> HumanMembershipCertificate_verify L (ca_membership a) authority now"
  "CommandAuthorization_verify L a authority now \<Longrightarrow> ca_issuer a = hmc_human (ca_membership a)"
  by (simp_all add: CommandAuthorization_verify_def CommandAuthorization_signing_bytes_def key_defs)

text \<open>An accepted certificate, locator or revocation record cannot be altered under its signature.\<close>

lemma MembershipCertificate_tamper:
  assumes "bincode_injective L" "uuid_injective L"
    and "MembershipCertificate_verify L c authority" "MembershipCertificate_verify L c' authority"
    and "mc_authority_signature c = mc_authority_signature c'" "c \<noteq> c'"
  shows "signature_collision L (na_authority_public_key authority) (mc_authority_signature c)"
  using assms(1, 2) MembershipCertificate_verifyD [OF assms(3)] MembershipCertificate_verifyD [OF assms(4)] assms(5, 6)
  by (rule membership.tamper)

lemma RevocationRecord_tamper:
  assumes "bincode_injective L" "uuid_injective L"
    and "RevocationRecord_verify L r authority" "RevocationRecord_verify L r' authority"
    and "rr_authority_signature r = rr_authority_signature r'" "r \<noteq> r'"
  shows "signature_collision L (na_authority_public_key authority) (rr_authority_signature r)"
  using assms(1, 2) RevocationRecord_verifyD [OF assms(3)] RevocationRecord_verifyD [OF assms(4)] assms(5, 6)
  by (rule revocation.tamper)

lemma HumanMembershipCertificate_tamper:
  assumes "bincode_injective L" "uuid_injective L"
    and "HumanMembershipCertificate_verify L c authority now" "HumanMembershipCertificate_verify L c' authority now'"
    and "hmc_authority_signature c = hmc_authority_signature c'" "c \<noteq> c'"
  shows "signature_collision L (na_authority_public_key authority) (hmc_authority_signature c)"
  using assms(1, 2) HumanMembershipCertificate_verifyD [OF assms(3)] HumanMembershipCertificate_verifyD [OF assms(4)] assms(5, 6)
  by (rule human_membership.tamper)

text \<open>A command authorization that a human issues with a certificate granted by the network
  authority is accepted at time \<open>now\<close> exactly when it is meant to be: the time lies in the window of
  the authorization and of the certificate, the role the authority granted is the role claimed, and
  that role includes the permission.\<close>

theorem CommandAuthorization_issue_verify:
  assumes "ed25519_correct L"
    and "human = \<lparr>hi_id = hid, hi_display_name = name, hi_public_key = HumanKeyPair_public_key L human_key\<rparr>"
    and "authority = authority_of L network authority_key"
    and "certificate = HumanMembershipCertificate_issue L authority authority_key human granted issued expires serial"
  shows "CommandAuthorization_verify L
      (CommandAuthorization_issue L network human certificate role permission target constraints
         from_time until_time nonce human_key) authority now
    \<longleftrightarrow> from_time \<le> now \<and> now \<le> until_time \<and> issued \<le> now
        \<and> (case expires of None \<Rightarrow> True | Some e \<Rightarrow> now \<le> e)
        \<and> role = granted \<and> Role_allows granted permission"
proof -
  have "HumanMembershipCertificate_verify L certificate authority now
      \<longleftrightarrow> issued \<le> now \<and> (case expires of None \<Rightarrow> True | Some e \<Rightarrow> now \<le> e)"
    unfolding assms(4) by (rule HumanMembershipCertificate_issue_verify) (use assms in simp_all)
  moreover have "hmc_network_id certificate = network" "hmc_role certificate = granted" "hmc_human certificate = human"
    using assms(3, 4) by (simp_all add: HumanMembershipCertificate_issue_def Let_def)
  moreover have "hi_public_key human = ed_public L human_key" using assms(2) by (simp add: key_defs)
  ultimately show ?thesis
    using CommandAuthorization_issue_signature [OF assms(1)] assms(3)
    by (auto simp: CommandAuthorization_verify_def)
qed

theorem CommandAuthorization_issue_verify_witness:
  "CommandAuthorization_verify lib0
      (CommandAuthorization_issue lib0 7 \<lparr>hi_id = 1, hi_display_name = ''op'', hi_public_key = HumanKeyPair_public_key lib0 5\<rparr>
         (HumanMembershipCertificate_issue lib0 (authority_of lib0 7 9) 9
            \<lparr>hi_id = 1, hi_display_name = ''op'', hi_public_key = HumanKeyPair_public_key lib0 5\<rparr> Operator 10 (Some 100) 1)
         Operator JobSubmit None [] 20 30 3 5) (authority_of lib0 7 9) 25"
  by (subst CommandAuthorization_issue_verify [OF lib0_ed25519 refl refl refl]) (simp add: Role_allows_def)

text \<open>C27: An accepted authorization cannot be altered. If two different authorizations are both
  accepted for one authority and the second reuses the human's and the authority's signatures of
  the first, then one of the two keys has a signature that is valid for two different messages.
  This covers every field: the permission, the target, the constraints, the expiry, the role and
  the human in the embedded certificate.\<close>

theorem CommandAuthorization_tamper:
  assumes "bincode_injective L" "uuid_injective L"
    and "CommandAuthorization_verify L a authority now" "CommandAuthorization_verify L a' authority now'"
    and "ca_signature a' = ca_signature a"
    and "hmc_authority_signature (ca_membership a') = hmc_authority_signature (ca_membership a)"
    and "a' \<noteq> a"
  shows "signature_collision L (na_authority_public_key authority) (hmc_authority_signature (ca_membership a))
    \<or> signature_collision L (hi_public_key (ca_issuer a)) (ca_signature a)"
proof (cases "ca_membership a' = ca_membership a")
  case True
  with assms(3, 4) have "ca_issuer a' = ca_issuer a" by (simp add: CommandAuthorization_verifyD(3))
  with CommandAuthorization_verifyD(1) [OF assms(4)]
  have "key_verify L (hi_public_key (ca_issuer a)) (bincode L (CommandAuthorization_payload L a')) (ca_signature a')"
    by simp
  with CommandAuthorization_verifyD(1) [OF assms(3)] assms(5, 7)
  show ?thesis using authorization.tamper [OF assms(1, 2)] by metis
next
  case False
  with HumanMembershipCertificate_tamper [OF assms(1, 2) CommandAuthorization_verifyD(2) [OF assms(3)]
      CommandAuthorization_verifyD(2) [OF assms(4)]] assms(6)
  show ?thesis by simp
qed

theorem CommandAuthorization_tamper_witness:
  "\<exists>a a'. a' \<noteq> a \<and> CommandAuthorization_verify lib0 a (authority_of lib0 7 9) 25
     \<and> CommandAuthorization_verify lib0 a' (authority_of lib0 7 9) 25
     \<and> (signature_collision lib0 9 (ucast (9 :: arr32)) \<or> signature_collision lib0 5 (ucast (5 :: arr32)))"
proof -
  define h where "h = \<lparr>hi_id = 1, hi_display_name = ''op'', hi_public_key = (5 :: arr32)\<rparr>"
  define c where "c = \<lparr>hmc_network_id = 7, hmc_human = h, hmc_role = Operator, hmc_issued_at = 10,
    hmc_expires_at = None, hmc_serial = 1, hmc_authority_signature = 9\<rparr>"
  define a where "a = \<lparr>ca_network_id = 7, ca_issuer = h, ca_membership = c, ca_role = Operator,
    ca_permission = JobSubmit, ca_target = None, ca_constraints = [], ca_issued_at = 20,
    ca_expires_at = 30, ca_nonce = 3, ca_signature = 5\<rparr>"
  have sig: "ucast (9 :: arr32) = (9 :: arr64)" "ucast (5 :: arr32) = (5 :: arr64)" by simp_all
  have v: "CommandAuthorization_verify lib0 a (authority_of lib0 7 9) 25"
    "CommandAuthorization_verify lib0 (a\<lparr>ca_permission := ShellOpen\<rparr>) (authority_of lib0 7 9) 25"
    by (simp_all add: a_def c_def h_def CommandAuthorization_verify_def HumanMembershipCertificate_verify_def
        Role_allows_def key_defs sig)
  have "signature_collision lib0 9 (ucast (9 :: arr32)) \<or> signature_collision lib0 5 (ucast (5 :: arr32))"
    using CommandAuthorization_tamper [OF lib0_bincode lib0_uuid v] by (simp add: a_def c_def h_def sig)
  moreover have "a\<lparr>ca_permission := ShellOpen\<rparr> \<noteq> a" by (simp add: a_def)
  ultimately show ?thesis using v by blast
qed

text \<open>A revocation record cannot be reinterpreted: a record that the authority accepts and that
  differs from an accepted record in its membership kind only (or in any other field) needs a
  signature of the authority that is valid for two different messages.\<close>

theorem RevocationRecord_kind_separation:
  assumes "bincode_injective L" "uuid_injective L"
    and "RevocationRecord_verify L r authority" "rr_membership_kind r \<noteq> kind"
    and "RevocationRecord_verify L (r\<lparr>rr_membership_kind := kind\<rparr>) authority"
  shows "signature_collision L (na_authority_public_key authority) (rr_authority_signature r)"
proof (rule RevocationRecord_tamper [OF assms(1, 2, 3, 5)])
  show "r \<noteq> r\<lparr>rr_membership_kind := kind\<rparr>"
    using assms(4) by (metis RevocationRecord.select_convs(2) RevocationRecord.surjective RevocationRecord.update_convs(2))
qed simp

theorem RevocationRecord_kind_separation_witness:
  "signature_collision lib0 9 (ucast (9 :: arr32))"
proof -
  have "signature_collision lib0 (na_authority_public_key (authority_of lib0 7 9))
     (rr_authority_signature (RevocationRecord_issue lib0 (authority_of lib0 7 9) 9 MembershipKind_Human 4 50 ''left''))"
    by (rule RevocationRecord_kind_separation [where kind = MembershipKind_Sister])
      (simp_all add: RevocationRecord_issue_verify, simp_all add: RevocationRecord_issue_def Let_def
        RevocationRecord_verify_def key_defs)
  then show ?thesis by (simp add: RevocationRecord_issue_def Let_def key_defs)
qed

text \<open>An invite issued by an authority for its own network verifies exactly in its time window
  and when everything it carries belongs to that network: each bootstrap record verifies, and an
  embedded membership is signed by the same authority and valid now.\<close>

theorem NetworkInvite_issue_verify:
  assumes "ed25519_correct L" "authority = authority_of L network key"
  shows "NetworkInvite_verify L (NetworkInvite_issue L authority key records issued expires iid membership) now
    \<longleftrightarrow> issued \<le> now \<and> now \<le> expires
      \<and> list_all (\<lambda>r. pr_network_id r = network \<and> PeerRecord_verify L r) records
      \<and> (case membership of None \<Rightarrow> True | Some m \<Rightarrow>
           MembershipCertificate_verify L m authority \<and> MembershipCertificate_is_valid_at m now)"
proof -
  let ?i = "NetworkInvite_issue L authority key records issued expires iid membership"
  have sel: "ni_network_id ?i = network" "ni_authority ?i = authority" "ni_bootstrap_records ?i = records"
      "ni_issued_at ?i = issued" "ni_expires_at ?i = expires" "ni_membership ?i = membership"
    using assms(2) by (simp_all add: NetworkInvite_issue_def Let_def)
  have sign: "AuthorityPublicKey_verify L (ed_public L key) (NetworkInvite_signing_bytes L ?i) (ni_authority_signature ?i)"
    using assms(1) by (simp add: NetworkInvite_issue_def Let_def NetworkInvite_signing_bytes_def
        NetworkInvite_payload_def key_defs)
  show ?thesis
    unfolding NetworkInvite_verify_def sel using assms(2) sign
    by (auto simp: MembershipCertificate_verify_def split: option.splits)
qed

theorem NetworkInvite_issue_verify_witness:
  "NetworkInvite_verify lib0 (NetworkInvite_issue lib0 (authority_of lib0 7 9) 9
     [PeerRecord_issue lib0 7 2 ''addr'' (TransportBinding_sign lib0 7 2 11 1 5) 40 5] 10 60 3
     (Some (MembershipCertificate_issue lib0 (authority_of lib0 7 9) 9 5 2 10 None 1))) 50"
  by (subst NetworkInvite_issue_verify [OF lib0_ed25519 refl])
    (simp add: PeerRecord_issue_verify TransportBinding_sign_verify MembershipCertificate_issue_verify
      MembershipCertificate_is_valid_at_def)

section \<open>Sample artifacts\<close>

text \<open>One network, one member and its locator, for evaluating the components on an example.\<close>

definition sample_authority :: NetworkAuthority where
  "sample_authority = authority_of lib0 7 9"

definition sample_membership :: MembershipCertificate where
  "sample_membership = MembershipCertificate_issue lib0 sample_authority 9 5 2 10 None 1"

definition sample_record :: PeerRecord where
  "sample_record = PeerRecord_issue lib0 7 2 ''iroh://a'' (TransportBinding_sign lib0 7 2 11 1 5) 40 5"

lemma sample_facts:
  "na_network_id sample_authority = 7" "na_authority_public_key sample_authority = 9"
  "MembershipCertificate_verify lib0 sample_membership sample_authority"
  "10 \<le> t \<Longrightarrow> MembershipCertificate_is_valid_at sample_membership t"
  "mc_sister_id sample_membership = 2" "mc_sister_public_key sample_membership = 5" "mc_serial sample_membership = 1"
  "mc_network_id sample_membership = 7"
  "PeerRecord_verify lib0 sample_record" "pr_network_id sample_record = 7" "pr_sister_id sample_record = 2"
  "pr_sister_public_key sample_record = 5" "pr_sequence sample_record = 1" "pr_endpoint_addr sample_record = ''iroh://a''"
  by (simp_all add: sample_authority_def sample_membership_def sample_record_def MembershipCertificate_issue_verify
      MembershipCertificate_is_valid_at_def PeerRecord_issue_verify TransportBinding_sign_verify key_defs)

end
