(* ===== verification/Misaka_Base64.thy ===== *)
theory Misaka_Base64
  imports Misaka_Prelude
begin

text \<open>
  The unpadded URL-safe base64 codec at the end of \<^verbatim>\<open>misaka-core/src/enrollment.rs\<close>, on the
  machine integers the code uses: \<open>base64url_encode\<close> works on chunks of three bytes,
  \<open>base64url_decode\<close> is a loop with a 32-bit accumulator. The codec is a bijection between byte
  strings and the accepted texts.
\<close>

definition BASE64URL_ALPHABET :: string where
  "BASE64URL_ALPHABET = ''ABCDEFGHIJKLMNOPQRSTUVWXYZabcdefghijklmnopqrstuvwxyz0123456789-_''"

definition b64_char :: "u32 \<Rightarrow> char" where
  "b64_char i = BASE64URL_ALPHABET ! unat (i AND 0x3f)"

definition get_or0 :: "bytes \<Rightarrow> nat \<Rightarrow> u32" where
  "get_or0 chunk i = (if i < length chunk then ucast (chunk ! i) else 0)"

definition b64_group :: "bytes \<Rightarrow> u32" where
  "b64_group chunk = push_bit 16 (get_or0 chunk 0) OR push_bit 8 (get_or0 chunk 1) OR get_or0 chunk 2"

definition b64_chunk :: "bytes \<Rightarrow> string" where
  "b64_chunk chunk =
     (let group = b64_group chunk
      in [b64_char (drop_bit 18 group), b64_char (drop_bit 12 group)]
         @ (if 1 < length chunk then [b64_char (drop_bit 6 group)] else [])
         @ (if 2 < length chunk then [b64_char group] else []))"

definition base64url_encode :: "bytes \<Rightarrow> string" where
  "base64url_encode input = concat (map b64_chunk (chunks 3 input))"

definition b64_value :: "u8 \<Rightarrow> u8 option" where
  "b64_value character =
     (if 65 \<le> character \<and> character \<le> 90 then Some (character - 65)
      else if 97 \<le> character \<and> character \<le> 122 then Some (character - 97 + 26)
      else if 48 \<le> character \<and> character \<le> 57 then Some (character - 48 + 52)
      else if character = 45 then Some 62
      else if character = 95 then Some 63
      else None)"

fun b64_loop :: "bytes \<Rightarrow> u32 \<Rightarrow> u32 \<Rightarrow> bytes \<Rightarrow> (u32 \<times> bytes) option" where
  "b64_loop [] accumulator bits output = Some (accumulator, output)"
| "b64_loop (character # rest) accumulator bits output =
     (case b64_value character of
        None \<Rightarrow> None
      | Some value \<Rightarrow>
          let accumulator = push_bit 6 accumulator OR ucast value; bits = bits + 6
          in if 8 \<le> bits
             then let bits = bits - 8
                  in b64_loop rest (accumulator AND (push_bit (unat bits) 1 - 1)) bits
                       (output @ [ucast (drop_bit (unat bits) accumulator)])
             else b64_loop rest accumulator bits output)"

definition base64url_decode :: "string \<Rightarrow> bytes option" where
  "base64url_decode input =
     (if length input mod 4 = 1 then None
      else case b64_loop (str_bytes input) 0 0 [] of
             None \<Rightarrow> None
           | Some (accumulator, output) \<Rightarrow> if accumulator \<noteq> 0 then None else Some output)"

section \<open>The alphabet\<close>

lemma alphabet_values:
  "list_all (\<lambda>i. b64_value (of_char (BASE64URL_ALPHABET ! i)) = Some (of_nat i)) [0..<64]"
  unfolding BASE64URL_ALPHABET_def b64_value_def by code_simp

definition b64_codes :: "nat list" where
  "b64_codes = [65..<91] @ [97..<123] @ [48..<58] @ [45, 95]"

lemma b64_value_table:
  "list_all (\<lambda>c. case b64_value (of_nat c) of None \<Rightarrow> True
     | Some v \<Rightarrow> v < 64 \<and> of_char (BASE64URL_ALPHABET ! unat v) = (of_nat c :: u8)) b64_codes"
  unfolding BASE64URL_ALPHABET_def b64_value_def b64_codes_def by code_simp

lemma b64_value_codes: "b64_value c = Some v \<Longrightarrow> unat c \<in> set b64_codes"
  by (auto simp: b64_value_def b64_codes_def word_le_nat_alt simp del: upt_rec_numeral split: if_splits)

lemma b64_valueD:
  assumes "b64_value c = Some v"
  shows "v < 64 \<and> of_char (BASE64URL_ALPHABET ! unat v) = c"
proof -
  have "case b64_value (of_nat (unat c)) of None \<Rightarrow> True
     | Some v \<Rightarrow> v < 64 \<and> of_char (BASE64URL_ALPHABET ! unat v) = (of_nat (unat c) :: u8)"
    using b64_value_table b64_value_codes [OF assms] unfolding list_all_iff by blast
  with assms show ?thesis by simp
qed

lemma and_0x3f: "i AND 0x3f = take_bit 6 i" for i :: "'a::len word"
  by (simp add: take_bit_eq_mask mask_eq_exp_minus_1)

lemma b64_value_char: "b64_value (of_char (b64_char i)) = Some (ucast (take_bit 6 i))"
proof -
  have "unat (take_bit 6 i) < 64"
    using take_bit_nat_less_exp [of 6 "unat i"] by (simp add: unsigned_take_bit_eq)
  then have "b64_value (of_char (b64_char i)) = Some (of_nat (unat (take_bit 6 i)))"
    using alphabet_values unfolding b64_char_def list_all_iff and_0x3f by simp
  then show ?thesis by simp
qed

lemma b64_char_value:
  "b64_value (of_char c) = Some v \<Longrightarrow> take_bit 6 i = (ucast v :: u32) \<Longrightarrow> b64_char i = c"
proof -
  assume v: "b64_value (of_char c) = Some v" and i: "take_bit 6 i = (ucast v :: u32)"
  have "unat v < 2 ^ 32" using unat_lt_exp [of v] by simp
  with i have "unat (i AND 0x3f) = unat v"
    by (simp add: and_0x3f unsigned_ucast_eq take_bit_nat_eq_self_iff)
  with b64_valueD [OF v] show ?thesis by (simp add: b64_char_def)
qed

section \<open>One block of the decoder\<close>

lemma b64_loop_4:
  assumes "b64_value c0 = Some v0" "b64_value c1 = Some v1" "b64_value c2 = Some v2" "b64_value c3 = Some v3"
  defines "a1 \<equiv> push_bit 6 (ucast v0) OR ucast v1 :: u32"
    and "a2 \<equiv> push_bit 6 ((push_bit 6 (ucast v0) OR ucast v1) AND 15) OR ucast v2 :: u32"
    and "a3 \<equiv> push_bit 6 ((push_bit 6 ((push_bit 6 (ucast v0) OR ucast v1) AND 15) OR ucast v2) AND 3) OR ucast v3 :: u32"
  shows "b64_loop (c0 # c1 # c2 # c3 # cs) 0 0 out
    = b64_loop cs 0 0 (out @ [ucast (drop_bit 4 a1), ucast (drop_bit 2 a2), ucast a3])"
  using assms by (simp add: Let_def)

lemma b64_loop_3:
  assumes "b64_value c0 = Some v0" "b64_value c1 = Some v1" "b64_value c2 = Some v2"
  shows "b64_loop [c0, c1, c2] 0 0 out
    = Some ((push_bit 6 ((push_bit 6 (ucast v0) OR ucast v1) AND 15) OR ucast v2) AND 3,
        out @ [ucast (drop_bit 4 (push_bit 6 (ucast v0) OR ucast v1 :: u32)),
          ucast (drop_bit 2 (push_bit 6 ((push_bit 6 (ucast v0) OR ucast v1) AND 15) OR ucast v2 :: u32))])"
  using assms by (simp add: Let_def)

lemma b64_loop_2:
  assumes "b64_value c0 = Some v0" "b64_value c1 = Some v1"
  shows "b64_loop [c0, c1] 0 0 out
    = Some ((push_bit 6 (ucast v0) OR ucast v1) AND 15,
        out @ [ucast (drop_bit 4 (push_bit 6 (ucast v0) OR ucast v1 :: u32))])"
  using assms by (simp add: Let_def)

section \<open>Bytes and sextets\<close>

lemma byte_eqI:
  fixes a b :: u8
  assumes "bit a 0 = bit b 0" "bit a 1 = bit b 1" "bit a 2 = bit b 2" "bit a 3 = bit b 3"
    "bit a 4 = bit b 4" "bit a 5 = bit b 5" "bit a 6 = bit b 6" "bit a 7 = bit b 7"
  shows "a = b"
proof (rule bit_word_eqI)
  fix n assume "n < LENGTH(8)"
  then have "n \<in> {0, 1, 2, 3, 4, 5, 6, 7}" by auto
  with assms show "bit a n = bit b n" by blast
qed

lemma byte_high [simp]: "8 \<le> n \<Longrightarrow> \<not> bit (w :: u8) n"
  using bit_imp_le_length [of w n] by auto

lemma sextets_of_bytes:
  fixes b0 b1 b2 :: u8
  defines "g \<equiv> push_bit 16 (ucast b0) OR push_bit 8 (ucast b1) OR ucast b2 :: u32"
  defines "v0 \<equiv> ucast (take_bit 6 (drop_bit 18 g)) :: u8" and "v1 \<equiv> ucast (take_bit 6 (drop_bit 12 g)) :: u8"
    and "v2 \<equiv> ucast (take_bit 6 (drop_bit 6 g)) :: u8" and "v3 \<equiv> ucast (take_bit 6 g) :: u8"
  shows "ucast (drop_bit 4 (push_bit 6 (ucast v0) OR ucast v1 :: u32)) = b0"
    and "ucast (drop_bit 2 (push_bit 6 ((push_bit 6 (ucast v0) OR ucast v1) AND 15) OR ucast v2 :: u32)) = b1"
    and "ucast (push_bit 6 ((push_bit 6 ((push_bit 6 (ucast v0) OR ucast v1) AND 15) OR ucast v2) AND 3) OR ucast v3 :: u32) = b2"
  subgoal by (rule byte_eqI) (simp_all add: v0_def v1_def g_def bit_simps)
  subgoal by (rule byte_eqI) (simp_all add: v0_def v1_def v2_def g_def bit_simps)
  subgoal by (rule byte_eqI) (simp_all add: v0_def v1_def v2_def v3_def g_def bit_simps)
  done

lemma sextet_high: "v < 64 \<Longrightarrow> 6 \<le> n \<Longrightarrow> \<not> bit (v :: u8) n"
proof -
  assume "v < 64" "6 \<le> n"
  then have "take_bit 6 v = v" by (simp add: word_unat_eq_iff unsigned_take_bit_eq take_bit_nat_eq_self_iff word_less_nat_alt)
  then show ?thesis using \<open>6 \<le> n\<close> by (metis bit_take_bit_iff linorder_not_less)
qed

lemma sextet_eqI:
  fixes i :: u32 and v :: u8
  assumes "v < 64" "bit i 0 = bit v 0" "bit i 1 = bit v 1" "bit i 2 = bit v 2" "bit i 3 = bit v 3"
    "bit i 4 = bit v 4" "bit i 5 = bit v 5"
  shows "take_bit 6 i = ucast v"
proof (rule bit_word_eqI)
  fix n assume n: "n < LENGTH(32)"
  show "bit (take_bit 6 i) n = bit (ucast v :: u32) n"
  proof (cases "n < 6")
    case True
    then have "n \<in> {0, 1, 2, 3, 4, 5}" by auto
    with assms True n show ?thesis by (auto simp: bit_simps)
  next
    case False
    with sextet_high [OF assms(1), of n] show ?thesis by (simp add: bit_simps)
  qed
qed

lemma bytes_of_sextets:
  fixes v0 v1 v2 v3 :: u8
  assumes "v0 < 64" "v1 < 64" "v2 < 64" "v3 < 64"
  defines "b0 \<equiv> ucast (drop_bit 4 (push_bit 6 (ucast v0) OR ucast v1 :: u32)) :: u8"
    and "b1 \<equiv> ucast (drop_bit 2 (push_bit 6 ((push_bit 6 (ucast v0) OR ucast v1) AND 15) OR ucast v2 :: u32)) :: u8"
    and "b2 \<equiv> ucast (push_bit 6 ((push_bit 6 ((push_bit 6 (ucast v0) OR ucast v1) AND 15) OR ucast v2) AND 3) OR ucast v3 :: u32) :: u8"
  defines "g \<equiv> push_bit 16 (ucast b0) OR push_bit 8 (ucast b1) OR ucast b2 :: u32"
  shows "take_bit 6 (drop_bit 18 g) = ucast v0" and "take_bit 6 (drop_bit 12 g) = ucast v1"
    and "take_bit 6 (drop_bit 6 g) = ucast v2" and "take_bit 6 g = ucast v3"
proof -
  note high = sextet_high [OF assms(1)] sextet_high [OF assms(2)] sextet_high [OF assms(3)] sextet_high [OF assms(4)]
  note defs = b0_def b1_def b2_def g_def
  show "take_bit 6 (drop_bit 18 g) = ucast v0"
    by (rule sextet_eqI [OF assms(1)]) (simp_all add: defs bit_simps high)
  show "take_bit 6 (drop_bit 12 g) = ucast v1"
    by (rule sextet_eqI [OF assms(2)]) (simp_all add: defs bit_simps high)
  show "take_bit 6 (drop_bit 6 g) = ucast v2"
    by (rule sextet_eqI [OF assms(3)]) (simp_all add: defs bit_simps high)
  show "take_bit 6 g = ucast v3"
    by (rule sextet_eqI [OF assms(4)]) (simp_all add: defs bit_simps high)
qed

text \<open>The bits a partial last block leaves in the accumulator\<close>

lemma and_15_eq_0: "x AND 15 = 0 \<longleftrightarrow> \<not> bit x 0 \<and> \<not> bit x 1 \<and> \<not> bit x 2 \<and> \<not> bit x 3" for x :: u32
proof
  assume "x AND 15 = 0"
  then have "\<not> bit (x AND 15) 0" "\<not> bit (x AND 15) 1" "\<not> bit (x AND 15) 2" "\<not> bit (x AND 15) 3" by simp_all
  then show "\<not> bit x 0 \<and> \<not> bit x 1 \<and> \<not> bit x 2 \<and> \<not> bit x 3" unfolding bit_and_iff by simp
next
  assume *: "\<not> bit x 0 \<and> \<not> bit x 1 \<and> \<not> bit x 2 \<and> \<not> bit x 3"
  have "(15 :: u32) = mask 4" by (simp add: mask_eq_exp_minus_1)
  show "x AND 15 = 0"
    unfolding \<open>15 = mask 4\<close>
  proof (rule bit_word_eqI)
    fix n :: nat
    have "n < 4 \<Longrightarrow> n \<in> {0, 1, 2, 3}" by auto
    with * show "bit (x AND mask 4) n = bit 0 n" by (auto simp: bit_simps)
  qed
qed

lemma and_3_eq_0: "x AND 3 = 0 \<longleftrightarrow> \<not> bit x 0 \<and> \<not> bit x 1" for x :: u32
proof
  assume "x AND 3 = 0"
  then have "\<not> bit (x AND 3) 0" "\<not> bit (x AND 3) 1" by simp_all
  then show "\<not> bit x 0 \<and> \<not> bit x 1" unfolding bit_and_iff by simp
next
  assume *: "\<not> bit x 0 \<and> \<not> bit x 1"
  have "(3 :: u32) = mask 2" by (simp add: mask_eq_exp_minus_1)
  show "x AND 3 = 0"
    unfolding \<open>3 = mask 2\<close>
  proof (rule bit_word_eqI)
    fix n :: nat
    have "n < 2 \<Longrightarrow> n \<in> {0, 1}" by auto
    with * show "bit (x AND mask 2) n = bit 0 n" by (auto simp: bit_simps)
  qed
qed

section \<open>The codec is a bijection\<close>

lemma base64url_encode_simps:
  "base64url_encode [] = []"
  "base64url_encode [b0] = b64_chunk [b0]"
  "base64url_encode [b0, b1] = b64_chunk [b0, b1]"
  "base64url_encode (b0 # b1 # b2 # bs) = b64_chunk [b0, b1, b2] @ base64url_encode bs"
  by (simp_all add: base64url_encode_def chunks_step)

lemma b64_group_simps:
  "b64_group [b0] = push_bit 16 (ucast b0) OR push_bit 8 (ucast (0 :: u8)) OR ucast (0 :: u8)"
  "b64_group [b0, b1] = push_bit 16 (ucast b0) OR push_bit 8 (ucast b1) OR ucast (0 :: u8)"
  "b64_group [b0, b1, b2] = push_bit 16 (ucast b0) OR push_bit 8 (ucast b1) OR ucast b2"
  by (simp_all add: b64_group_def get_or0_def)

lemma list_3_cases:
  obtains "xs = []" | a where "xs = [a]" | a b where "xs = [a, b]" | a b c r where "xs = a # b # c # r"
  by (metis list.exhaust)

lemma list_4_cases:
  obtains "xs = []" | a where "xs = [a]" | a b where "xs = [a, b]" | a b c where "xs = [a, b, c]"
    | a b c d r where "xs = a # b # c # d # r"
  by (metis list.exhaust)

lemma base64url_encode_length: "length (base64url_encode bs) mod 4 \<noteq> 1"
proof (induction "length bs" arbitrary: bs rule: less_induct)
  case less
  show ?case
    by (cases bs rule: list_3_cases) (use less in \<open>simp_all add: base64url_encode_simps b64_chunk_def Let_def\<close>)
qed

lemma b64_loop_chunk_1: "b64_loop (str_bytes (b64_chunk [b0])) 0 0 out = Some (0, out @ [b0])"
proof -
  define g where "g = b64_group [b0]"
  have "str_bytes (b64_chunk [b0]) = [of_char (b64_char (drop_bit 18 g)), of_char (b64_char (drop_bit 12 g))]"
    by (simp add: str_bytes_def b64_chunk_def Let_def g_def)
  moreover have "(push_bit 6 (ucast (ucast (take_bit 6 (drop_bit 18 g)) :: u8))
      OR ucast (ucast (take_bit 6 (drop_bit 12 g)) :: u8)) AND 15 = (0 :: u32)"
    unfolding and_15_eq_0 g_def b64_group_simps by (simp add: bit_simps)
  moreover note sextets_of_bytes(1) [of b0 0 0, folded b64_group_simps(1), folded g_def]
  ultimately show ?thesis by (simp only: b64_loop_2 [OF b64_value_char b64_value_char])
qed

lemma b64_loop_chunk_2: "b64_loop (str_bytes (b64_chunk [b0, b1])) 0 0 out = Some (0, out @ [b0, b1])"
proof -
  define g where "g = b64_group [b0, b1]"
  have "str_bytes (b64_chunk [b0, b1]) = [of_char (b64_char (drop_bit 18 g)),
      of_char (b64_char (drop_bit 12 g)), of_char (b64_char (drop_bit 6 g))]"
    by (simp add: str_bytes_def b64_chunk_def Let_def g_def)
  moreover have "(push_bit 6 ((push_bit 6 (ucast (ucast (take_bit 6 (drop_bit 18 g)) :: u8))
      OR ucast (ucast (take_bit 6 (drop_bit 12 g)) :: u8)) AND 15)
      OR ucast (ucast (take_bit 6 (drop_bit 6 g)) :: u8)) AND 3 = (0 :: u32)"
    unfolding and_3_eq_0 g_def b64_group_simps by (simp add: bit_simps)
  moreover note sextets_of_bytes(1, 2) [of b0 b1 0, folded b64_group_simps(2), folded g_def]
  ultimately show ?thesis by (simp only: b64_loop_3 [OF b64_value_char b64_value_char b64_value_char])
qed

lemma b64_loop_chunk_3:
  "b64_loop (str_bytes (b64_chunk [b0, b1, b2] @ s)) 0 0 out = b64_loop (str_bytes s) 0 0 (out @ [b0, b1, b2])"
proof -
  define g where "g = b64_group [b0, b1, b2]"
  have "str_bytes (b64_chunk [b0, b1, b2] @ s) = of_char (b64_char (drop_bit 18 g))
      # of_char (b64_char (drop_bit 12 g)) # of_char (b64_char (drop_bit 6 g)) # of_char (b64_char g) # str_bytes s"
    by (simp add: str_bytes_def b64_chunk_def Let_def g_def)
  moreover note sextets_of_bytes [of b0 b1 b2, folded b64_group_simps(3), folded g_def]
  ultimately show ?thesis
    by (simp only: b64_loop_4 [OF b64_value_char b64_value_char b64_value_char b64_value_char])
qed

lemma b64_loop_encode: "b64_loop (str_bytes (base64url_encode bs)) 0 0 out = Some (0, out @ bs)"
proof (induction "length bs" arbitrary: bs out rule: less_induct)
  case less
  then show ?case
    by (cases bs rule: list_3_cases)
      (simp_all only: base64url_encode_simps b64_loop_chunk_1 b64_loop_chunk_2 b64_loop_chunk_3,
        simp_all add: str_bytes_def)
qed

lemma str_bytes_Cons: "str_bytes (c # s) = of_char c # str_bytes s"
  by (simp add: str_bytes_def)

lemma b64_loop_SomeD:
  "b64_loop (c # cs) acc bits out = Some r \<Longrightarrow> \<exists>v. b64_value c = Some v
     \<and> (\<exists>acc' bits' out'. b64_loop cs acc' bits' out' = Some r)"
  by (auto simp: Let_def split: option.splits if_splits)

lemma b64_chunk_3_of_values:
  assumes v: "b64_value (of_char c0) = Some v0" "b64_value (of_char c1) = Some v1"
    "b64_value (of_char c2) = Some v2" "b64_value (of_char c3) = Some v3"
  shows "\<exists>b0 b1 b2. b64_chunk [b0, b1, b2] = [c0, c1, c2, c3]
    \<and> b64_loop (str_bytes (c0 # c1 # c2 # c3 # s)) 0 0 out = b64_loop (str_bytes s) 0 0 (out @ [b0, b1, b2])"
proof -
  note lt = b64_valueD [OF v(1), THEN conjunct1] b64_valueD [OF v(2), THEN conjunct1]
    b64_valueD [OF v(3), THEN conjunct1] b64_valueD [OF v(4), THEN conjunct1]
  note c = bytes_of_sextets [OF lt, folded b64_group_simps(3)]
  show ?thesis
    unfolding str_bytes_Cons b64_loop_4 [OF v]
    by (intro exI conjI)
      (simp_all only: b64_chunk_def Let_def b64_char_value [OF v(1) c(1)] b64_char_value [OF v(2) c(2)]
        b64_char_value [OF v(3) c(3)] b64_char_value [OF v(4) c(4)], simp)
qed

lemma b64_chunk_2_of_values:
  assumes v: "b64_value (of_char c0) = Some v0" "b64_value (of_char c1) = Some v1"
    "b64_value (of_char c2) = Some v2"
    and r: "b64_loop (str_bytes [c0, c1, c2]) 0 0 out = Some (0, out')"
  shows "\<exists>b0 b1. b64_chunk [b0, b1] = [c0, c1, c2] \<and> out' = out @ [b0, b1]"
proof -
  note lt = b64_valueD [OF v(1), THEN conjunct1] b64_valueD [OF v(2), THEN conjunct1]
    b64_valueD [OF v(3), THEN conjunct1]
  let ?a = "push_bit 6 ((push_bit 6 (ucast v0) OR ucast v1) AND 15) OR ucast v2 :: u32"
  from r have zero: "?a AND 3 = 0" and out': "out' = out @
      [ucast (drop_bit 4 (push_bit 6 (ucast v0) OR ucast v1 :: u32)), ucast (drop_bit 2 ?a)]"
    by (auto simp only: str_bytes_Cons str_bytes_def list.map b64_loop_3 [OF v] option.inject prod.inject)
  have "(0 :: u8) < 64" by simp
  note c = bytes_of_sextets(1, 2, 3) [OF lt this, unfolded zero]
  have "ucast (push_bit 6 0 OR ucast (0 :: u8) :: u32) = (0 :: u8)" by simp
  note c' = c [unfolded this, folded b64_group_simps(2)]
  show ?thesis
    unfolding out'
    by (intro exI conjI)
      (simp_all only: b64_chunk_def Let_def b64_char_value [OF v(1) c'(1)] b64_char_value [OF v(2) c'(2)]
        b64_char_value [OF v(3) c'(3)], simp)
qed

lemma b64_chunk_1_of_values:
  assumes v: "b64_value (of_char c0) = Some v0" "b64_value (of_char c1) = Some v1"
    and r: "b64_loop (str_bytes [c0, c1]) 0 0 out = Some (0, out')"
  shows "\<exists>b0. b64_chunk [b0] = [c0, c1] \<and> out' = out @ [b0]"
proof -
  note lt = b64_valueD [OF v(1), THEN conjunct1] b64_valueD [OF v(2), THEN conjunct1]
  let ?a = "push_bit 6 (ucast v0) OR ucast v1 :: u32"
  from r have zero: "?a AND 15 = 0" and out': "out' = out @ [ucast (drop_bit 4 ?a)]"
    by (auto simp only: str_bytes_Cons str_bytes_def list.map b64_loop_2 [OF v] option.inject prod.inject)
  have "(0 :: u8) < 64" by simp
  note c = bytes_of_sextets(1, 2) [OF lt this this, unfolded zero]
  have "ucast (drop_bit 2 (push_bit 6 0 OR ucast (0 :: u8) :: u32)) = (0 :: u8)"
    "ucast (push_bit 6 ((push_bit 6 0 OR ucast (0 :: u8)) AND 3) OR ucast (0 :: u8) :: u32) = (0 :: u8)"
    by simp_all
  note c' = c [unfolded this, folded b64_group_simps(1)]
  show ?thesis
    unfolding out'
    by (intro exI conjI)
      (simp_all only: b64_chunk_def Let_def b64_char_value [OF v(1) c'(1)] b64_char_value [OF v(2) c'(2)], simp)
qed

lemma b64_loop_decode:
  "length s mod 4 \<noteq> 1 \<Longrightarrow> b64_loop (str_bytes s) 0 0 out = Some (0, out')
     \<Longrightarrow> \<exists>bs. out' = out @ bs \<and> base64url_encode bs = s"
proof (induction "length s" arbitrary: s out rule: less_induct)
  case less
  show ?case
  proof (cases s rule: list_4_cases)
    case 1
    then show ?thesis using less.prems by (simp add: str_bytes_def base64url_encode_simps)
  next
    case (3 c0 c1)
    with less.prems(2) obtain v0 v1 where "b64_value (of_char c0) = Some v0" "b64_value (of_char c1) = Some v1"
      by (auto simp: str_bytes_Cons simp del: b64_loop.simps dest!: b64_loop_SomeD)
    from b64_chunk_1_of_values [OF this] less.prems(2) 3 show ?thesis
      by (metis base64url_encode_simps(2))
  next
    case (4 c0 c1 c2)
    with less.prems(2) obtain v0 v1 v2 where "b64_value (of_char c0) = Some v0"
        "b64_value (of_char c1) = Some v1" "b64_value (of_char c2) = Some v2"
      by (auto simp: str_bytes_Cons simp del: b64_loop.simps dest!: b64_loop_SomeD)
    from b64_chunk_2_of_values [OF this] less.prems(2) 4 show ?thesis
      by (metis base64url_encode_simps(3))
  next
    case (5 c0 c1 c2 c3 r)
    with less.prems(2) obtain v0 v1 v2 v3 where v: "b64_value (of_char c0) = Some v0"
        "b64_value (of_char c1) = Some v1" "b64_value (of_char c2) = Some v2" "b64_value (of_char c3) = Some v3"
      by (auto simp: str_bytes_Cons simp del: b64_loop.simps dest!: b64_loop_SomeD)
    from b64_chunk_3_of_values [OF v, of r out] obtain b0 b1 b2 where
      chunk: "b64_chunk [b0, b1, b2] = [c0, c1, c2, c3]"
      and loop: "b64_loop (str_bytes s) 0 0 out = b64_loop (str_bytes r) 0 0 (out @ [b0, b1, b2])"
      using 5 by auto
    have "\<exists>bs. out' = (out @ [b0, b1, b2]) @ bs \<and> base64url_encode bs = r"
      by (rule less.hyps) (use 5 less.prems loop in simp_all)
    then obtain bs where "out' = out @ b0 # b1 # b2 # bs" "base64url_encode bs = r" by auto
    with chunk 5 show ?thesis
      by (intro exI [of _ "b0 # b1 # b2 # bs"]) (simp add: base64url_encode_simps)
  qed (use less.prems in simp)
qed

lemma base64url_round_trip [simp]: "base64url_decode (base64url_encode bs) = Some bs"
  using base64url_encode_length [of bs] b64_loop_encode [of bs "[]"] by (simp add: base64url_decode_def)

lemma base64url_canonical: "base64url_decode s = Some bs \<Longrightarrow> base64url_encode bs = s"
  using b64_loop_decode [of s "[]"] by (auto simp: base64url_decode_def split: if_splits option.splits)

lemma base64url_encode_inj [simp]: "base64url_encode a = base64url_encode b \<longleftrightarrow> a = b"
  by (metis base64url_round_trip option.inject)

text \<open>The URL-safe base64 codec of the invite codes is exact in both directions: decoding gives
  back every byte string from its encoding, and the only text that decodes to a byte string is its
  encoding. Wrong characters, an impossible length and non-zero padding bits are all refused, so an
  invite code has no second spelling.\<close>

theorem base64url_bijection: "base64url_decode s = Some bs \<longleftrightarrow> s = base64url_encode bs"
  using base64url_canonical by auto

text \<open>Every character of an encoding belongs to the alphabet.\<close>

lemma b64_char_graphic: "graphic (b64_char i)"
proof -
  have "list_all graphic BASE64URL_ALPHABET"
    unfolding BASE64URL_ALPHABET_def graphic_def by simp
  moreover have "unat (i AND 0x3f) < length BASE64URL_ALPHABET"
    using take_bit_nat_less_exp [of 6 "unat i"]
    by (simp add: and_0x3f unsigned_take_bit_eq BASE64URL_ALPHABET_def)
  ultimately show ?thesis by (simp add: b64_char_def list_all_length)
qed

lemma base64url_encode_graphic: "c \<in> set (base64url_encode bs) \<Longrightarrow> graphic c"
  by (auto simp: base64url_encode_def b64_chunk_def Let_def b64_char_graphic split: if_splits)

end
