(* ===== verification/Misaka_Enrollment.thy ===== *)
theory Misaka_Enrollment
  imports Misaka_Identity Misaka_Base64
begin

text \<open>
  \<^verbatim>\<open>misaka-core/src/enrollment.rs\<close>: the time-limited enrollment invite and its one-line code, the
  request, challenge and proof of the exchange that redeems it, and \<open>validate_received\<close>, the check
  a joining Sister makes before it installs anything. \<open>bincode::deserialize\<close> into an invite is the
  parameter \<open>de\<close> of \<open>decode_code\<close>.
\<close>

definition ENROLLMENT_VERSION :: u16 where
  "ENROLLMENT_VERSION = 1"

definition ENROLLMENT_PROTOCOL_VERSION :: u16 where
  "ENROLLMENT_PROTOCOL_VERSION = 1"

definition INVITE_CODE_PREFIX :: string where
  "INVITE_CODE_PREFIX = ''misaka1_''"

datatype InviteCodeError = UnsupportedPrefix | InvalidEncoding | InvalidPayload

record EnrollmentInvite =
  ei_version :: u16
  ei_network_id :: NetworkId
  ei_authority :: NetworkAuthority
  ei_issued_at :: u64
  ei_expires_at :: u64
  ei_invite_nonce :: arr32
  ei_locator :: PeerRecord
  ei_authority_signature :: AuthoritySignature

definition EnrollmentInvite_payload :: "lib \<Rightarrow> EnrollmentInvite \<Rightarrow> sval" where
  "EnrollmentInvite_payload L i =
     STup [SU16 (ei_version i), NetworkId_serialize L (ei_network_id i),
       NetworkAuthority_serialize L (ei_authority i), SU64 (ei_issued_at i), SU64 (ei_expires_at i),
       ser_key (ei_invite_nonce i), PeerRecord_serialize L (ei_locator i)]"

definition EnrollmentInvite_payload_ty :: sty where
  "EnrollmentInvite_payload_ty =
     TTup [TU16, TStr, NetworkAuthority_ty, TU64, TU64, arr_ty 32, PeerRecord_ty]"

definition EnrollmentInvite_serialize :: "lib \<Rightarrow> EnrollmentInvite \<Rightarrow> sval" where
  "EnrollmentInvite_serialize L i =
     STup [SU16 (ei_version i), NetworkId_serialize L (ei_network_id i),
       NetworkAuthority_serialize L (ei_authority i), SU64 (ei_issued_at i), SU64 (ei_expires_at i),
       ser_key (ei_invite_nonce i), PeerRecord_serialize L (ei_locator i),
       ser_signature (ei_authority_signature i)]"

definition EnrollmentInvite_signing_bytes :: "lib \<Rightarrow> EnrollmentInvite \<Rightarrow> bytes" where
  "EnrollmentInvite_signing_bytes L i = bincode L (EnrollmentInvite_payload L i)"

definition EnrollmentInvite_issue ::
    "lib \<Rightarrow> NetworkAuthority \<Rightarrow> AuthorityKeyPair \<Rightarrow> u64 \<Rightarrow> u64 \<Rightarrow> arr32 \<Rightarrow> PeerRecord \<Rightarrow> EnrollmentInvite" where
  "EnrollmentInvite_issue L authority authority_key issued_at expires_at invite_nonce locator =
     (let invite = \<lparr>ei_version = ENROLLMENT_VERSION, ei_network_id = na_network_id authority,
            ei_authority = authority, ei_issued_at = issued_at, ei_expires_at = expires_at,
            ei_invite_nonce = invite_nonce, ei_locator = locator, ei_authority_signature = 0\<rparr>
      in invite\<lparr>ei_authority_signature :=
           AuthorityKeyPair_sign L authority_key (EnrollmentInvite_signing_bytes L invite)\<rparr>)"

definition EnrollmentInvite_verify :: "lib \<Rightarrow> EnrollmentInvite \<Rightarrow> u64 \<Rightarrow> bool" where
  "EnrollmentInvite_verify L i now \<longleftrightarrow>
     ei_version i = ENROLLMENT_VERSION
     \<and> ei_network_id i = na_network_id (ei_authority i)
     \<and> ei_issued_at i \<le> ei_expires_at i
     \<and> ei_issued_at i \<le> now
     \<and> now \<le> ei_expires_at i
     \<and> AuthorityPublicKey_verify L (na_authority_public_key (ei_authority i))
         (EnrollmentInvite_signing_bytes L i) (ei_authority_signature i)
     \<and> pr_network_id (ei_locator i) = ei_network_id i
     \<and> PeerRecord_verify L (ei_locator i)"

definition EnrollmentInvite_is_expired :: "EnrollmentInvite \<Rightarrow> u64 \<Rightarrow> bool" where
  "EnrollmentInvite_is_expired i now \<longleftrightarrow> now > ei_expires_at i"

definition EnrollmentInvite_matches_network :: "EnrollmentInvite \<Rightarrow> NetworkId \<Rightarrow> bool" where
  "EnrollmentInvite_matches_network i network_id \<longleftrightarrow> ei_network_id i = network_id"

definition EnrollmentInvite_digest :: "lib \<Rightarrow> EnrollmentInvite \<Rightarrow> arr32" where
  "EnrollmentInvite_digest L i = sha256 L (EnrollmentInvite_signing_bytes L i)"

definition encode_code :: "lib \<Rightarrow> EnrollmentInvite \<Rightarrow> InviteCodeError + string" where
  "encode_code L i = Ok (INVITE_CODE_PREFIX @ base64url_encode (bincode L (EnrollmentInvite_serialize L i)))"

definition decode_code :: "(bytes \<Rightarrow> EnrollmentInvite option) \<Rightarrow> string \<Rightarrow> InviteCodeError + EnrollmentInvite" where
  "decode_code de code =
     (case strip_prefix INVITE_CODE_PREFIX (trim code) of
        None \<Rightarrow> Err UnsupportedPrefix
      | Some body \<Rightarrow>
          (case base64url_decode body of
             None \<Rightarrow> Err InvalidEncoding
           | Some payload \<Rightarrow>
               (case de payload of None \<Rightarrow> Err InvalidPayload | Some invite \<Rightarrow> Ok invite)))"

section \<open>The exchange\<close>

record EnrollmentRequest =
  erq_protocol_version :: u16
  erq_invite :: EnrollmentInvite
  erq_sister_id :: SisterId
  erq_sister_public_key :: SisterPublicKey
  erq_recipient_nonce :: arr32

definition EnrollmentRequest_new ::
    "EnrollmentInvite \<Rightarrow> SisterId \<Rightarrow> SisterPublicKey \<Rightarrow> arr32 \<Rightarrow> EnrollmentRequest" where
  "EnrollmentRequest_new invite sister_id sister_public_key recipient_nonce =
     \<lparr>erq_protocol_version = ENROLLMENT_PROTOCOL_VERSION, erq_invite = invite,
      erq_sister_id = sister_id, erq_sister_public_key = sister_public_key,
      erq_recipient_nonce = recipient_nonce\<rparr>"

record EnrollmentChallenge =
  ec_protocol_version :: u16
  ec_network_id :: NetworkId
  ec_invite_digest :: arr32
  ec_sister_id :: SisterId
  ec_sister_public_key :: SisterPublicKey
  ec_authority_nonce :: arr32
  ec_recipient_nonce :: arr32

definition EnrollmentChallenge_new ::
    "NetworkId \<Rightarrow> arr32 \<Rightarrow> SisterId \<Rightarrow> SisterPublicKey \<Rightarrow> arr32 \<Rightarrow> arr32 \<Rightarrow> EnrollmentChallenge" where
  "EnrollmentChallenge_new network_id invite_digest sister_id sister_public_key authority_nonce recipient_nonce =
     \<lparr>ec_protocol_version = ENROLLMENT_PROTOCOL_VERSION, ec_network_id = network_id,
      ec_invite_digest = invite_digest, ec_sister_id = sister_id,
      ec_sister_public_key = sister_public_key, ec_authority_nonce = authority_nonce,
      ec_recipient_nonce = recipient_nonce\<rparr>"

definition EnrollmentChallenge_serialize :: "lib \<Rightarrow> EnrollmentChallenge \<Rightarrow> sval" where
  "EnrollmentChallenge_serialize L c =
     STup [SU16 (ec_protocol_version c), NetworkId_serialize L (ec_network_id c),
       ser_key (ec_invite_digest c), SU64 (ec_sister_id c), ser_key (ec_sister_public_key c),
       ser_key (ec_authority_nonce c), ser_key (ec_recipient_nonce c)]"

definition EnrollmentChallenge_ty :: sty where
  "EnrollmentChallenge_ty = TTup [TU16, TStr, arr_ty 32, TU64, arr_ty 32, arr_ty 32, arr_ty 32]"

definition EnrollmentChallenge_signing_bytes :: "lib \<Rightarrow> EnrollmentChallenge \<Rightarrow> bytes" where
  "EnrollmentChallenge_signing_bytes L c = bincode L (EnrollmentChallenge_serialize L c)"

type_synonym EnrollmentProof = SisterSignature

definition EnrollmentChallenge_solve :: "lib \<Rightarrow> EnrollmentChallenge \<Rightarrow> SisterKeyPair \<Rightarrow> EnrollmentProof" where
  "EnrollmentChallenge_solve L c sister_key =
     SisterKeyPair_sign L sister_key (EnrollmentChallenge_signing_bytes L c)"

definition EnrollmentChallenge_verify :: "lib \<Rightarrow> EnrollmentChallenge \<Rightarrow> EnrollmentProof \<Rightarrow> bool" where
  "EnrollmentChallenge_verify L c proof' =
     SisterPublicKey_verify L (ec_sister_public_key c) (EnrollmentChallenge_signing_bytes L c) proof'"

datatype EnrollmentRejection = InvalidInvite | Expired | WrongNetwork | InvalidProof
  | ProtocolVersion | IssuanceFailed

datatype EnrollmentOutcome =
    Accepted NetworkAuthority MembershipCertificate "PeerRecord list"
  | Rejected EnrollmentRejection

record EnrollmentResponse =
  ers_protocol_version :: u16
  ers_outcome :: EnrollmentOutcome

definition EnrollmentResponse_accepted ::
    "NetworkAuthority \<Rightarrow> MembershipCertificate \<Rightarrow> PeerRecord list \<Rightarrow> EnrollmentResponse" where
  "EnrollmentResponse_accepted authority membership bootstrap_records =
     \<lparr>ers_protocol_version = ENROLLMENT_PROTOCOL_VERSION,
      ers_outcome = Accepted authority membership bootstrap_records\<rparr>"

definition EnrollmentResponse_rejected :: "EnrollmentRejection \<Rightarrow> EnrollmentResponse" where
  "EnrollmentResponse_rejected reason =
     \<lparr>ers_protocol_version = ENROLLMENT_PROTOCOL_VERSION, ers_outcome = Rejected reason\<rparr>"

record EnrollmentBundle =
  eb_authority :: NetworkAuthority
  eb_membership :: MembershipCertificate
  eb_bootstrap_records :: "PeerRecord list"

definition validate_received ::
    "lib \<Rightarrow> EnrollmentResponse \<Rightarrow> EnrollmentInvite \<Rightarrow> NetworkId \<Rightarrow> SisterId \<Rightarrow> SisterPublicKey \<Rightarrow> u64
      \<Rightarrow> EnrollmentRejection + EnrollmentBundle" where
  "validate_received L response invite expected_network_id sister_id sister_public_key now =
     (if ers_protocol_version response \<noteq> ENROLLMENT_PROTOCOL_VERSION then Err ProtocolVersion
      else case ers_outcome response of
        Rejected reason \<Rightarrow> Err reason
      | Accepted authority membership bootstrap_records \<Rightarrow>
          if authority \<noteq> ei_authority invite \<or> na_network_id authority \<noteq> expected_network_id
          then Err WrongNetwork
          else if mc_network_id membership \<noteq> expected_network_id
            \<or> mc_network_id membership \<noteq> na_network_id authority
            \<or> mc_sister_id membership \<noteq> sister_id
            \<or> mc_sister_public_key membership \<noteq> sister_public_key
            \<or> \<not> MembershipCertificate_verify L membership authority
            \<or> \<not> MembershipCertificate_is_valid_at membership now
          then Err IssuanceFailed
          else if list_ex (\<lambda>record'. pr_network_id record' \<noteq> expected_network_id \<or> \<not> PeerRecord_verify L record')
                    bootstrap_records
          then Err IssuanceFailed
          else Ok \<lparr>eb_authority = authority, eb_membership = membership,
                   eb_bootstrap_records = bootstrap_records\<rparr>)"

section \<open>Properties\<close>

lemma ser_invite_ty [ty_simps]: "has_ty EnrollmentChallenge_ty (EnrollmentChallenge_serialize L c)"
  by (simp add: EnrollmentChallenge_ty_def EnrollmentChallenge_serialize_def ty_simps)

interpretation enrollment_invite: signed_artifact EnrollmentInvite_payload_ty
  EnrollmentInvite_payload ei_authority_signature "\<lambda>s. ei_authority_signature_update (\<lambda>_. s)"
  by unfold_locales
    (auto simp: EnrollmentInvite_payload_def EnrollmentInvite_payload_ty_def ty_simps ser_inj)

lemma EnrollmentInvite_issue_sel [simp]:
  "ei_version (EnrollmentInvite_issue L authority key issued expires nonce locator) = ENROLLMENT_VERSION"
  "ei_network_id (EnrollmentInvite_issue L authority key issued expires nonce locator) = na_network_id authority"
  "ei_authority (EnrollmentInvite_issue L authority key issued expires nonce locator) = authority"
  "ei_issued_at (EnrollmentInvite_issue L authority key issued expires nonce locator) = issued"
  "ei_expires_at (EnrollmentInvite_issue L authority key issued expires nonce locator) = expires"
  "ei_locator (EnrollmentInvite_issue L authority key issued expires nonce locator) = locator"
  by (simp_all add: EnrollmentInvite_issue_def Let_def)

lemma EnrollmentInvite_issue_verify:
  assumes "ed25519_correct L" "na_authority_public_key authority = ed_public L key"
  shows "EnrollmentInvite_verify L (EnrollmentInvite_issue L authority key issued expires nonce locator) now
    \<longleftrightarrow> issued \<le> now \<and> now \<le> expires \<and> pr_network_id locator = na_network_id authority \<and> PeerRecord_verify L locator"
proof -
  have "AuthorityPublicKey_verify L (na_authority_public_key authority)
      (EnrollmentInvite_signing_bytes L (EnrollmentInvite_issue L authority key issued expires nonce locator))
      (ei_authority_signature (EnrollmentInvite_issue L authority key issued expires nonce locator))"
    using assms by (simp add: EnrollmentInvite_issue_def Let_def EnrollmentInvite_signing_bytes_def
        EnrollmentInvite_payload_def key_defs)
  then show ?thesis by (auto simp: EnrollmentInvite_verify_def)
qed

lemma EnrollmentChallenge_solve_verify:
  "ed25519_correct L \<Longrightarrow> EnrollmentChallenge_verify L c (EnrollmentChallenge_solve L c key)"
  if "ec_sister_public_key c = SisterKeyPair_public_key L key"
  using that by (simp add: EnrollmentChallenge_verify_def EnrollmentChallenge_solve_def key_defs)

lemma invite_code_ends:
  "graphic (hd (INVITE_CODE_PREFIX @ base64url_encode bs))" "graphic (last (INVITE_CODE_PREFIX @ base64url_encode bs))"
proof -
  show "graphic (last (INVITE_CODE_PREFIX @ base64url_encode bs))"
  proof (cases "base64url_encode bs = []")
    case False
    then show ?thesis using base64url_encode_graphic [OF last_in_set [OF False]] by simp
  qed (simp add: INVITE_CODE_PREFIX_def graphic_def)
qed (simp add: INVITE_CODE_PREFIX_def graphic_def)

lemma decode_pasted:
  assumes "encode_code L invite = Ok code" "de (bincode L (EnrollmentInvite_serialize L invite)) = Some invite"
    and "set before \<subseteq> set white_space" "set after \<subseteq> set white_space"
  shows "decode_code de (concat before @ code @ concat after) = Ok invite"
proof -
  have code: "code = INVITE_CODE_PREFIX @ base64url_encode (bincode L (EnrollmentInvite_serialize L invite))"
    using assms(1) by (simp add: encode_code_def)
  then have "trim (concat before @ code @ concat after) = code"
    by (intro trim_white_space [OF assms(3, 4)]) (simp_all add: invite_code_ends, simp add: INVITE_CODE_PREFIX_def)
  with code assms(2) show ?thesis by (simp add: decode_code_def)
qed

text \<open>An invite code can be copied and pasted: decoding the code of an invite gives the invite
  back, also when any Unicode white space has been added before or after it.\<close>

theorem invite_code_round_trip:
  assumes "de (bincode L (EnrollmentInvite_serialize L invite)) = Some invite"
    and "encode_code L invite = Ok code"
    and "set before \<subseteq> set white_space" "set after \<subseteq> set white_space"
  shows "decode_code de (concat before @ code @ concat after) = Ok invite"
  by (rule decode_pasted [of L invite code de, OF assms(2, 1, 3, 4)])

definition sample_invite :: EnrollmentInvite where
  "sample_invite = EnrollmentInvite_issue lib0 sample_authority 9 10 60 3 sample_record"

theorem invite_code_round_trip_witness:
  "decode_code (\<lambda>b. if b = enc (EnrollmentInvite_serialize lib0 sample_invite) then Some sample_invite else None)
     (concat [str_of_codes [32]] @ (INVITE_CODE_PREFIX @ base64url_encode (enc (EnrollmentInvite_serialize lib0 sample_invite)))
       @ concat [str_of_codes [10]]) = Ok sample_invite"
  by (rule invite_code_round_trip [where L = lib0])
    (simp_all add: encode_code_def, simp_all add: white_space_def white_space_codes_def)

text \<open>Exactly these texts are accepted as invite codes: up to surrounding white space, the
  generation prefix followed by the one base64 spelling of bytes that deserialise to an invite.\<close>

theorem decode_code_exact:
  "decode_code de code = Ok invite \<longleftrightarrow>
     (\<exists>payload. trim code = INVITE_CODE_PREFIX @ base64url_encode payload \<and> de payload = Some invite)"
proof -
  have "strip_prefix INVITE_CODE_PREFIX (trim code) = Some body \<longleftrightarrow> trim code = INVITE_CODE_PREFIX @ body" for body
    by (auto dest: strip_prefix_SomeD)
  moreover have "base64url_decode body = Some payload \<longleftrightarrow> body = base64url_encode payload" for body payload
    using base64url_canonical by auto
  ultimately show ?thesis
    unfolding decode_code_def by (auto split: option.splits)
qed

end
