(* ===== verification/Misaka_Protocol.thy ===== *)
theory Misaka_Protocol
  imports Misaka_Identity
begin

text \<open>
  \<^verbatim>\<open>misaka-core/src/protocol.rs\<close>: the messages of the control channel and of the streams, the signed
  hellos of the authenticated session and the transfer checksum. A \<open>usize\<close> is a \<open>u64\<close>. A finite
  \<open>f32\<close> is the integer multiple of \<open>2^-149\<close> it is exactly; subtraction rounds to 24 significant
  bits, ties to even.
\<close>

section \<open>Single-precision numbers\<close>

datatype f32 = NaN | PosInf | NegInf | Fin int

definition f32_of_int :: "int \<Rightarrow> f32" where
  "f32_of_int n = Fin (n * 2 ^ 149)"

fun f32_less :: "f32 \<Rightarrow> f32 \<Rightarrow> bool" where
  "f32_less (Fin a) (Fin b) = (a < b)"
| "f32_less NegInf (Fin b) = True"
| "f32_less NegInf PosInf = True"
| "f32_less (Fin a) PosInf = True"
| "f32_less _ _ = False"

fun f32_le :: "f32 \<Rightarrow> f32 \<Rightarrow> bool" where
  "f32_le NaN _ = False"
| "f32_le _ NaN = False"
| "f32_le a b = (\<not> f32_less b a)"

fun bit_length :: "nat \<Rightarrow> nat" where
  "bit_length n = (if n = 0 then 0 else Suc (bit_length (n div 2)))"

declare bit_length.simps [simp del]

lemma bit_length_le: "bit_length n \<le> k \<longleftrightarrow> n < 2 ^ k"
proof (induction k arbitrary: n)
  case 0
  then show ?case by (subst bit_length.simps) simp
next
  case (Suc k)
  show ?case by (subst bit_length.simps) (auto simp: Suc)
qed

definition round_half_even :: "nat \<Rightarrow> nat \<Rightarrow> nat" where
  "round_half_even a s =
     (let q = a div 2 ^ s; r = a mod 2 ^ s
      in if 2 * r > 2 ^ s \<or> (2 * r = 2 ^ s \<and> odd q) then (q + 1) * 2 ^ s else q * 2 ^ s)"

definition round_24 :: "nat \<Rightarrow> nat" where
  "round_24 a = (if bit_length a \<le> 24 then a else round_half_even a (bit_length a - 24))"

definition f32_round :: "int \<Rightarrow> f32" where
  "f32_round d =
     (let a = round_24 (nat \<bar>d\<bar>)
      in if a \<ge> 2 ^ 277 then (if d < 0 then NegInf else PosInf)
         else Fin (if d < 0 then - int a else int a))"

fun f32_sub :: "f32 \<Rightarrow> f32 \<Rightarrow> f32" where
  "f32_sub (Fin a) (Fin b) = f32_round (a - b)"
| "f32_sub NaN _ = NaN"
| "f32_sub _ NaN = NaN"
| "f32_sub PosInf PosInf = NaN"
| "f32_sub NegInf NegInf = NaN"
| "f32_sub PosInf _ = PosInf"
| "f32_sub NegInf _ = NegInf"
| "f32_sub _ PosInf = NegInf"
| "f32_sub _ NegInf = PosInf"

datatype ordering = Less | Equal | Greater

definition f32_partial_cmp :: "f32 \<Rightarrow> f32 \<Rightarrow> ordering option" where
  "f32_partial_cmp a b =
     (if a = NaN \<or> b = NaN then None
      else if f32_less a b then Some Less else if f32_less b a then Some Greater else Some Equal)"

text \<open>Correct rounding: the result is within half a unit of the last place.\<close>

lemma round_half_even_close: "\<bar>int (round_half_even a s) - int a\<bar> * 2 \<le> 2 ^ s"
proof -
  define q r where "q = a div 2 ^ s" and "r = a mod 2 ^ s"
  have a: "a = q * 2 ^ s + r" and r: "r < 2 ^ s"
    using div_mult_mod_eq [of a "2 ^ s"] by (simp_all add: q_def r_def)
  have "int a = int q * 2 ^ s + int r" using a by simp
  moreover have "int r < 2 ^ s" using r by (metis of_nat_less_iff of_nat_numeral of_nat_power)
  moreover have "2 ^ s \<le> 2 * r \<longleftrightarrow> (2 :: int) ^ s \<le> 2 * int r"
    by (metis of_nat_le_iff of_nat_mult of_nat_numeral of_nat_power)
  moreover have "2 * r \<le> 2 ^ s \<longleftrightarrow> 2 * int r \<le> (2 :: int) ^ s"
    by (metis of_nat_le_iff of_nat_mult of_nat_numeral of_nat_power)
  moreover have "round_half_even a s = (q + 1) * 2 ^ s \<and> 2 ^ s \<le> 2 * r \<or> round_half_even a s = q * 2 ^ s \<and> 2 * r \<le> 2 ^ s"
    by (auto simp: round_half_even_def Let_def q_def [symmetric] r_def [symmetric])
  ultimately show ?thesis by (auto simp: algebra_simps)
qed

lemma round_24_close: "a < 2 ^ (24 + k) \<Longrightarrow> \<bar>int (round_24 a) - int a\<bar> * 2 \<le> 2 ^ k"
proof (cases "bit_length a \<le> 24")
  case False
  assume "a < 2 ^ (24 + k)"
  then have "bit_length a \<le> 24 + k" by (simp add: bit_length_le)
  then have "bit_length a - 24 \<le> k" by simp
  then have "(2 :: int) ^ (bit_length a - 24) \<le> 2 ^ k" by (simp add: power_increasing)
  with round_half_even_close [of a "bit_length a - 24"]
  have "\<bar>int (round_half_even a (bit_length a - 24)) - int a\<bar> * 2 \<le> 2 ^ k" by (rule order_trans)
  with False show ?thesis by (simp add: round_24_def)
qed (simp add: round_24_def)

section \<open>Messages\<close>

definition AUTH_SESSION_PROTOCOL_VERSION :: u16 where
  "AUTH_SESSION_PROTOCOL_VERSION = 1"

definition PROTOCOL_VERSION :: u16 where
  "PROTOCOL_VERSION = 3"

definition TRANSFER_V1_CHUNK_SIZE :: u32 where
  "TRANSFER_V1_CHUNK_SIZE = 64 * 1024"

datatype MessageType = Hello | Heartbeat | State | Job | JobRequest | JobResponse | Ack | Ping | Pong | PeerRecords

record Envelope =
  env_network_id :: NetworkId
  env_protocol_version :: u16
  env_msg_type :: MessageType
  env_from :: u64
  env_to :: u64
  env_data :: bytes

definition Envelope_new :: "NetworkId \<Rightarrow> MessageType \<Rightarrow> u64 \<Rightarrow> u64 \<Rightarrow> bytes \<Rightarrow> Envelope" where
  "Envelope_new network_id msg_type from to data =
     \<lparr>env_network_id = network_id, env_protocol_version = PROTOCOL_VERSION, env_msg_type = msg_type,
      env_from = from, env_to = to, env_data = data\<rparr>"

record HelloData =
  hd_network_id :: NetworkId
  hd_identity :: SisterIdentity
  hd_listen_addr :: string
  hd_stream_addr :: "string option"
  hd_stream_certificate :: "bytes option"

record PeerRecordsData =
  prd_network_id :: NetworkId
  prd_records :: "PeerRecord list"

record StateData =
  sd_network_id :: NetworkId
  sd_identity :: SisterIdentity
  sd_listen_addr :: string
  sd_stream_addr :: "string option"
  sd_stream_certificate :: "bytes option"
  sd_cpu_usage :: f32
  sd_memory_total :: u64
  sd_memory_used :: u64
  sd_running_jobs :: u64
  sd_queued_jobs :: u64
  sd_uptime_secs :: u64
  sd_capabilities :: "string list"

record JobData =
  jd_id :: string
  jd_creator :: u64
  jd_executor :: u64
  jd_creator_addr :: string
  jd_command :: string
  jd_arguments :: "string list"
  jd_created_at :: u64
  jd_authorization :: "CommandAuthorization option"

fun join_space :: "string list \<Rightarrow> string" where
  "join_space [] = []"
| "join_space [s] = s"
| "join_space (s # ss) = s @ '' '' @ join_space ss"

definition full_command :: "JobData \<Rightarrow> string" where
  "full_command j = (if jd_arguments j = [] then jd_command j else jd_command j @ '' '' @ join_space (jd_arguments j))"

record JobResultData =
  jr_job_id :: string
  jr_creator :: u64
  jr_executor :: u64
  jr_output :: string
  jr_exit_code :: int
  jr_success :: bool
  jr_started_at :: u64
  jr_finished_at :: u64

section \<open>Signed hellos\<close>

record AuthenticatedClientHello =
  ch_protocol_version :: u16
  ch_network_id :: NetworkId
  ch_sister_id :: SisterId
  ch_sister_public_key :: SisterPublicKey
  ch_membership_certificate :: MembershipCertificate
  ch_transport_binding :: TransportBinding
  ch_nonce :: arr32
  ch_signature :: SisterSignature

definition ClientHello_payload :: "lib \<Rightarrow> AuthenticatedClientHello \<Rightarrow> sval" where
  "ClientHello_payload L h =
     STup [SU16 (ch_protocol_version h), NetworkId_serialize L (ch_network_id h), SU64 (ch_sister_id h),
       ser_key (ch_sister_public_key h), MembershipCertificate_serialize L (ch_membership_certificate h),
       TransportBinding_serialize L (ch_transport_binding h), ser_key (ch_nonce h)]"

definition ClientHello_payload_ty :: sty where
  "ClientHello_payload_ty = TTup [TU16, TStr, TU64, arr_ty 32, MembershipCertificate_ty, TransportBinding_ty, arr_ty 32]"

definition ClientHello_signing_bytes :: "lib \<Rightarrow> AuthenticatedClientHello \<Rightarrow> bytes" where
  "ClientHello_signing_bytes L h = bincode L (ClientHello_payload L h)"

definition ClientHello_sign ::
    "lib \<Rightarrow> NetworkId \<Rightarrow> u64 \<Rightarrow> SisterPublicKey \<Rightarrow> MembershipCertificate \<Rightarrow> TransportBinding \<Rightarrow> arr32
      \<Rightarrow> SisterKeyPair \<Rightarrow> AuthenticatedClientHello" where
  "ClientHello_sign L network_id sister_id sister_public_key membership_certificate transport_binding nonce key =
     (let hello = \<lparr>ch_protocol_version = AUTH_SESSION_PROTOCOL_VERSION, ch_network_id = network_id,
            ch_sister_id = sister_id, ch_sister_public_key = sister_public_key,
            ch_membership_certificate = membership_certificate, ch_transport_binding = transport_binding,
            ch_nonce = nonce, ch_signature = 0\<rparr>
      in hello\<lparr>ch_signature := SisterKeyPair_sign L key (ClientHello_signing_bytes L hello)\<rparr>)"

definition ClientHello_verify_signature :: "lib \<Rightarrow> AuthenticatedClientHello \<Rightarrow> bool" where
  "ClientHello_verify_signature L h =
     SisterPublicKey_verify L (ch_sister_public_key h) (ClientHello_signing_bytes L h) (ch_signature h)"

record AuthenticatedServerHello =
  sh_protocol_version :: u16
  sh_network_id :: NetworkId
  sh_sister_id :: SisterId
  sh_sister_public_key :: SisterPublicKey
  sh_membership_certificate :: MembershipCertificate
  sh_transport_binding :: TransportBinding
  sh_client_nonce :: arr32
  sh_nonce :: arr32
  sh_signature :: SisterSignature

definition ServerHello_payload :: "lib \<Rightarrow> AuthenticatedServerHello \<Rightarrow> sval" where
  "ServerHello_payload L h =
     STup [SU16 (sh_protocol_version h), NetworkId_serialize L (sh_network_id h), SU64 (sh_sister_id h),
       ser_key (sh_sister_public_key h), MembershipCertificate_serialize L (sh_membership_certificate h),
       TransportBinding_serialize L (sh_transport_binding h), ser_key (sh_client_nonce h), ser_key (sh_nonce h)]"

definition ServerHello_payload_ty :: sty where
  "ServerHello_payload_ty =
     TTup [TU16, TStr, TU64, arr_ty 32, MembershipCertificate_ty, TransportBinding_ty, arr_ty 32, arr_ty 32]"

definition ServerHello_signing_bytes :: "lib \<Rightarrow> AuthenticatedServerHello \<Rightarrow> bytes" where
  "ServerHello_signing_bytes L h = bincode L (ServerHello_payload L h)"

definition ServerHello_sign ::
    "lib \<Rightarrow> NetworkId \<Rightarrow> u64 \<Rightarrow> SisterPublicKey \<Rightarrow> MembershipCertificate \<Rightarrow> TransportBinding \<Rightarrow> arr32 \<Rightarrow> arr32
      \<Rightarrow> SisterKeyPair \<Rightarrow> AuthenticatedServerHello" where
  "ServerHello_sign L network_id sister_id sister_public_key membership_certificate transport_binding client_nonce nonce key =
     (let hello = \<lparr>sh_protocol_version = AUTH_SESSION_PROTOCOL_VERSION, sh_network_id = network_id,
            sh_sister_id = sister_id, sh_sister_public_key = sister_public_key,
            sh_membership_certificate = membership_certificate, sh_transport_binding = transport_binding,
            sh_client_nonce = client_nonce, sh_nonce = nonce, sh_signature = 0\<rparr>
      in hello\<lparr>sh_signature := SisterKeyPair_sign L key (ServerHello_signing_bytes L hello)\<rparr>)"

definition ServerHello_verify_signature :: "lib \<Rightarrow> AuthenticatedServerHello \<Rightarrow> bool" where
  "ServerHello_verify_signature L h =
     SisterPublicKey_verify L (sh_sister_public_key h) (ServerHello_signing_bytes L h) (sh_signature h)"

interpretation client_hello: signed_artifact ClientHello_payload_ty
  ClientHello_payload ch_signature "\<lambda>s. ch_signature_update (\<lambda>_. s)"
  by unfold_locales (auto simp: ClientHello_payload_def ClientHello_payload_ty_def ty_simps ser_inj)

interpretation server_hello: signed_artifact ServerHello_payload_ty
  ServerHello_payload sh_signature "\<lambda>s. sh_signature_update (\<lambda>_. s)"
  by unfold_locales (auto simp: ServerHello_payload_def ServerHello_payload_ty_def ty_simps ser_inj)

section \<open>The transfer checksum\<close>

text \<open>Four independent 64-bit lanes of FNV-1a with different starting values\<close>

type_synonym digest_state = "u64 list"

definition TRANSFER_DIGEST_PRIME :: u64 where
  "TRANSFER_DIGEST_PRIME = 0x100000001b3"

definition digest_byte :: "u64 \<Rightarrow> u8 \<Rightarrow> u64" where
  "digest_byte lane byte = (lane XOR ucast byte) * TRANSFER_DIGEST_PRIME"

definition update_transfer_digest :: "digest_state \<Rightarrow> bytes \<Rightarrow> digest_state" where
  "update_transfer_digest state bytes' = foldl (\<lambda>st byte. map (\<lambda>lane. digest_byte lane byte) st) state bytes'"

definition finalize_transfer_digest :: "digest_state \<Rightarrow> bytes" where
  "finalize_transfer_digest state = concat (map (\<lambda>lane. rev (word_bytes 8 lane)) state)"

definition transfer_digest_start :: digest_state where
  "transfer_digest_start = [0xcbf29ce484222325, 0x84222325cbf29ce4, 0x9e3779b185ebca87, 0xd6e8feb86659fd93]"

definition transfer_digest :: "bytes \<Rightarrow> bytes" where
  "transfer_digest bytes' = finalize_transfer_digest (update_transfer_digest transfer_digest_start bytes')"

text \<open>The sender and the receiver may cut the file into different pieces.\<close>

lemma update_transfer_digest_append:
  "update_transfer_digest st (xs @ ys) = update_transfer_digest (update_transfer_digest st xs) ys"
  by (simp add: update_transfer_digest_def)

text \<open>The transfer checksum does not depend on how the data is cut into reads: folding the update
  over any sequence of pieces and finishing gives the checksum of the whole, 32 bytes long.\<close>

theorem transfer_digest_streaming:
  "finalize_transfer_digest (foldl update_transfer_digest transfer_digest_start pieces) = transfer_digest (concat pieces)
   \<and> length (transfer_digest (concat pieces)) = 32"
proof -
  have fold: "foldl update_transfer_digest st pieces = update_transfer_digest st (concat pieces)" for st
    by (induction pieces arbitrary: st) (simp_all add: update_transfer_digest_append, simp add: update_transfer_digest_def)
  have "length (update_transfer_digest st xs) = length st" for st xs
    by (induction xs arbitrary: st rule: rev_induct) (simp_all add: update_transfer_digest_def)
  then have "length (update_transfer_digest transfer_digest_start (concat pieces)) = 4"
    by (simp add: transfer_digest_start_def)
  then have "length (transfer_digest (concat pieces)) = 32"
    unfolding transfer_digest_def finalize_transfer_digest_def
    by (simp add: length_concat comp_def sum_list_triv)
  with fold show ?thesis by (simp add: transfer_digest_def)
qed

text \<open>The checksum detects every single corrupted byte: two inputs that differ in one byte have
  different checksums, because each lane is a bijection of its state for a fixed byte.\<close>

theorem transfer_digest_single_byte:
  assumes "b \<noteq> c"
  shows "transfer_digest (xs @ b # ys) \<noteq> transfer_digest (xs @ c # ys)"
proof
  have inv: "TRANSFER_DIGEST_PRIME * 0xce965057aff6957b = 1" by (simp add: TRANSFER_DIGEST_PRIME_def)
  have inj_lane: "digest_byte l b = digest_byte l' b \<Longrightarrow> l = l'" for l l' b
  proof -
    assume "digest_byte l b = digest_byte l' b"
    then have "(l XOR ucast b) * (TRANSFER_DIGEST_PRIME * 0xce965057aff6957b) = (l' XOR ucast b) * (TRANSFER_DIGEST_PRIME * 0xce965057aff6957b)"
      by (simp add: digest_byte_def mult.assoc [symmetric])
    then have "l XOR ucast b = l' XOR ucast b" by (simp only: inv mult_1_right)
    then have "(l XOR ucast b) XOR ucast b = (l' XOR ucast b) XOR ucast b" by (rule arg_cong)
    then show "l = l'" by (simp add: xor.assoc)
  qed
  have inj_fold: "foldl digest_byte l zs = foldl digest_byte l' zs \<Longrightarrow> l = l'" for l l' zs
    by (induction zs arbitrary: l l') (auto dest: inj_lane)
  have lanes: "update_transfer_digest st zs = map (\<lambda>l. foldl digest_byte l zs) st" for st zs
    by (induction zs arbitrary: st) (simp_all add: update_transfer_digest_def comp_def)
  assume "transfer_digest (xs @ b # ys) = transfer_digest (xs @ c # ys)"
  then have "rev (word_bytes 8 (foldl digest_byte 0xcbf29ce484222325 (xs @ b # ys)))
      = rev (word_bytes 8 (foldl digest_byte 0xcbf29ce484222325 (xs @ c # ys)))"
    by (simp add: transfer_digest_def finalize_transfer_digest_def lanes transfer_digest_start_def)
  then have "foldl digest_byte (digest_byte (foldl digest_byte 0xcbf29ce484222325 xs) b) ys
      = foldl digest_byte (digest_byte (foldl digest_byte 0xcbf29ce484222325 xs) c) ys" by simp
  from inj_fold [OF this] have "\<exists>l. digest_byte l b = digest_byte l c" by blast
  then obtain l where "digest_byte l b = digest_byte l c" ..
  then have "(l XOR ucast b) * (TRANSFER_DIGEST_PRIME * 0xce965057aff6957b) = (l XOR ucast c) * (TRANSFER_DIGEST_PRIME * 0xce965057aff6957b)"
    by (simp add: digest_byte_def mult.assoc [symmetric])
  then have "l XOR ucast b = l XOR ucast c" by (simp only: inv mult_1_right)
  then have "l XOR (l XOR ucast b) = l XOR (l XOR ucast c)" by (rule arg_cong)
  then have "(ucast b :: u64) = ucast c" by (simp add: xor.assoc [symmetric])
  moreover have "unat (ucast x :: u64) = unat x" for x :: u8
    using unat_lt_exp [of x] by (simp add: unsigned_ucast_eq take_bit_nat_eq_self_iff)
  ultimately have "b = c" by (metis word_unat_eq_iff)
  with assms show False ..
qed

theorem transfer_digest_single_byte_witness: "transfer_digest ([1] @ 2 # [3]) \<noteq> transfer_digest ([1] @ 9 # [3])"
  by (rule transfer_digest_single_byte) simp

end
