(* ===== verification/Misaka_Replay.thy ===== *)
theory Misaka_Replay
  imports Misaka_Prelude
begin

text \<open>
  The interface of a replay guard. The program has three of them: the nonce set of the native
  gateway, the nonce table of the Cloudflare gateway and the durable nonce store of command
  authorizations. A guard answers each request at a time \<open>now\<close> with a new state and whether the
  request is fresh. Its laws: a blocked key is refused, a fresh key is blocked until the instant
  \<open>until\<close>, and nothing that happens later (at non-decreasing times) unblocks it earlier.
\<close>

definition guard_run :: "('q \<Rightarrow> u64 \<Rightarrow> 's \<Rightarrow> 's \<times> bool) \<Rightarrow> (u64 \<times> 'q) list \<Rightarrow> 's \<Rightarrow> 's" where
  "guard_run spend es s = fold (\<lambda>(now, q) s. fst (spend q now s)) es s"

lemma guard_run_simps [simp]:
  "guard_run spend [] s = s"
  "guard_run spend (e # es) s = guard_run spend es (fst (spend (snd e) (fst e) s))"
  "guard_run spend (es @ fs) s = guard_run spend fs (guard_run spend es s)"
  by (simp_all add: guard_run_def case_prod_beta)

locale replay_guard =
  fixes spend :: "'q \<Rightarrow> u64 \<Rightarrow> 's \<Rightarrow> 's \<times> bool"
    and key :: "'q \<Rightarrow> 'k"
    and until :: "'q \<Rightarrow> u64 \<Rightarrow> nat"
    and blocked :: "'s \<Rightarrow> 'k \<Rightarrow> nat \<Rightarrow> bool"
    and inv :: "u64 \<Rightarrow> 's \<Rightarrow> bool"
    and ok_time :: "u64 \<Rightarrow> bool"
  assumes inv_later: "inv earlier s \<Longrightarrow> earlier \<le> now \<Longrightarrow> ok_time now \<Longrightarrow> inv now s"
    and inv_spend: "inv now s \<Longrightarrow> ok_time now \<Longrightarrow> inv now (fst (spend q now s))"
    and refuse: "inv now s \<Longrightarrow> ok_time now \<Longrightarrow> blocked s (key q) (unat now) \<Longrightarrow> \<not> snd (spend q now s)"
    and block: "inv now s \<Longrightarrow> ok_time now \<Longrightarrow> snd (spend q now s) \<Longrightarrow> unat now \<le> t \<Longrightarrow> t < until q now
      \<Longrightarrow> blocked (fst (spend q now s)) (key q) t"
    and keep: "inv now s \<Longrightarrow> ok_time now \<Longrightarrow> blocked s k t \<Longrightarrow> unat now \<le> t \<Longrightarrow> blocked (fst (spend q now s)) k t"
begin

lemma run_inv:
  "inv t s \<Longrightarrow> sorted (t # map fst es) \<Longrightarrow> \<forall>e\<in>set es. ok_time (fst e)
     \<Longrightarrow> inv (last (t # map fst es)) (guard_run spend es s)"
proof (induction es arbitrary: t s)
  case (Cons e es)
  have "inv (fst e) (fst (spend (snd e) (fst e) s))"
    using Cons.prems by (auto intro!: inv_spend intro: inv_later)
  from Cons.IH [OF this] Cons.prems show ?case by simp
qed simp

lemma run_keeps:
  "inv t s \<Longrightarrow> sorted (t # map fst es) \<Longrightarrow> \<forall>e\<in>set es. ok_time (fst e) \<and> unat (fst e) \<le> t'
     \<Longrightarrow> blocked s k t' \<Longrightarrow> blocked (guard_run spend es s) k t'"
proof (induction es arbitrary: t s)
  case (Cons e es)
  have now: "inv (fst e) s" using Cons.prems by (auto intro: inv_later)
  have "blocked (fst (spend (snd e) (fst e) s)) k t'"
    using Cons.prems by (intro keep now) auto
  moreover have "inv (fst e) (fst (spend (snd e) (fst e) s))"
    using Cons.prems now by (auto intro: inv_spend)
  ultimately show ?case using Cons by simp
qed simp

text \<open>A key accepted at \<open>t1\<close> is accepted again at a later \<open>t2\<close> only once it has been released.\<close>

lemma no_reuse:
  assumes "inv t s" "sorted (t # map fst (before @ (t1, q1) # between @ [(t2, q2)]))"
    and "\<forall>e\<in>set (before @ (t1, q1) # between @ [(t2, q2)]). ok_time (fst e)"
    and "snd (spend q1 t1 (guard_run spend before s))"
    and "snd (spend q2 t2 (guard_run spend (before @ (t1, q1) # between) s))"
    and "key q2 = key q1"
  shows "until q1 t1 \<le> unat t2"
proof (rule ccontr)
  assume "\<not> until q1 t1 \<le> unat t2"
  then have lt: "unat t2 < until q1 t1" by simp
  define s1 where "s1 = guard_run spend before s"
  define s2 where "s2 = fst (spend q1 t1 s1)"
  have ord: "sorted (t # map fst before)" "t1 \<le> t2" "sorted (t1 # map fst between)"
    "\<forall>e\<in>set between. fst e \<le> t2" "last (t # map fst before) \<le> t1"
    using assms(2) by (auto simp: sorted_append last_map)
  have ok: "\<forall>e\<in>set before. ok_time (fst e)" "ok_time t1" "\<forall>e\<in>set between. ok_time (fst e)" "ok_time t2"
    using assms(3) by auto
  have inv1: "inv t1 s1"
    using run_inv [OF assms(1) ord(1) ok(1)] ord(5) ok(2) by (auto simp: s1_def intro: inv_later)
  have inv2: "inv t1 s2" unfolding s2_def by (rule inv_spend [OF inv1 ok(2)])
  have "blocked s2 (key q1) (unat t2)"
    unfolding s2_def using assms(4) lt ord(2) inv1 ok(2) by (intro block) (auto simp: s1_def word_le_nat_alt)
  then have "blocked (guard_run spend between s2) (key q1) (unat t2)"
    by (intro run_keeps [OF inv2 ord(3)]) (use ok ord(4) in \<open>auto simp: word_le_nat_alt\<close>)
  moreover have "inv t2 (guard_run spend between s2)"
  proof -
    have "last (t1 # map fst between) \<le> t2" using ord(2, 4) by (auto simp: last_map)
    with run_inv [OF inv2 ord(3) ok(3)] ok(4) show ?thesis by (auto intro: inv_later)
  qed
  ultimately show False
    using refuse [of t2 "guard_run spend between s2" q2] ok(4) assms(5, 6) by (simp add: s1_def s2_def)
qed

end

end
