(* ===== verification/Misaka_Stores.thy ===== *)
theory Misaka_Stores
  imports Misaka_Protocol Misaka_Replay
begin

text \<open>
  The small stores of \<^verbatim>\<open>misaka-runtime/src\<close> that persist the trust state of a Sister: used command
  nonces, revocations, membership serials, the transport binding, the membership certificate, the
  network id, the authority descriptor and key, the Sister key, the human identity, the local
  control token, the gateway list, the identity file and the runtime marker. A store is its file;
  how each write ends is an argument, so every operation is described for successful, refused and
  interrupted writes. Random values are arguments.
\<close>

section \<open>Used command nonces\<close>

datatype AuthorizationNonceStoreError = Nonce_Io | Nonce_Json | Replay | Nonce_NetworkMismatch

record NonceEntry =
  ne_network_id :: NetworkId
  ne_nonce :: arr16
  ne_expires_at :: u64

definition AuthorizationNonceStore_record ::
    "write_outcome \<Rightarrow> CommandAuthorization \<Rightarrow> u64 \<Rightarrow> NonceEntry list disk
      \<Rightarrow> (AuthorizationNonceStoreError + unit) \<times> NonceEntry list disk" where
  "AuthorizationNonceStore_record w authorization now f =
     (if ca_network_id authorization \<noteq> hmc_network_id (ca_membership authorization) then (Err Nonce_NetworkMismatch, f)
      else case load_disk Nonce_Io Nonce_Json f of
        Inl e \<Rightarrow> (Err e, f)
      | Inr loaded \<Rightarrow>
          let entries = filter (\<lambda>entry. ne_expires_at entry \<ge> now) (case loaded of None \<Rightarrow> [] | Some es \<Rightarrow> es)
          in if \<exists>entry\<in>set entries. ne_network_id entry = ca_network_id authorization \<and> ne_nonce entry = ca_nonce authorization
             then (Err Replay, f)
             else store_disk Nonce_Io w
               (entries @ [\<lparr>ne_network_id = ca_network_id authorization, ne_nonce = ca_nonce authorization,
                            ne_expires_at = ca_expires_at authorization\<rparr>]) f)"

section \<open>Revocations\<close>

datatype RevocationStoreError = Revocation_Io | Revocation_Json | Revocation_InvalidSignature

definition RevocationStore_load :: "RevocationRecord list disk \<Rightarrow> RevocationStoreError + RevocationRecord list" where
  "RevocationStore_load f =
     (case load_disk Revocation_Io Revocation_Json f of
        Inl e \<Rightarrow> Err e | Inr None \<Rightarrow> Ok [] | Inr (Some records) \<Rightarrow> Ok records)"

definition RevocationStore_save ::
    "write_outcome \<Rightarrow> RevocationRecord list \<Rightarrow> RevocationRecord list disk
      \<Rightarrow> (RevocationStoreError + unit) \<times> RevocationRecord list disk" where
  "RevocationStore_save w records f = store_disk Revocation_Io w records f"

definition RevocationStore_append ::
    "lib \<Rightarrow> write_outcome \<Rightarrow> NetworkAuthority \<Rightarrow> RevocationRecord \<Rightarrow> RevocationRecord list disk
      \<Rightarrow> (RevocationStoreError + unit) \<times> RevocationRecord list disk" where
  "RevocationStore_append L w authority record' f =
     (if \<not> RevocationRecord_verify L record' authority then (Err Revocation_InvalidSignature, f)
      else case RevocationStore_load f of
        Inl e \<Rightarrow> (Err e, f)
      | Inr records \<Rightarrow>
          if \<not> (\<exists>existing\<in>set records. rr_network_id existing = rr_network_id record'
                \<and> rr_membership_kind existing = rr_membership_kind record'
                \<and> rr_membership_serial existing = rr_membership_serial record')
          then RevocationStore_save w (records @ [record']) f
          else (Ok (), f))"

fun revoked_in :: "lib \<Rightarrow> NetworkAuthority \<Rightarrow> NetworkId \<Rightarrow> MembershipKind \<Rightarrow> u64 \<Rightarrow> RevocationRecord list \<Rightarrow> RevocationStoreError + bool" where
  "revoked_in L authority network_id kind serial [] = Ok False"
| "revoked_in L authority network_id kind serial (record' # records) =
     (if rr_network_id record' \<noteq> network_id then revoked_in L authority network_id kind serial records
      else if \<not> RevocationRecord_verify L record' authority then Err Revocation_InvalidSignature
      else if rr_membership_kind record' = kind \<and> rr_membership_serial record' = serial then Ok True
      else revoked_in L authority network_id kind serial records)"

definition RevocationStore_is_revoked ::
    "lib \<Rightarrow> NetworkAuthority \<Rightarrow> NetworkId \<Rightarrow> MembershipKind \<Rightarrow> u64 \<Rightarrow> RevocationRecord list disk \<Rightarrow> RevocationStoreError + bool" where
  "RevocationStore_is_revoked L authority network_id kind serial f =
     (case RevocationStore_load f of
        Inl e \<Rightarrow> Err e
      | Inr records \<Rightarrow> revoked_in L authority network_id kind serial records)"

section \<open>Membership serials\<close>

text \<open>
  The serial file is decimal text, not a structured document: an interrupted write leaves a proper
  prefix of the digits, which may itself be a number.
\<close>

datatype text_write = Text_written | Text_not_opened | Text_torn nat

definition write_text :: "text_write \<Rightarrow> string \<Rightarrow> string disk \<Rightarrow> string disk" where
  "write_text w s f =
     (case w of Text_written \<Rightarrow> Holds s | Text_not_opened \<Rightarrow> f | Text_torn n \<Rightarrow> Holds (take (min n (length s - 1)) s))"

datatype SerialError = Serial_Io | InvalidData

definition MembershipSerialStore_read :: "string disk \<Rightarrow> SerialError + u64 option" where
  "MembershipSerialStore_read f =
     (case load_disk Serial_Io InvalidData f of
        Inl e \<Rightarrow> Err e
      | Inr None \<Rightarrow> Ok None
      | Inr (Some s) \<Rightarrow> (case parse_u64 (trim s) of None \<Rightarrow> Err InvalidData | Some v \<Rightarrow> Ok (Some v)))"

record MembershipSerialStore =
  ms_file :: "string disk"
  ms_state :: u64

definition MembershipSerialStore_open :: "string disk \<Rightarrow> SerialError + MembershipSerialStore" where
  "MembershipSerialStore_open f =
     (case MembershipSerialStore_read f of
        Inl e \<Rightarrow> Err e
      | Inr v \<Rightarrow> Ok \<lparr>ms_file = f, ms_state = (case v of None \<Rightarrow> 0 | Some n \<Rightarrow> n)\<rparr>)"

definition allocate :: "text_write \<Rightarrow> MembershipSerialStore \<Rightarrow> (SerialError + u64) \<times> MembershipSerialStore" where
  "allocate w st =
     (let n = saturating_add (ms_state st) 1;
          f = write_text w (show_nat (unat n)) (ms_file st)
      in if w = Text_written then (Ok n, st\<lparr>ms_file := f, ms_state := n\<rparr>)
         else (Err Serial_Io, st\<lparr>ms_file := f\<rparr>))"

section \<open>The transport binding\<close>

datatype TransportBindingStoreError = Binding_Io | Binding_Json | Binding_InvalidSignature | Binding_IdentityMismatch

definition TransportBindingStore_load :: "TransportBinding disk \<Rightarrow> TransportBindingStoreError + TransportBinding option" where
  "TransportBindingStore_load f = load_disk Binding_Io Binding_Json f"

text \<open>After the write the permissions are restricted, which can fail on its own.\<close>

definition TransportBindingStore_save ::
    "write_outcome \<Rightarrow> bool \<Rightarrow> TransportBinding \<Rightarrow> TransportBinding disk
      \<Rightarrow> (TransportBindingStoreError + unit) \<times> TransportBinding disk" where
  "TransportBindingStore_save w chmod binding f =
     (let (r, f') = store_disk Binding_Io w binding f
      in if is_ok r \<and> \<not> chmod then (Err Binding_Io, f') else (r, f'))"

definition TransportBindingStore_load_or_update ::
    "lib \<Rightarrow> write_outcome \<Rightarrow> bool \<Rightarrow> NetworkId \<Rightarrow> u64 \<Rightarrow> IrohEndpointId \<Rightarrow> SisterKeyPair \<Rightarrow> TransportBinding disk
      \<Rightarrow> (TransportBindingStoreError + TransportBinding) \<times> TransportBinding disk" where
  "TransportBindingStore_load_or_update L w chmod network_id sister_id endpoint_id key f =
     (case TransportBindingStore_load f of
        Inl e \<Rightarrow> (Err e, f)
      | Inr (Some existing) \<Rightarrow>
          if \<not> TransportBinding_verify L existing then (Err Binding_InvalidSignature, f)
          else if tb_network_id existing \<noteq> network_id \<or> tb_sister_id existing \<noteq> sister_id
                  \<or> tb_sister_public_key existing \<noteq> SisterKeyPair_public_key L key
          then (Err Binding_IdentityMismatch, f)
          else if tb_iroh_endpoint_id existing = endpoint_id then (Ok existing, f)
          else
            let next = TransportBinding_sign L network_id sister_id endpoint_id (saturating_add (tb_sequence existing) 1) key
            in (case TransportBindingStore_save w chmod next f of
                  (Inl e, f') \<Rightarrow> (Err e, f') | (Inr _, f') \<Rightarrow> (Ok next, f'))
      | Inr None \<Rightarrow>
          let binding = TransportBinding_sign L network_id sister_id endpoint_id 0 key
          in (case TransportBindingStore_save w chmod binding f of
                (Inl e, f') \<Rightarrow> (Err e, f') | (Inr _, f') \<Rightarrow> (Ok binding, f')))"

section \<open>Certificate, network id, authority and key\<close>

datatype MembershipStoreError = Membership_Io | Membership_Codec

definition MembershipStore_load :: "MembershipCertificate disk \<Rightarrow> MembershipStoreError + MembershipCertificate option" where
  "MembershipStore_load f = load_disk Membership_Io Membership_Codec f"

definition MembershipStore_save ::
    "write_outcome \<Rightarrow> MembershipCertificate \<Rightarrow> MembershipCertificate disk \<Rightarrow> (MembershipStoreError + unit) \<times> MembershipCertificate disk" where
  "MembershipStore_save w certificate f = store_disk Membership_Io w certificate f"

definition MembershipStore_validate :: "lib \<Rightarrow> MembershipCertificate \<Rightarrow> NetworkAuthority \<Rightarrow> u64 \<Rightarrow> bool" where
  "MembershipStore_validate L certificate authority now \<longleftrightarrow>
     MembershipCertificate_verify L certificate authority \<and> MembershipCertificate_is_valid_at certificate now"

datatype NetworkIdStoreError = NetworkId_Io | Invalid | Mismatch NetworkId NetworkId

definition NetworkIdStore_load :: "NetworkId disk \<Rightarrow> NetworkIdStoreError + NetworkId option" where
  "NetworkIdStore_load f = load_disk NetworkId_Io Invalid f"

definition NetworkIdStore_load_or_init ::
    "NetworkId option \<times> NetworkId \<Rightarrow> write_outcome \<Rightarrow> NetworkId disk \<Rightarrow> (NetworkIdStoreError + NetworkId) \<times> NetworkId disk" where
  "NetworkIdStore_load_or_init q w f =
     (let (requested, generated) = q in
      case NetworkIdStore_load f of
        Inl e \<Rightarrow> (Err e, f)
      | Inr (Some persisted) \<Rightarrow>
          (case requested of
             Some r \<Rightarrow> if r \<noteq> persisted then (Err (Mismatch r persisted), f) else (Ok persisted, f)
           | None \<Rightarrow> (Ok persisted, f))
      | Inr None \<Rightarrow>
          let network_id = (case requested of Some r \<Rightarrow> r | None \<Rightarrow> generated)
          in (case store_disk NetworkId_Io w network_id f of
                (Inl e, f') \<Rightarrow> (Err e, f') | (Inr _, f') \<Rightarrow> (Ok network_id, f')))"

datatype NetworkAuthorityStoreError = Authority_Io | Authority_Json | InvalidKeyLength | KeyMismatch | DescriptorMismatch

record AuthorityFiles =
  af_descriptor :: "NetworkAuthority disk"
  af_key :: "AuthorityKeyPair disk"

definition NetworkAuthorityStore_load :: "NetworkAuthority disk \<Rightarrow> NetworkAuthorityStoreError + NetworkAuthority option" where
  "NetworkAuthorityStore_load f = load_disk Authority_Io Authority_Json f"

definition install_descriptor ::
    "NetworkAuthority \<Rightarrow> write_outcome \<Rightarrow> NetworkAuthority disk \<Rightarrow> (NetworkAuthorityStoreError + NetworkAuthority) \<times> NetworkAuthority disk" where
  "install_descriptor authority w f =
     (case NetworkAuthorityStore_load f of
        Inl e \<Rightarrow> (Err e, f)
      | Inr (Some existing) \<Rightarrow> if existing \<noteq> authority then (Err DescriptorMismatch, f) else (Ok authority, f)
      | Inr None \<Rightarrow>
          (case store_disk Authority_Io w authority f of
             (Inl e, f') \<Rightarrow> (Err e, f') | (Inr _, f') \<Rightarrow> (Ok authority, f')))"

definition NetworkAuthorityStore_load_key :: "AuthorityKeyPair disk \<Rightarrow> NetworkAuthorityStoreError + AuthorityKeyPair option" where
  "NetworkAuthorityStore_load_key f = load_disk Authority_Io InvalidKeyLength f"

definition NetworkAuthorityStore_init ::
    "lib \<Rightarrow> NetworkId \<Rightarrow> AuthorityKeyPair \<Rightarrow> write_outcome \<Rightarrow> bool \<Rightarrow> write_outcome \<Rightarrow> AuthorityFiles
      \<Rightarrow> (NetworkAuthorityStoreError + NetworkAuthority) \<times> AuthorityFiles" where
  "NetworkAuthorityStore_init L network_id fresh wk chmod wd fs =
     (case NetworkAuthorityStore_load (af_descriptor fs) of
        Inl e \<Rightarrow> (Err e, fs)
      | Inr (Some existing) \<Rightarrow> (Ok existing, fs)
      | Inr None \<Rightarrow>
          let (authority, key) = NetworkAuthority_generate L fresh network_id;
              (rk, fk) = store_disk Authority_Io wk key (af_key fs);
              fs' = fs\<lparr>af_key := fk\<rparr>
          in if \<not> is_ok rk \<or> \<not> chmod then (Err Authority_Io, fs')
             else (case store_disk Authority_Io wd authority (af_descriptor fs') of
                     (Inl e, fd) \<Rightarrow> (Err e, fs'\<lparr>af_descriptor := fd\<rparr>)
                   | (Inr _, fd) \<Rightarrow> (Ok authority, fs'\<lparr>af_descriptor := fd\<rparr>)))"

definition NetworkAuthorityStore_load_with_key ::
    "lib \<Rightarrow> AuthorityFiles \<Rightarrow> NetworkAuthorityStoreError + (NetworkAuthority \<times> AuthorityKeyPair) option" where
  "NetworkAuthorityStore_load_with_key L fs =
     (case NetworkAuthorityStore_load (af_descriptor fs) of
        Inl e \<Rightarrow> Err e
      | Inr None \<Rightarrow> Ok None
      | Inr (Some authority) \<Rightarrow>
          (case NetworkAuthorityStore_load_key (af_key fs) of
             Inl e \<Rightarrow> Err e
           | Inr None \<Rightarrow> Ok None
           | Inr (Some key) \<Rightarrow>
               if AuthorityKeyPair_public_key L key \<noteq> na_authority_public_key authority then Err KeyMismatch
               else Ok (Some (authority, key))))"

datatype KeyStoreError = Key_Io | Key_InvalidLength

definition SisterKeyStore_load :: "SisterKeyPair disk \<Rightarrow> KeyStoreError + SisterKeyPair option" where
  "SisterKeyStore_load f = load_disk Key_Io Key_InvalidLength f"

definition write_key :: "'e \<Rightarrow> bool \<Rightarrow> write_outcome \<Rightarrow> arr32 \<Rightarrow> arr32 disk \<Rightarrow> ('e + unit) \<times> arr32 disk" where
  "write_key io chmod w key f =
     (let (r, f') = store_disk io w key f in if is_ok r \<and> \<not> chmod then (Err io, f') else (r, f'))"

definition SisterKeyStore_load_or_init ::
    "SisterKeyPair \<times> bool \<Rightarrow> write_outcome \<Rightarrow> SisterKeyPair disk \<Rightarrow> (KeyStoreError + SisterKeyPair) \<times> SisterKeyPair disk" where
  "SisterKeyStore_load_or_init q w f =
     (let (fresh, chmod) = q in
      case SisterKeyStore_load f of
        Inl e \<Rightarrow> (Err e, f)
      | Inr (Some key) \<Rightarrow> (Ok key, f)
      | Inr None \<Rightarrow>
          (case write_key Key_Io chmod w fresh f of
             (Inl e, f') \<Rightarrow> (Err e, f') | (Inr _, f') \<Rightarrow> (Ok fresh, f')))"

section \<open>The human operator\<close>

datatype HumanIdentityStoreError = Human_Io | Human_Json | Human_InvalidKeyLength | Human_KeyMismatch | MembershipCodec

record HumanFiles =
  hf_identity :: "HumanIdentity disk"
  hf_key :: "HumanKeyPair disk"
  hf_membership :: "HumanMembershipCertificate disk"

definition HumanIdentityStore_load :: "HumanFiles \<Rightarrow> HumanIdentityStoreError + HumanIdentity option" where
  "HumanIdentityStore_load fs = load_disk Human_Io Human_Json (hf_identity fs)"

definition HumanIdentityStore_load_key :: "HumanFiles \<Rightarrow> HumanIdentityStoreError + HumanKeyPair option" where
  "HumanIdentityStore_load_key fs = load_disk Human_Io Human_InvalidKeyLength (hf_key fs)"

definition HumanIdentityStore_load_membership :: "HumanFiles \<Rightarrow> HumanIdentityStoreError + HumanMembershipCertificate option" where
  "HumanIdentityStore_load_membership fs = load_disk Human_Io MembershipCodec (hf_membership fs)"

definition HumanIdentityStore_save_membership ::
    "write_outcome \<Rightarrow> HumanMembershipCertificate \<Rightarrow> HumanFiles \<Rightarrow> (HumanIdentityStoreError + unit) \<times> HumanFiles" where
  "HumanIdentityStore_save_membership w membership fs =
     (let (r, f) = store_disk Human_Io w membership (hf_membership fs) in (r, fs\<lparr>hf_membership := f\<rparr>))"

definition HumanIdentityStore_load_with_key ::
    "lib \<Rightarrow> HumanFiles \<Rightarrow> HumanIdentityStoreError + (HumanIdentity \<times> HumanKeyPair) option" where
  "HumanIdentityStore_load_with_key L fs =
     (case HumanIdentityStore_load fs of
        Inl e \<Rightarrow> Err e
      | Inr None \<Rightarrow> Ok None
      | Inr (Some identity) \<Rightarrow>
          (case HumanIdentityStore_load_key fs of
             Inl e \<Rightarrow> Err e
           | Inr None \<Rightarrow> Ok None
           | Inr (Some key) \<Rightarrow>
               if HumanKeyPair_public_key L key \<noteq> hi_public_key identity then Err Human_KeyMismatch
               else Ok (Some (identity, key))))"

definition HumanIdentityStore_load_or_init ::
    "lib \<Rightarrow> HumanId \<Rightarrow> HumanKeyPair \<Rightarrow> string option \<Rightarrow> write_outcome \<Rightarrow> bool \<Rightarrow> write_outcome \<Rightarrow> HumanFiles
      \<Rightarrow> (HumanIdentityStoreError + (HumanIdentity \<times> HumanKeyPair)) \<times> HumanFiles" where
  "HumanIdentityStore_load_or_init L fresh_id fresh display_name wk chmod wi fs =
     (case HumanIdentityStore_load_with_key L fs of
        Inl e \<Rightarrow> (Err e, fs)
      | Inr (Some existing) \<Rightarrow> (Ok existing, fs)
      | Inr None \<Rightarrow>
          if file_exists (hf_identity fs) \<or> file_exists (hf_key fs) then (Err Human_KeyMismatch, fs)
          else
            let identity = \<lparr>hi_id = fresh_id,
                  hi_display_name = (case display_name of Some n \<Rightarrow> if n \<noteq> [] then n else ''misaka operator''
                                     | None \<Rightarrow> ''misaka operator''),
                  hi_public_key = HumanKeyPair_public_key L fresh\<rparr>;
                (rk, fk) = write_key Human_Io chmod wk fresh (hf_key fs);
                fs' = fs\<lparr>hf_key := fk\<rparr>
            in case rk of
                 Inl e \<Rightarrow> (Err e, fs')
               | Inr _ \<Rightarrow>
                   (case store_disk Human_Io wi identity (hf_identity fs') of
                      (Inl e, fi) \<Rightarrow> (Err e, fs'\<lparr>hf_identity := fi\<rparr>)
                    | (Inr _, fi) \<Rightarrow> (Ok (identity, fresh), fs'\<lparr>hf_identity := fi\<rparr>)))"

section \<open>The local control token\<close>

datatype LocalControlTokenError = Token_Io | Token_Malformed nat

definition TOKEN_CHARS :: nat where
  "TOKEN_CHARS = 64"

definition ascii_hexdigit :: "char \<Rightarrow> bool" where
  "ascii_hexdigit c = (let n = (of_char c :: nat) in 48 \<le> n \<and> n \<le> 57 \<or> 65 \<le> n \<and> n \<le> 70 \<or> 97 \<le> n \<and> n \<le> 102)"

definition is_well_formed :: "string \<Rightarrow> bool" where
  "is_well_formed token \<longleftrightarrow> length token = TOKEN_CHARS \<and> list_all ascii_hexdigit token"

definition trim_newlines :: "string \<Rightarrow> string" where
  "trim_newlines s = rev (dropWhile (\<lambda>c. c = CHR 0x0A \<or> c = CHR 0x0D) (rev s))"

definition generate_token :: "arr32 \<Rightarrow> string" where
  "generate_token random = write_hex (word_bytes 32 random)"

definition LocalControlTokenStore_load :: "string disk \<Rightarrow> LocalControlTokenError + string option" where
  "LocalControlTokenStore_load f =
     (case load_disk Token_Io Token_Io f of
        Inl e \<Rightarrow> Err e
      | Inr None \<Rightarrow> Ok None
      | Inr (Some raw) \<Rightarrow>
          let token = trim_newlines raw
          in if \<not> is_well_formed token then Err (Token_Malformed (length token)) else Ok (Some token))"

definition LocalControlTokenStore_load_or_init ::
    "arr32 \<Rightarrow> bool \<Rightarrow> text_write \<Rightarrow> string disk \<Rightarrow> (LocalControlTokenError + string) \<times> string disk" where
  "LocalControlTokenStore_load_or_init random chmod w f =
     (case LocalControlTokenStore_load f of
        Inl e \<Rightarrow> (Err e, f)
      | Inr (Some token) \<Rightarrow> (Ok token, f)
      | Inr None \<Rightarrow>
          let token = generate_token random
          in ((if w = Text_written \<and> chmod then Ok token else Err Token_Io), write_text w token f))"

definition constant_time_eq :: "string \<Rightarrow> string \<Rightarrow> bool" where
  "constant_time_eq left right =
     (if length left \<noteq> length right then False
      else fold (\<lambda>(a, b) diff. diff OR (of_char a XOR of_char b)) (zip left right) (0 :: u8) = 0)"

section \<open>Gateways, identity and runtime marker\<close>

definition normalize_url :: "string \<Rightarrow> string" where
  "normalize_url url = trim_end_slash (trim url)"

definition GatewayStore_load :: "string list disk \<Rightarrow> string list" where
  "GatewayStore_load f =
     (case f of Holds urls \<Rightarrow> filter (\<lambda>url. url \<noteq> []) (map normalize_url urls) | _ \<Rightarrow> [])"

definition GatewayStore_save :: "write_outcome \<Rightarrow> string list \<Rightarrow> string list disk \<Rightarrow> (unit + unit) \<times> string list disk" where
  "GatewayStore_save w gateways f = store_disk () w gateways f"

definition GatewayStore_add :: "write_outcome \<Rightarrow> string \<Rightarrow> string list disk \<Rightarrow> (unit + bool) \<times> string list disk" where
  "GatewayStore_add w url f =
     (let normalized = normalize_url url
      in if normalized = [] then (Ok False, f)
         else let gateways = GatewayStore_load f
              in if normalized \<in> set gateways then (Ok False, f)
                 else (case GatewayStore_save w (sort (gateways @ [normalized])) f of
                         (Inl e, f') \<Rightarrow> (Err e, f') | (Inr _, f') \<Rightarrow> (Ok True, f')))"

definition GatewayStore_remove :: "write_outcome \<Rightarrow> string \<Rightarrow> string list disk \<Rightarrow> (unit + bool) \<times> string list disk" where
  "GatewayStore_remove w url f =
     (let normalized = normalize_url url;
          gateways = GatewayStore_load f;
          remaining = filter (\<lambda>existing. existing \<noteq> normalized) gateways
      in if length remaining = length gateways then (Ok False, f)
         else (case GatewayStore_save w remaining f of
                 (Inl e, f') \<Rightarrow> (Err e, f') | (Inr _, f') \<Rightarrow> (Ok True, f')))"

datatype IdentityStoreError = NoConfigDir | Identity_Io | Identity_Json

definition IdentityStore_generate :: "arr16 \<Rightarrow> string \<Rightarrow> string \<Rightarrow> string \<Rightarrow> string option \<Rightarrow> u16 \<Rightarrow> SisterIdentity" where
  "IdentityStore_generate uuid hostname platform version nickname listen_port =
     (let i = ucast (drop_bit 64 uuid) :: u64
      in \<lparr>si_id = i,
          si_nickname = (case nickname of Some n \<Rightarrow> if n \<noteq> [] then n else ''misaka-'' @ show_nat (unat i mod 100000)
                         | None \<Rightarrow> ''misaka-'' @ show_nat (unat i mod 100000)),
          si_hostname = hostname, si_platform = platform, si_version = version, si_listen_port = listen_port\<rparr>)"

definition IdentityStore_load :: "SisterIdentity disk \<Rightarrow> IdentityStoreError + SisterIdentity option" where
  "IdentityStore_load f = load_disk Identity_Io Identity_Json f"

definition IdentityStore_save :: "write_outcome \<Rightarrow> SisterIdentity \<Rightarrow> SisterIdentity disk \<Rightarrow> (IdentityStoreError + unit) \<times> SisterIdentity disk" where
  "IdentityStore_save w identity f = store_disk Identity_Io w identity f"

definition IdentityStore_load_or_init ::
    "write_outcome \<Rightarrow> write_outcome \<Rightarrow> (string option \<Rightarrow> u16 \<Rightarrow> SisterIdentity) \<Rightarrow> string option \<Rightarrow> u16 \<Rightarrow> SisterIdentity disk
      \<Rightarrow> (IdentityStoreError + SisterIdentity) \<times> SisterIdentity disk" where
  "IdentityStore_load_or_init wn wp generate nickname listen_port f =
     (case IdentityStore_load f of
        Inl e \<Rightarrow> (Err e, f)
      | Inr (Some existing) \<Rightarrow>
          let renamed = (case nickname of Some nick \<Rightarrow> existing\<lparr>si_nickname := nick\<rparr> | None \<Rightarrow> existing);
              (r, f1) = (case nickname of Some nick \<Rightarrow> IdentityStore_save wn renamed f | None \<Rightarrow> (Ok (), f));
              final = renamed\<lparr>si_listen_port := listen_port\<rparr>
          in (case r of
                Inl e \<Rightarrow> (Err e, f1)
              | Inr _ \<Rightarrow> (case IdentityStore_save wp final f1 of
                            (Inl e, f2) \<Rightarrow> (Err e, f2) | (Inr _, f2) \<Rightarrow> (Ok final, f2)))
      | Inr None \<Rightarrow>
          let fresh = generate nickname listen_port
          in (case IdentityStore_save wp fresh f of (Inl e, f') \<Rightarrow> (Err e, f') | (Inr _, f') \<Rightarrow> (Ok fresh, f')))"

definition update_nickname :: "write_outcome \<Rightarrow> string \<Rightarrow> SisterIdentity disk \<Rightarrow> (IdentityStoreError + SisterIdentity) \<times> SisterIdentity disk" where
  "update_nickname w nickname f =
     (case IdentityStore_load f of
        Inl e \<Rightarrow> (Err e, f)
      | Inr None \<Rightarrow> (Err NoConfigDir, f)
      | Inr (Some identity) \<Rightarrow>
          let identity' = identity\<lparr>si_nickname := nickname\<rparr>
          in (case IdentityStore_save w identity' f of (Inl e, f') \<Rightarrow> (Err e, f') | (Inr _, f') \<Rightarrow> (Ok identity', f')))"

record RuntimeInstance =
  ri_schema_version :: u32
  ri_instance_id :: string
  ri_pid :: u32
  ri_started_at :: u64
  ri_api_endpoint :: string
  ri_api_result_timeout_secs :: u64
  ri_binary_version :: string

datatype RuntimeInstanceError = Runtime_Io | Runtime_Malformed

text \<open>The marker is written to a temporary file and renamed, so it is replaced whole or not at all.\<close>

definition RuntimeInstanceStore_write ::
    "write_outcome \<Rightarrow> bool \<Rightarrow> RuntimeInstance \<Rightarrow> RuntimeInstance disk \<Rightarrow> (RuntimeInstanceError + unit) \<times> RuntimeInstance disk" where
  "RuntimeInstanceStore_write w rename instance' f =
     (if w = Written \<and> rename then (Ok (), Holds instance') else (Err Runtime_Io, f))"

definition RuntimeInstanceStore_load :: "RuntimeInstance disk \<Rightarrow> RuntimeInstanceError + RuntimeInstance option" where
  "RuntimeInstanceStore_load f = load_disk Runtime_Io Runtime_Malformed f"

definition remove_if_matches :: "bool \<Rightarrow> string \<Rightarrow> RuntimeInstance disk \<Rightarrow> bool \<times> RuntimeInstance disk" where
  "remove_if_matches unlink instance_id f =
     (case RuntimeInstanceStore_load f of
        Inr (Some i) \<Rightarrow> if ri_instance_id i = instance_id \<and> unlink then (True, Absent) else (False, f)
      | _ \<Rightarrow> (False, f))"

section \<open>Replay protection\<close>

definition nonce_key :: "CommandAuthorization \<Rightarrow> NetworkId \<times> arr16" where
  "nonce_key a = (ca_network_id a, ca_nonce a)"

definition record_nonce :: "CommandAuthorization \<times> write_outcome \<Rightarrow> u64 \<Rightarrow> NonceEntry list disk \<Rightarrow> NonceEntry list disk \<times> bool" where
  "record_nonce q now f =
     (let (r, f') = AuthorizationNonceStore_record (snd q) (fst q) now f in (f', is_ok r))"

text \<open>A nonce is blocked while an entry for it has not expired, and while the file cannot be read.\<close>

definition nonce_file_blocks :: "NonceEntry list disk \<Rightarrow> NetworkId \<times> arr16 \<Rightarrow> nat \<Rightarrow> bool" where
  "nonce_file_blocks f k t \<longleftrightarrow>
     (case f of Absent \<Rightarrow> False | Unreadable \<Rightarrow> True | Malformed \<Rightarrow> True
      | Holds es \<Rightarrow> \<exists>e\<in>set es. (ne_network_id e, ne_nonce e) = k \<and> t \<le> unat (ne_expires_at e))"

text \<open>A nonce is unspent at a time when the file can be read and holds no entry for it that is still
  kept at that time.\<close>

definition unspent :: "NonceEntry list disk \<Rightarrow> NetworkId \<Rightarrow> arr16 \<Rightarrow> u64 \<Rightarrow> bool" where
  "unspent f network nonce now \<longleftrightarrow>
     (case f of Absent \<Rightarrow> True | Unreadable \<Rightarrow> False | Malformed \<Rightarrow> False
      | Holds es \<Rightarrow> \<forall>e\<in>set es. ne_network_id e = network \<longrightarrow> ne_nonce e = nonce \<longrightarrow> ne_expires_at e < now)"

definition kept_nonces :: "u64 \<Rightarrow> NonceEntry list disk \<Rightarrow> NonceEntry list" where
  "kept_nonces now f = (case f of Holds es \<Rightarrow> filter (\<lambda>e. now \<le> ne_expires_at e) es | _ \<Rightarrow> [])"

lemma nonce_record_ok:
  "is_ok (fst (AuthorizationNonceStore_record w a now f)) \<longleftrightarrow>
     ca_network_id a = hmc_network_id (ca_membership a) \<and> unspent f (ca_network_id a) (ca_nonce a) now \<and> w = Written"
  by (cases f; cases w) (auto simp: AuthorizationNonceStore_record_def unspent_def Let_def not_le is_ok_def)

lemma nonce_record_file:
  "is_ok (fst (AuthorizationNonceStore_record w a now f)) \<Longrightarrow> AuthorizationNonceStore_record w a now f =
     (Ok (), Holds (kept_nonces now f @ [\<lparr>ne_network_id = ca_network_id a, ne_nonce = ca_nonce a, ne_expires_at = ca_expires_at a\<rparr>]))"
  by (cases f; cases w) (auto simp: AuthorizationNonceStore_record_def kept_nonces_def Let_def is_ok_def split: if_splits)

lemma record_nonce_True:
  "snd (record_nonce (a, w) now f) \<Longrightarrow>
     w = Written \<and> (\<exists>es. fst (record_nonce (a, w) now f) = Holds (es @
       [\<lparr>ne_network_id = ca_network_id a, ne_nonce = ca_nonce a, ne_expires_at = ca_expires_at a\<rparr>]))"
  by (cases w; cases f) (auto simp: record_nonce_def AuthorizationNonceStore_record_def Let_def split: if_splits)

lemma record_nonce_keep:
  assumes "nonce_file_blocks f k t" "unat now \<le> t"
  shows "nonce_file_blocks (fst (record_nonce (a, w) now f)) k t"
proof (cases f)
  case (Holds es)
  with assms obtain e where e: "e \<in> set es" "(ne_network_id e, ne_nonce e) = k" "t \<le> unat (ne_expires_at e)"
    by (auto simp: nonce_file_blocks_def)
  with assms(2) have "now \<le> ne_expires_at e" by (simp add: word_le_nat_alt)
  with e Holds show ?thesis
    by (cases w) (auto simp: record_nonce_def AuthorizationNonceStore_record_def Let_def nonce_file_blocks_def)
qed (use assms in \<open>cases w; auto simp: record_nonce_def AuthorizationNonceStore_record_def nonce_file_blocks_def\<close>)+

lemma record_nonce_refuse: "nonce_file_blocks f (nonce_key a) (unat now) \<Longrightarrow> \<not> snd (record_nonce (a, w) now f)"
  by (cases f; cases w) (auto simp: record_nonce_def AuthorizationNonceStore_record_def nonce_file_blocks_def
      nonce_key_def Let_def word_le_nat_alt)

interpretation command_nonces: replay_guard record_nonce "\<lambda>q. nonce_key (fst q)"
  "\<lambda>q now. Suc (unat (ca_expires_at (fst q)))" nonce_file_blocks "\<lambda>_ _. True" "\<lambda>_. True"
proof unfold_locales
  fix now :: u64 and s q t
  assume acc: "snd (record_nonce q now s)" and t: "t < Suc (unat (ca_expires_at (fst q)))"
  obtain a w where q: "q = (a, w)" by (cases q)
  from record_nonce_True [of a w now s] acc t q
  show "nonce_file_blocks (fst (record_nonce q now s)) (nonce_key (fst q)) t"
    by (auto simp: nonce_file_blocks_def nonce_key_def)
qed (use record_nonce_refuse record_nonce_keep in \<open>auto\<close>)

text \<open>A command authorization is recorded at most once before it expires: with a clock that does
  not run backwards, across any number of restarts and other records, and whatever writes fail or are
  interrupted, a nonce that was accepted is refused until after its expiry.\<close>

theorem command_nonce_single_use:
  assumes "sorted (map fst (before @ (t1, (a, w1)) # between @ [(t2, (b, w2))]))"
    and "ca_network_id b = ca_network_id a" "ca_nonce b = ca_nonce a" "t2 \<le> ca_expires_at a"
    and "snd (record_nonce (a, w1) t1 (guard_run record_nonce before f))"
  shows "\<not> snd (record_nonce (b, w2) t2 (guard_run record_nonce (before @ (t1, (a, w1)) # between) f))"
proof
  assume "snd (record_nonce (b, w2) t2 (guard_run record_nonce (before @ (t1, (a, w1)) # between) f))"
  with assms have "Suc (unat (ca_expires_at (fst (a, w1)))) \<le> unat t2"
    by (intro command_nonces.no_reuse [where t = 0 and s = f and before = before and between = between])
      (auto simp: nonce_key_def)
  with assms(4) show False by (simp add: word_le_nat_alt)
qed

definition sample_human :: HumanIdentity where
  "sample_human = \<lparr>hi_id = 3, hi_display_name = ''op'', hi_public_key = 6\<rparr>"

definition sample_human_membership :: HumanMembershipCertificate where
  "sample_human_membership = HumanMembershipCertificate_issue lib0 sample_authority 9 sample_human Operator 10 None 4"

definition sample_authorization :: CommandAuthorization where
  "sample_authorization = CommandAuthorization_issue lib0 7 sample_human sample_human_membership Operator JobSubmit
     (Some (Principal_Sister 2)) [] 20 300 77 6"

lemma sample_authorization_sel [simp]:
  "ca_network_id sample_authorization = 7" "ca_membership sample_authorization = sample_human_membership"
  "ca_nonce sample_authorization = 77" "ca_expires_at sample_authorization = 300"
  "ca_target sample_authorization = Some (Principal_Sister 2)" "ca_constraints sample_authorization = []"
  "ca_permission sample_authorization = JobSubmit"
  "hmc_network_id sample_human_membership = 7" "hmc_serial sample_human_membership = 4"
  by (simp_all add: sample_authorization_def CommandAuthorization_issue_def Let_def sample_human_membership_def
      HumanMembershipCertificate_issue_def sample_facts)

theorem command_nonce_single_use_witness:
  "\<not> snd (record_nonce (sample_authorization, Written) 60
     (guard_run record_nonce ([] @ (50, (sample_authorization, Written)) # []) Absent))"
proof (rule command_nonce_single_use)
  show "snd (record_nonce (sample_authorization, Written) 50 (guard_run record_nonce [] Absent))"
    by (simp add: record_nonce_def AuthorizationNonceStore_record_def Let_def)
qed simp_all

section \<open>Revocation is permanent\<close>

definition append_all ::
    "lib \<Rightarrow> (write_outcome \<times> NetworkAuthority \<times> RevocationRecord) list \<Rightarrow> RevocationRecord list disk \<Rightarrow> RevocationRecord list disk" where
  "append_all L ops f = fold (\<lambda>(w, authority, r) f. snd (RevocationStore_append L w authority r f)) ops f"

definition lists_revocation :: "RevocationRecord \<Rightarrow> RevocationRecord list disk \<Rightarrow> bool" where
  "lists_revocation r f \<longleftrightarrow>
     (case f of Absent \<Rightarrow> False | Unreadable \<Rightarrow> True | Malformed \<Rightarrow> True
      | Holds rs \<Rightarrow> \<exists>e\<in>set rs. rr_network_id e = rr_network_id r \<and> rr_membership_kind e = rr_membership_kind r
          \<and> rr_membership_serial e = rr_membership_serial r)"

lemma append_lists: "RevocationStore_append L w authority r f = (Ok (), f') \<Longrightarrow> lists_revocation r f'"
  by (cases f; cases w) (auto simp: RevocationStore_append_def RevocationStore_load_def RevocationStore_save_def
      lists_revocation_def split: if_splits)

lemma append_keeps: "lists_revocation r f \<Longrightarrow> lists_revocation r (snd (RevocationStore_append L w authority q f))"
  by (cases f; cases w) (auto simp: RevocationStore_append_def RevocationStore_load_def RevocationStore_save_def
      lists_revocation_def)

lemma append_all_keeps: "lists_revocation r f \<Longrightarrow> lists_revocation r (append_all L ops f)"
  unfolding append_all_def
  by (induction ops arbitrary: f) (auto simp: append_keeps split: prod.splits)

lemma revoked_in_listed:
  "e \<in> set rs \<Longrightarrow> rr_network_id e = n \<Longrightarrow> rr_membership_kind e = k \<Longrightarrow> rr_membership_serial e = s \<Longrightarrow>
     revoked_in L authority n k s rs \<noteq> Ok False"
  by (induction rs) auto

lemma appended_stays_revoked:
  assumes "RevocationStore_append L w authority r f = (Ok (), f')"
  shows "RevocationStore_is_revoked L authority' (rr_network_id r) (rr_membership_kind r) (rr_membership_serial r)
           (append_all L ops f') \<noteq> Ok False"
proof -
  have listed: "lists_revocation r (append_all L ops f')" by (rule append_all_keeps [OF append_lists [OF assms]])
  show ?thesis
  proof (cases "append_all L ops f'")
    case (Holds rs)
    with listed obtain e where "e \<in> set rs" "rr_network_id e = rr_network_id r" "rr_membership_kind e = rr_membership_kind r"
      "rr_membership_serial e = rr_membership_serial r" by (auto simp: lists_revocation_def)
    with Holds show ?thesis by (simp add: RevocationStore_is_revoked_def RevocationStore_load_def revoked_in_listed)
  qed (use listed in \<open>auto simp: lists_revocation_def RevocationStore_is_revoked_def RevocationStore_load_def\<close>)
qed

text \<open>Revocation cannot be undone or forgotten: once a record was appended successfully, no later
  query for that membership answers that it is not revoked, whatever further records are appended and
  whichever writes fail or are interrupted; a damaged file makes the query fail instead.\<close>

theorem revocation_permanent:
  assumes "RevocationStore_append L w authority r f = (Ok (), f')"
  shows "RevocationStore_is_revoked L authority' (rr_network_id r) (rr_membership_kind r) (rr_membership_serial r)
           (append_all L ops f') \<noteq> Ok False"
  using appended_stays_revoked [OF assms] .

definition sample_revocation :: RevocationRecord where
  "sample_revocation = RevocationRecord_issue lib0 sample_authority 9 MembershipKind_Sister 1 20 ''lost''"

theorem revocation_permanent_witness:
  "RevocationStore_is_revoked lib0 sample_authority (rr_network_id sample_revocation) (rr_membership_kind sample_revocation)
     (rr_membership_serial sample_revocation) (append_all lib0 [(Torn, sample_authority, sample_revocation)] (Holds [sample_revocation])) \<noteq> Ok False"
proof (rule revocation_permanent)
  show "RevocationStore_append lib0 Written sample_authority sample_revocation Absent = (Ok (), Holds [sample_revocation])"
    by (simp add: RevocationStore_append_def RevocationStore_load_def RevocationStore_save_def sample_revocation_def
        RevocationRecord_issue_verify sample_authority_def key_defs)
qed

section \<open>Serials\<close>

text \<open>One event of the life of the allocator: an allocation, or a restart that reopens the file.\<close>

datatype serial_event = Allocate text_write | Reopen

fun serial_step :: "serial_event \<Rightarrow> MembershipSerialStore \<times> u64 list \<Rightarrow> MembershipSerialStore \<times> u64 list" where
  "serial_step (Allocate w) (st, issued) =
     (case allocate w st of (Inr n, st') \<Rightarrow> (st', issued @ [n]) | (Inl _, st') \<Rightarrow> (st', issued))"
| "serial_step Reopen (st, issued) =
     (case MembershipSerialStore_open (ms_file st) of Inr st' \<Rightarrow> (st', issued) | Inl _ \<Rightarrow> (st, issued))"

fun torn :: "serial_event \<Rightarrow> bool" where
  "torn (Allocate (Text_torn n)) = True"
| "torn _ = False"

text \<open>Without torn writes the file always reopens to the state in memory, and the serials issued since
  \<open>base\<close> increase up to that state.\<close>

definition serial_inv :: "u64 \<Rightarrow> MembershipSerialStore \<times> u64 list \<Rightarrow> bool" where
  "serial_inv base x \<longleftrightarrow> sorted_wrt (<) (snd x) \<and> (\<forall>n\<in>set (snd x). base < n \<and> n \<le> ms_state (fst x))
     \<and> base \<le> ms_state (fst x) \<and> MembershipSerialStore_open (ms_file (fst x)) = Ok (fst x)"

lemma open_written: "MembershipSerialStore_open (Holds (show_nat (unat n))) = Ok \<lparr>ms_file = Holds (show_nat (unat n)), ms_state = n\<rparr>"
  by (simp add: MembershipSerialStore_open_def MembershipSerialStore_read_def trim_show parse_u64_show)

lemma serial_inv_step:
  assumes "serial_inv base x" "\<not> torn e" "ms_state (fst x) \<noteq> - 1"
  shows "serial_inv base (serial_step e x) \<and> unat (ms_state (fst (serial_step e x))) \<le> Suc (unat (ms_state (fst x)))"
proof -
  obtain st issued where x: "x = (st, issued)" by (cases x)
  show ?thesis
  proof (cases e)
    case (Allocate w)
    show ?thesis
    proof (cases w)
      case Text_written
      let ?n = "saturating_add (ms_state st) 1"
      have "ms_state st < ?n" using saturating_add_one_gr assms(3) x by simp
      moreover have "unat ?n \<le> Suc (unat (ms_state st))" by (simp add: unat_saturating_add)
      ultimately show ?thesis
        using assms(1) Allocate Text_written x
        by (fastforce simp: serial_inv_def allocate_def Let_def write_text_def open_written sorted_wrt_append)
    next
      case Text_not_opened
      then show ?thesis using assms(1) Allocate x by (simp add: allocate_def Let_def write_text_def)
    qed (use assms(2) Allocate in simp)
  next
    case Reopen
    then show ?thesis using assms(1) x by (simp add: serial_inv_def)
  qed
qed

lemma serial_inv_run:
  assumes "serial_inv base x" "list_all (\<lambda>e. \<not> torn e) es" "unat (ms_state (fst x)) + length es < 2 ^ 64 - 1"
  shows "serial_inv base (fold serial_step es x)"
  using assms
proof (induction es arbitrary: x)
  case (Cons e es)
  have "ms_state (fst x) \<noteq> - 1" using Cons.prems(3) by (auto simp: unat_minus_one_word)
  with serial_inv_step [of base x e] Cons.prems
  have "serial_inv base (serial_step e x)" "unat (ms_state (fst (serial_step e x))) \<le> Suc (unat (ms_state (fst x)))" by auto
  with Cons show ?case by auto
qed simp

text \<open>Serials are never reused: over any number of allocations, failed writes and restarts, as long
  as no write is cut short and the 64-bit range is not exhausted, the issued serials strictly increase
  and all exceed every serial the file recorded before.\<close>

theorem serials_increase:
  assumes "MembershipSerialStore_open f = Ok st" "list_all (\<lambda>e. \<not> torn e) es"
    and "unat (ms_state st) + length es < 2 ^ 64 - 1"
  shows "sorted_wrt (<) (snd (fold serial_step es (st, []))) \<and> (\<forall>n\<in>set (snd (fold serial_step es (st, []))). ms_state st < n)"
proof -
  have "ms_file st = f" using assms(1) by (auto simp: MembershipSerialStore_open_def split: sum.splits option.splits)
  with assms(1) have "serial_inv (ms_state st) (st, [])" by (simp add: serial_inv_def)
  from serial_inv_run [OF this assms(2)] assms(3) show ?thesis by (simp add: serial_inv_def)
qed

theorem serials_increase_witness:
  "snd (fold serial_step [Allocate Text_written, Reopen, Allocate Text_written] (\<lparr>ms_file = Absent, ms_state = 0\<rparr>, [])) = [1, 2]
   \<and> sorted_wrt (<) [1, 2 :: u64]"
proof -
  have run: "snd (fold serial_step [Allocate Text_written, Reopen, Allocate Text_written] (\<lparr>ms_file = Absent, ms_state = 0\<rparr>, [])) = [1, 2]"
    using open_written [of 1] by (simp add: allocate_def write_text_def saturating_add_def)
  have "MembershipSerialStore_open Absent = Ok \<lparr>ms_file = Absent, ms_state = 0\<rparr>"
    by (simp add: MembershipSerialStore_open_def MembershipSerialStore_read_def)
  from serials_increase [OF this, of "[Allocate Text_written, Reopen, Allocate Text_written]"] run show ?thesis by simp
qed

lemma take_show_nat:
  "0 < k \<Longrightarrow> k \<le> length (show_nat n) \<Longrightarrow> 0 < n \<Longrightarrow>
     \<exists>m. take k (show_nat n) = show_nat m \<and> 0 < m \<and> m \<le> n \<and> (k < length (show_nat n) \<longrightarrow> m \<le> n div 10)"
proof (induction n rule: show_nat.induct)
  case (1 n)
  consider "n < 10" | "10 \<le> n" "k = length (show_nat n)" | "10 \<le> n" "k \<le> length (show_nat (n div 10))"
    using 1(3) show_nat.simps [of n] by fastforce
  then show ?case
  proof cases
    case 1
    then have "show_nat n = [digit_char n]" by (simp add: show_nat.simps)
    with "1.prems" show ?thesis by (intro exI [of _ n]) auto
  next
    case 2
    with "1.prems" show ?thesis by (intro exI [of _ n]) auto
  next
    case 3
    with "1.IH" "1.prems" obtain m where m: "take k (show_nat (n div 10)) = show_nat m" "0 < m" "m \<le> n div 10" by fastforce
    moreover have "take k (show_nat n) = take k (show_nat (n div 10))" using 3 show_nat.simps [of n] by simp
    moreover have "m \<le> n" using m(3) div_le_dividend [of n 10] by (rule order_trans)
    ultimately show ?thesis by auto
  qed
qed

lemma of_nat_u64:
  "Suc n < 2 ^ 64 \<Longrightarrow> saturating_add (of_nat n) 1 = (of_nat (Suc n) :: u64)"
  "n < 2 ^ 64 \<Longrightarrow> unat (of_nat n :: u64) = n"
  by (simp_all add: saturating_add_def unsigned_of_nat take_bit_nat_eq_self)

lemma serials_issued:
  "s < 2 ^ 64 \<Longrightarrow> fold serial_step (replicate s (Allocate Text_written)) (\<lparr>ms_file = Absent, ms_state = 0\<rparr>, []) =
     (\<lparr>ms_file = (if s = 0 then Absent else Holds (show_nat s)), ms_state = of_nat s\<rparr>, map of_nat [1..<Suc s])"
proof (induction s)
  case (Suc s)
  from Suc.prems have "saturating_add (of_nat s) 1 = (of_nat (Suc s) :: u64)" "unat (of_nat (Suc s) :: u64) = Suc s"
    by (simp_all only: of_nat_u64)
  with Suc show ?case
    by (simp add: replicate_append_same [symmetric] allocate_def write_text_def Let_def del: replicate_Suc of_nat_Suc)
qed simp

text \<open>C31: A write that is cut short rewinds the allocator: once nine or more serials have been issued,
  whenever the write of the next number is interrupted after some but not all of its digits, the
  serial issued after the restart is one that is already in use.\<close>

theorem serial_rewinds_after_torn_write:
  assumes "9 \<le> s" "s < 2 ^ 64 - 1" "0 < k" "k < length (show_nat (Suc s))"
    and "fold serial_step (replicate s (Allocate Text_written)) (\<lparr>ms_file = Absent, ms_state = 0\<rparr>, []) = (st, issued)"
  shows "\<exists>n\<in>set issued. snd (fold serial_step [Allocate (Text_torn k), Reopen, Allocate Text_written] (st, issued)) = issued @ [n]"
proof -
  have st: "ms_state st = of_nat s" "issued = map of_nat [1..<Suc s]"
    using serials_issued [of s] assms(2, 5) by auto
  have add: "saturating_add (of_nat n) 1 = (of_nat (Suc n) :: u64)" "unat (of_nat (Suc n) :: u64) = Suc n" if "n \<le> s" for n
    using that assms(2) by (simp_all add: of_nat_u64 del: of_nat_Suc)
  obtain m where m: "take k (show_nat (Suc s)) = show_nat m" "0 < m" "m \<le> Suc s div 10"
    using take_show_nat [of k "Suc s"] assms(3, 4) by auto
  have small: "Suc m \<le> s" using m(3) assms(1) by linarith
  have "unat (of_nat m :: u64) = m" using small assms(2) by (simp add: of_nat_u64)
  then have reopen: "MembershipSerialStore_open (Holds (show_nat m)) = Ok \<lparr>ms_file = Holds (show_nat m), ms_state = of_nat m\<rparr>"
    using open_written [of "of_nat m"] by simp
  have "min k (length (show_nat (Suc s)) - 1) = k" using assms(4) by simp
  then have "snd (fold serial_step [Allocate (Text_torn k), Reopen, Allocate Text_written] (st, issued)) = issued @ [of_nat (Suc m)]"
    using st(1) add [of s] add [of m] small m(1) reopen
    by (simp add: allocate_def write_text_def Let_def del: of_nat_Suc)
  moreover have "of_nat (Suc m) \<in> set issued" using small unfolding st(2) set_map by (intro imageI) auto
  ultimately show ?thesis by blast
qed

theorem serial_rewinds_after_torn_write_witness:
  "snd (fold serial_step (replicate 122 (Allocate Text_written) @ [Allocate (Text_torn 1), Reopen, Allocate Text_written])
     (\<lparr>ms_file = Absent, ms_state = 0\<rparr>, [])) \<in> (\<lambda>n. map of_nat [1..<123] @ [n]) ` set (map of_nat [1..<123])"
proof -
  let ?issued = "map of_nat [1..<123] :: u64 list"
  have run: "fold serial_step (replicate 122 (Allocate Text_written)) (\<lparr>ms_file = Absent, ms_state = 0\<rparr>, [])
      = (\<lparr>ms_file = Holds (show_nat 122), ms_state = 122\<rparr>, ?issued)"
    using serials_issued [of 122] by (simp del: upt_rec_numeral)
  have digits: "length (show_nat 123) = 3" by code_simp
  have "\<exists>n\<in>set ?issued. snd (fold serial_step [Allocate (Text_torn 1), Reopen, Allocate Text_written]
      (\<lparr>ms_file = Holds (show_nat 122), ms_state = 122\<rparr>, ?issued)) = ?issued @ [n]"
    by (rule serial_rewinds_after_torn_write [OF _ _ _ _ run]) (simp_all add: digits)
  then show ?thesis unfolding fold_append comp_apply run by (auto simp del: upt_rec_numeral)
qed

section \<open>The binding\<close>

text \<open>The binding a Sister publishes verifies, names it, its key and its current endpoint. A stored
  binding is kept as long as the endpoint is the same, and a new endpoint gets the next sequence number,
  which is greater than the stored one unless the 64-bit range is exhausted; a binding of another
  identity is never overwritten.\<close>

theorem binding_rotation:
  assumes "ed25519_correct L"
    and "TransportBindingStore_load_or_update L w chmod network_id sister_id endpoint_id key f = (Ok b, f')"
  shows "TransportBinding_verify L b \<and> tb_network_id b = network_id \<and> tb_sister_id b = sister_id
      \<and> tb_sister_public_key b = SisterKeyPair_public_key L key \<and> tb_iroh_endpoint_id b = endpoint_id \<and> f' = Holds b
      \<and> (f = Absent \<and> tb_sequence b = 0
         \<or> (\<exists>e. f = Holds e \<and> tb_network_id e = network_id \<and> tb_sister_id e = sister_id
              \<and> (if tb_iroh_endpoint_id e = endpoint_id then b = e
                 else tb_sequence e < tb_sequence b \<or> tb_sequence e = - 1 \<and> tb_sequence b = - 1)))"
proof -
  have sat: "\<not> e < saturating_add e 1 \<Longrightarrow> e = - 1 \<and> saturating_add e 1 = - 1" for e :: u64
    using saturating_add_one_gr [of e] by (cases "e = - 1") (simp_all add: saturating_add_def unat_minus_one_word)
  have signed: "TransportBinding_verify L (TransportBinding_sign L network_id sister_id endpoint_id n key)" for n
    by (rule TransportBinding_sign_verify [OF assms(1)])
  show ?thesis
    using assms(2) signed
    by (cases f; cases w; cases chmod)
      (auto simp: TransportBindingStore_load_or_update_def TransportBindingStore_load_def TransportBindingStore_save_def
         TransportBinding_sign_sel Let_def split: if_splits dest: sat)
qed

theorem binding_rotation_witness:
  "tb_sequence (TransportBinding_sign lib0 7 2 12 1 5) = 1
   \<and> TransportBinding_verify lib0 (TransportBinding_sign lib0 7 2 12 1 5)"
proof -
  have "TransportBindingStore_load_or_update lib0 Written True 7 2 12 5 (Holds (TransportBinding_sign lib0 7 2 11 0 5))
      = (Ok (TransportBinding_sign lib0 7 2 12 1 5), Holds (TransportBinding_sign lib0 7 2 12 1 5))"
    using TransportBinding_sign_verify [OF lib0_ed25519, of 7 2 11 0 5]
    by (simp add: TransportBindingStore_load_or_update_def TransportBindingStore_load_def TransportBindingStore_save_def
        TransportBinding_sign_sel Let_def saturating_add_def)
  from binding_rotation [OF lib0_ed25519 this] show ?thesis by (simp add: TransportBinding_sign_sel)
qed

section \<open>Write-once trust anchors\<close>

text \<open>
  The contract of the \<open>load_or_init\<close> family: what is there is returned or refused but never replaced,
  a damaged file is an error and is left alone, and a value is returned only when a later reader will
  find it.
\<close>

locale write_once =
  fixes read :: "'f \<Rightarrow> 'e + 'v option"
    and init :: "'q \<Rightarrow> 'f \<Rightarrow> ('e + 'v) \<times> 'f"
  assumes init_readable: "init q f = (Ok v, f') \<Longrightarrow> read f' = Ok (Some v)"
    and init_present: "read f = Ok (Some v) \<Longrightarrow> snd (init q f) = f \<and> (\<forall>v'. fst (init q f) = Ok v' \<longrightarrow> v' = v)"
    and init_damaged: "read f = Err e \<Longrightarrow> init q f = (Err e, f)"
begin

lemma stays: "read f = Ok (Some v) \<Longrightarrow> fold (\<lambda>q f. snd (init q f)) qs f = f"
  by (induction qs arbitrary: f) (simp_all add: init_present)

lemma stable:
  assumes "init q f = (Ok v, f')" "fst (init q' (fold (\<lambda>q f. snd (init q f)) qs f')) = Ok v'"
  shows "v' = v"
proof -
  have "read f' = Ok (Some v)" by (rule init_readable [OF assms(1)])
  with assms(2) stays [OF this, of qs] init_present [OF this, of q'] show ?thesis by simp
qed

end

definition init_network_id :: "(NetworkId option \<times> NetworkId) \<times> write_outcome \<Rightarrow> NetworkId disk \<Rightarrow> (NetworkIdStoreError + NetworkId) \<times> NetworkId disk" where
  "init_network_id q f = NetworkIdStore_load_or_init (fst q) (snd q) f"

definition init_sister_key :: "(SisterKeyPair \<times> bool) \<times> write_outcome \<Rightarrow> SisterKeyPair disk \<Rightarrow> (KeyStoreError + SisterKeyPair) \<times> SisterKeyPair disk" where
  "init_sister_key q f = SisterKeyStore_load_or_init (fst q) (snd q) f"

definition init_descriptor :: "NetworkAuthority \<times> write_outcome \<Rightarrow> NetworkAuthority disk \<Rightarrow> (NetworkAuthorityStoreError + NetworkAuthority) \<times> NetworkAuthority disk" where
  "init_descriptor q f = install_descriptor (fst q) (snd q) f"

definition init_token :: "(arr32 \<times> bool) \<times> text_write \<Rightarrow> string disk \<Rightarrow> (LocalControlTokenError + string) \<times> string disk" where
  "init_token q f = LocalControlTokenStore_load_or_init (fst (fst q)) (snd (fst q)) (snd q) f"

definition init_authority ::
    "lib \<Rightarrow> (NetworkId \<times> AuthorityKeyPair) \<times> (write_outcome \<times> bool \<times> write_outcome) \<Rightarrow> AuthorityFiles
      \<Rightarrow> (NetworkAuthorityStoreError + NetworkAuthority) \<times> AuthorityFiles" where
  "init_authority L q fs = (case q of ((n, k), (wk, c, wd)) \<Rightarrow> NetworkAuthorityStore_init L n k wk c wd fs)"

definition init_human ::
    "lib \<Rightarrow> (HumanId \<times> HumanKeyPair \<times> string option) \<times> (write_outcome \<times> bool \<times> write_outcome) \<Rightarrow> HumanFiles
      \<Rightarrow> (HumanIdentityStoreError + (HumanIdentity \<times> HumanKeyPair)) \<times> HumanFiles" where
  "init_human L q fs = (case q of ((i, k, name), (wk, c, wi)) \<Rightarrow> HumanIdentityStore_load_or_init L i k name wk c wi fs)"

lemma word_bytes_length: "length (word_bytes n w) = n"
  by (simp add: word_bytes_def)

lemma hex_digit_ascii: "n < 16 \<Longrightarrow> ascii_hexdigit (hex_digit n)"
proof -
  have "list_all (\<lambda>n. ascii_hexdigit (hex_digit n)) [0..<16]" by code_simp
  then show "n < 16 \<Longrightarrow> ascii_hexdigit (hex_digit n)" by (auto simp: list_all_iff)
qed

lemma write_hex_hexdigits: "length (write_hex bs) = 2 * length bs \<and> list_all ascii_hexdigit (write_hex bs)"
proof (induction bs)
  case (Cons b bs)
  have "unat b < 256" using unsigned_less [of b] by simp
  then have "unat b div 16 < 16" "unat b mod 16 < 16" by auto
  with Cons show ?case by (simp add: write_hex_def hex_digit_ascii)
qed (simp add: write_hex_def)

lemma generated_token: "is_well_formed (generate_token r) \<and> trim_newlines (generate_token r) = generate_token r"
proof -
  have len: "length (generate_token r) = 64" and hex: "list_all ascii_hexdigit (generate_token r)"
    using write_hex_hexdigits [of "word_bytes 32 r"] by (simp_all add: generate_token_def word_bytes_length)
  then obtain c cs where c: "rev (generate_token r) = c # cs" by (cases "rev (generate_token r)") auto
  then have "c \<in> set (generate_token r)" by (metis list.set_intros(1) set_rev)
  with hex have "ascii_hexdigit c" by (auto simp: list_all_iff)
  then have "c \<noteq> CHR 0x0A \<and> c \<noteq> CHR 0x0D" by (auto simp: ascii_hexdigit_def)
  with c have "trim_newlines (generate_token r) = rev (rev (generate_token r))" by (simp add: trim_newlines_def)
  with len hex show ?thesis by (simp add: is_well_formed_def TOKEN_CHARS_def)
qed

interpretation network_id_once: write_once NetworkIdStore_load init_network_id
proof unfold_locales
  show "init_network_id q f = (Ok v, f') \<Longrightarrow> NetworkIdStore_load f' = Ok (Some v)" for q f v f'
    by (cases f; cases "snd q") (auto simp: init_network_id_def NetworkIdStore_load_or_init_def NetworkIdStore_load_def Let_def
        split: if_splits option.splits prod.splits)
qed (auto simp: init_network_id_def NetworkIdStore_load_or_init_def split: option.splits prod.splits)

interpretation sister_key_once: write_once SisterKeyStore_load init_sister_key
proof unfold_locales
  show "init_sister_key q f = (Ok v, f') \<Longrightarrow> SisterKeyStore_load f' = Ok (Some v)" for q f v f'
    by (cases f; cases "snd q") (auto simp: init_sister_key_def SisterKeyStore_load_or_init_def SisterKeyStore_load_def
        write_key_def Let_def split: if_splits prod.splits)
qed (auto simp: init_sister_key_def SisterKeyStore_load_or_init_def split: prod.splits)

interpretation descriptor_once: write_once NetworkAuthorityStore_load init_descriptor
proof unfold_locales
  show "init_descriptor q f = (Ok v, f') \<Longrightarrow> NetworkAuthorityStore_load f' = Ok (Some v)" for q f v f'
    by (cases f; cases "snd q") (auto simp: init_descriptor_def install_descriptor_def NetworkAuthorityStore_load_def
        split: if_splits)
qed (auto simp: init_descriptor_def install_descriptor_def)

interpretation token_once: write_once LocalControlTokenStore_load init_token
proof unfold_locales
  show "init_token q f = (Ok v, f') \<Longrightarrow> LocalControlTokenStore_load f' = Ok (Some v)" for q f v f'
    using generated_token [of "fst (fst q)"]
    by (auto simp: init_token_def LocalControlTokenStore_load_or_init_def LocalControlTokenStore_load_def Let_def write_text_def
        split: sum.splits option.splits if_splits)
qed (auto simp: init_token_def LocalControlTokenStore_load_or_init_def)

interpretation authority_once: write_once "\<lambda>fs. NetworkAuthorityStore_load (af_descriptor fs)" "init_authority L" for L
proof unfold_locales
  show "init_authority L q fs = (Ok v, fs') \<Longrightarrow> NetworkAuthorityStore_load (af_descriptor fs') = Ok (Some v)" for q fs v fs'
    by (cases "af_descriptor fs"; cases "fst (snd q)"; cases "snd (snd (snd q))")
      (auto simp: init_authority_def NetworkAuthorityStore_init_def NetworkAuthorityStore_load_def NetworkAuthority_generate_def
         Let_def split: if_splits prod.splits)
qed (auto simp: init_authority_def NetworkAuthorityStore_init_def split: prod.splits)

interpretation human_once: write_once "HumanIdentityStore_load_with_key L" "init_human L" for L
proof unfold_locales
  show "init_human L q fs = (Ok v, fs') \<Longrightarrow> HumanIdentityStore_load_with_key L fs' = Ok (Some v)" for q fs v fs'
    by (cases "hf_identity fs"; cases "hf_key fs"; cases "fst (snd q)"; cases "snd (snd (snd q))")
      (auto simp: init_human_def HumanIdentityStore_load_or_init_def HumanIdentityStore_load_with_key_def
         HumanIdentityStore_load_def HumanIdentityStore_load_key_def write_key_def Let_def split: if_splits prod.splits)
qed (auto simp: init_human_def HumanIdentityStore_load_or_init_def split: prod.splits)

text \<open>C29: Trust anchors are write-once. For the network id, the Sister key, the authority descriptor, the
  authority created locally, the human identity and the control token alike: once a start has
  returned a value, every later start that returns one returns the same value, whatever was requested,
  generated or failed to be written in the starts between.\<close>

theorem trust_anchors_stable:
  shows "(init_network_id qN fN = (Ok n, fN') \<longrightarrow> fst (init_network_id pN (fold (\<lambda>q f. snd (init_network_id q f)) qsN fN')) = Ok n' \<longrightarrow> n' = n)
    \<and> (init_sister_key qK fK = (Ok k, fK') \<longrightarrow> fst (init_sister_key pK (fold (\<lambda>q f. snd (init_sister_key q f)) qsK fK')) = Ok k' \<longrightarrow> k' = k)
    \<and> (init_descriptor qD fD = (Ok a, fD') \<longrightarrow> fst (init_descriptor pD (fold (\<lambda>q f. snd (init_descriptor q f)) qsD fD')) = Ok a' \<longrightarrow> a' = a)
    \<and> (init_authority L qA fA = (Ok r, fA') \<longrightarrow> fst (init_authority L pA (fold (\<lambda>q f. snd (init_authority L q f)) qsA fA')) = Ok r' \<longrightarrow> r' = r)
    \<and> (init_human L qH fH = (Ok h, fH') \<longrightarrow> fst (init_human L pH (fold (\<lambda>q f. snd (init_human L q f)) qsH fH')) = Ok h' \<longrightarrow> h' = h)
    \<and> (init_token qT fT = (Ok t, fT') \<longrightarrow> fst (init_token pT (fold (\<lambda>q f. snd (init_token q f)) qsT fT')) = Ok t' \<longrightarrow> t' = t)"
  by (intro conjI impI;
      (erule (1) network_id_once.stable | erule (1) sister_key_once.stable | erule (1) descriptor_once.stable
        | erule (1) authority_once.stable | erule (1) human_once.stable | erule (1) token_once.stable))

theorem trust_anchors_stable_witness:
  "fst (init_sister_key ((8, True), Written) (fold (\<lambda>q f. snd (init_sister_key q f)) [((6, True), Torn)] (Holds 5))) = Ok 5
   \<and> fst (init_token ((1, True), Text_written) (fold (\<lambda>q f. snd (init_token q f)) [] (Holds (generate_token 9)))) = Ok (generate_token 9)"
proof -
  have key: "init_sister_key ((5, True), Written) Absent = (Ok 5, Holds 5)"
    by (simp add: init_sister_key_def SisterKeyStore_load_or_init_def SisterKeyStore_load_def write_key_def)
  obtain k where k: "fst (init_sister_key ((8, True), Written) (fold (\<lambda>q f. snd (init_sister_key q f)) [((6, True), Torn)] (Holds 5))) = Ok k"
    by (simp add: init_sister_key_def SisterKeyStore_load_or_init_def SisterKeyStore_load_def)
  have tok: "init_token ((9, True), Text_written) Absent = (Ok (generate_token 9), Holds (generate_token 9))"
    by (simp add: init_token_def LocalControlTokenStore_load_or_init_def LocalControlTokenStore_load_def write_text_def Let_def)
  obtain t where t: "fst (init_token ((1, True), Text_written) (fold (\<lambda>q f. snd (init_token q f)) [] (Holds (generate_token 9)))) = Ok t"
    using generated_token [of 9] by (simp add: init_token_def LocalControlTokenStore_load_or_init_def LocalControlTokenStore_load_def)
  note stable = trust_anchors_stable [where qK = "((5, True), Written)" and fK = Absent and k = 5 and fK' = "Holds 5"
      and pK = "((8, True), Written)" and qsK = "[((6, True), Torn)]" and k' = k
      and qT = "((9, True), Text_written)" and fT = Absent and t = "generate_token 9" and fT' = "Holds (generate_token 9)"
      and pT = "((1, True), Text_written)" and qsT = "[]" and t' = t]
  have "k = 5" by (rule mp [OF mp [OF stable [THEN conjunct2, THEN conjunct1] key] k])
  moreover have "t = generate_token 9"
    by (rule mp [OF mp [OF stable [THEN conjunct2, THEN conjunct2, THEN conjunct2, THEN conjunct2, THEN conjunct2] tok] t])
  ultimately show ?thesis using k t by simp
qed

lemma constant_time_fold:
  "fold (\<lambda>(a, b) diff. diff OR (of_char a XOR of_char b)) ps d = (0 :: u8) \<longleftrightarrow> d = 0 \<and> (\<forall>(a, b)\<in>set ps. a = b)"
proof (induction ps arbitrary: d)
  case (Cons p ps)
  obtain a b where p: "p = (a, b)" by (cases p)
  have "d OR (of_char a XOR of_char b) = (0 :: u8) \<longleftrightarrow> d = 0 \<and> (of_char a :: u8) = of_char b"
    by (metis bit.xor_left_self bit.xor_self or_eq_0_iff xor.right_neutral)
  moreover have "(of_char a :: u8) = of_char b \<longleftrightarrow> a = b" by (rule of_char_u8_eq_iff)
  ultimately show ?case using Cons p by auto
qed simp

text \<open>The constant-time comparison of control tokens decides equality.\<close>

theorem constant_time_eq_exact: "constant_time_eq left right \<longleftrightarrow> left = right"
proof -
  have "length left = length right \<Longrightarrow> (\<forall>(a, b)\<in>set (zip left right). a = b) \<longleftrightarrow> left = right"
    by (auto simp: set_zip list_eq_iff_nth_eq)
  then show ?thesis by (auto simp: constant_time_eq_def constant_time_fold)
qed

section \<open>The gateway list\<close>

lemma load_written: "GatewayStore_load (Holds urls) = filter (\<lambda>url. url \<noteq> []) (map normalize_url urls)"
  by (simp add: GatewayStore_load_def)

text \<open>Adding a gateway url that is already in normal form (as every url without trailing blanks or
  slashes is) to a list in normal form adds exactly it; adding it again changes nothing, and removing
  it gives back the old set.\<close>

theorem gateway_add_remove:
  assumes "GatewayStore_load f = gs" "\<forall>g\<in>set gs. normalize_url g = g" "normalize_url url = url" "url \<noteq> []" "url \<notin> set gs"
  shows "\<exists>f'. GatewayStore_add Written url f = (Ok True, f') \<and> set (GatewayStore_load f') = insert url (set gs)
    \<and> sorted (GatewayStore_load f') \<and> GatewayStore_add w url f' = (Ok False, f')
    \<and> (\<exists>f''. GatewayStore_remove Written url f' = (Ok True, f'') \<and> set (GatewayStore_load f'') = set gs)"
proof -
  let ?l = "sort (gs @ [url])"
  have nonempty: "\<forall>g\<in>set gs. g \<noteq> []" using assms(1) by (cases f) (auto simp: GatewayStore_load_def)
  have norm: "map normalize_url xs = xs" "filter (\<lambda>url. url \<noteq> []) xs = xs" if "set xs \<subseteq> insert url (set gs)" for xs
    using that assms(2, 3, 4) nonempty by (auto intro!: map_idI filter_True)
  have add: "GatewayStore_add Written url f = (Ok True, Holds ?l)"
    using assms by (simp add: GatewayStore_add_def GatewayStore_save_def Let_def)
  have load: "GatewayStore_load (Holds ?l) = ?l" by (simp add: load_written norm)
  have less: "length (filter (\<lambda>g. g \<noteq> url) ?l) < length ?l"
    by (rule length_filter_less [of url]) auto
  let ?r = "filter (\<lambda>g. g \<noteq> url) ?l"
  have rem: "GatewayStore_remove Written url (Holds ?l) = (Ok True, Holds ?r)"
    using less load assms(3) by (simp add: GatewayStore_remove_def GatewayStore_save_def Let_def)
  have "set ?r \<subseteq> insert url (set gs)" by auto
  from norm [OF this] have "set (GatewayStore_load (Holds ?r)) = set gs" using assms(5) by (auto simp: load_written)
  moreover have "GatewayStore_add w url (Holds ?l) = (Ok False, Holds ?l)"
    using load assms(3, 4) by (simp add: GatewayStore_add_def Let_def)
  ultimately show ?thesis using add load rem by auto
qed

theorem gateway_add_remove_witness:
  "\<exists>f'. GatewayStore_add Written ''http://g'' Absent = (Ok True, f') \<and> set (GatewayStore_load f') = {''http://g''}"
proof -
  have "normalize_url ''http://g'' = ''http://g''"
    by (simp add: normalize_url_def trim_graphic graphic_def trim_end_slash_def)
  from gateway_add_remove [of Absent "[]" "''http://g''" Written] this show ?thesis by (auto simp: GatewayStore_load_def)
qed

text \<open>Normalisation is not idempotent, so adding is not either: a url that ends in a blank and a slash
  is stored with the blank, read back without it, and reported as new and stored again by the same
  call.\<close>

theorem gateway_add_not_idempotent:
  "GatewayStore_add Written ''a /'' Absent = (Ok True, Holds [''a ''])
   \<and> GatewayStore_load (Holds [''a '']) = [''a'']
   \<and> GatewayStore_add Written ''a /'' (Holds [''a '']) = (Ok True, Holds [''a'', ''a ''])"
proof -
  have once: "normalize_url ''a /'' = ''a ''"
    by (simp add: normalize_url_def trim_graphic graphic_def trim_end_slash_def)
  have "char_of (32 :: nat) = CHR '' ''" by code_simp
  then have "'' '' \<in> set white_space"
    by (simp add: white_space_def white_space_codes_def str_of_codes_def)
  then have "trim (concat [] @ ''a'' @ concat ['' '']) = ''a''"
    by (intro trim_white_space) (simp_all add: graphic_def)
  then have twice: "normalize_url ''a '' = ''a''" by (simp add: normalize_url_def trim_end_slash_def)
  show ?thesis
    by (simp add: GatewayStore_add_def GatewayStore_load_def GatewayStore_save_def Let_def once twice)
qed

end
