(* ===== verification/Misaka_Peers.thy ===== *)
theory Misaka_Peers
  imports Misaka_Protocol
begin

text \<open>
  What a Sister knows about the others: the observation table of \<^verbatim>\<open>misaka-core/src/peer.rs\<close> with
  \<^verbatim>\<open>peer_registry.rs\<close>, and the signed locators kept by \<^verbatim>\<open>peer_service.rs\<close> and written by
  \<^verbatim>\<open>peer_record_store.rs\<close>. An \<open>Instant\<close> is a number of ticks. The locale \<open>latest_wins\<close> is the
  contract of a store that keeps, per key, the newest of the values it is offered.
\<close>

section \<open>The observation table\<close>

record PeerState =
  ps_network_id :: NetworkId
  ps_id :: u64
  ps_nickname :: string
  ps_hostname :: string
  ps_platform :: string
  ps_version :: string
  ps_stream_endpoints :: "string list"
  ps_stream_certificate :: "bytes option"
  ps_addr :: string
  ps_cpu_usage :: f32
  ps_memory_total :: u64
  ps_memory_used :: u64
  ps_running_jobs :: u64
  ps_queued_jobs :: u64
  ps_uptime_secs :: u64
  ps_capabilities :: "string list"

record PeerBlueprint =
  pb_network_id :: NetworkId
  pb_id :: u64
  pb_addr :: string
  pb_stream_endpoints :: "string list"
  pb_stream_certificate :: "bytes option"
  pb_nickname :: string
  pb_hostname :: string
  pb_platform :: string
  pb_version :: string

definition PeerBlueprint_from :: "PeerState \<Rightarrow> PeerBlueprint" where
  "PeerBlueprint_from p =
     \<lparr>pb_network_id = ps_network_id p, pb_id = ps_id p, pb_addr = ps_addr p,
      pb_stream_endpoints = ps_stream_endpoints p, pb_stream_certificate = ps_stream_certificate p,
      pb_nickname = ps_nickname p, pb_hostname = ps_hostname p, pb_platform = ps_platform p,
      pb_version = ps_version p\<rparr>"

record PeerStateTable =
  pt_peers :: "(u64, PeerState) hashmap"
  pt_last_seen :: "(u64, nat) hashmap"

definition PeerStateTable_new :: PeerStateTable where
  "PeerStateTable_new = \<lparr>pt_peers = [], pt_last_seen = []\<rparr>"

definition merge_peer :: "PeerState \<Rightarrow> PeerState \<Rightarrow> PeerState" where
  "merge_peer prev state =
     prev\<lparr>ps_cpu_usage := ps_cpu_usage state, ps_memory_total := ps_memory_total state,
          ps_memory_used := ps_memory_used state, ps_running_jobs := ps_running_jobs state,
          ps_queued_jobs := ps_queued_jobs state, ps_uptime_secs := ps_uptime_secs state,
          ps_capabilities := ps_capabilities state,
          ps_nickname := (if ps_nickname state \<noteq> [] then ps_nickname state else ps_nickname prev),
          ps_stream_endpoints := (if ps_stream_endpoints state \<noteq> [] then ps_stream_endpoints state else ps_stream_endpoints prev),
          ps_stream_certificate := (if ps_stream_certificate state \<noteq> None then ps_stream_certificate state else ps_stream_certificate prev)\<rparr>"

definition PeerStateTable_upsert :: "nat \<Rightarrow> PeerState \<Rightarrow> PeerStateTable \<Rightarrow> PeerStateTable" where
  "PeerStateTable_upsert now state t =
     t\<lparr>pt_last_seen := hm_insert (ps_id state) now (pt_last_seen t),
       pt_peers := (case hm_get (pt_peers t) (ps_id state) of
           Some prev \<Rightarrow> hm_insert (ps_id state) (merge_peer prev state) (pt_peers t)
         | None \<Rightarrow> hm_insert (ps_id state) state (pt_peers t))\<rparr>"

definition PeerStateTable_all :: "PeerStateTable \<Rightarrow> PeerState list" where
  "PeerStateTable_all t = hm_values (pt_peers t)"

definition peer_alive :: "nat \<Rightarrow> nat \<Rightarrow> PeerStateTable \<Rightarrow> u64 \<Rightarrow> bool" where
  "peer_alive now timeout t i = (case hm_get (pt_last_seen t) i of None \<Rightarrow> False | Some seen \<Rightarrow> now - seen \<le> timeout)"

definition prune_offline :: "nat \<Rightarrow> nat \<Rightarrow> PeerStateTable \<Rightarrow> u64 list \<times> PeerStateTable" where
  "prune_offline now timeout t =
     (let removed = map fst (filter (\<lambda>(i, _). \<not> peer_alive now timeout t i) (pt_peers t))
      in (removed, \<lparr>pt_peers = hm_retain (\<lambda>i _. peer_alive now timeout t i) (pt_peers t),
                    pt_last_seen = fold hm_remove removed (pt_last_seen t)\<rparr>))"

definition PeerRegistry_new_seeded :: "nat \<Rightarrow> PeerState list \<Rightarrow> PeerStateTable" where
  "PeerRegistry_new_seeded now states = fold (PeerStateTable_upsert now) states PeerStateTable_new"

text \<open>Each entry is stored under its id, and every known peer has been seen at some time.\<close>

definition peer_table_ok :: "PeerStateTable \<Rightarrow> bool" where
  "peer_table_ok t \<longleftrightarrow> hm_wf (pt_peers t)
     \<and> (\<forall>i p. hm_get (pt_peers t) i = Some p \<longrightarrow> ps_id p = i \<and> hm_get (pt_last_seen t) i \<noteq> None)"

lemma merge_peer_sel [simp]:
  "ps_id (merge_peer prev state) = ps_id prev" "ps_addr (merge_peer prev state) = ps_addr prev"
  "ps_hostname (merge_peer prev state) = ps_hostname prev" "ps_platform (merge_peer prev state) = ps_platform prev"
  "ps_version (merge_peer prev state) = ps_version prev" "ps_network_id (merge_peer prev state) = ps_network_id prev"
  "ps_cpu_usage (merge_peer prev state) = ps_cpu_usage state" "ps_queued_jobs (merge_peer prev state) = ps_queued_jobs state"
  by (simp_all add: merge_peer_def)

lemma upsert_get:
  "hm_get (pt_peers (PeerStateTable_upsert now state t)) i =
     (if i = ps_id state then Some (case hm_get (pt_peers t) i of Some prev \<Rightarrow> merge_peer prev state | None \<Rightarrow> state)
      else hm_get (pt_peers t) i)"
  by (simp add: PeerStateTable_upsert_def hm_simps split: option.splits)

lemma upsert_seen:
  "hm_get (pt_last_seen (PeerStateTable_upsert now state t)) i =
     (if i = ps_id state then Some now else hm_get (pt_last_seen t) i)"
  by (simp add: PeerStateTable_upsert_def hm_simps)

lemma peer_table_okD:
  "peer_table_ok t \<Longrightarrow> hm_get (pt_peers t) i = Some p \<Longrightarrow> ps_id p = i \<and> (\<exists>seen. hm_get (pt_last_seen t) i = Some seen)"
  unfolding peer_table_ok_def by blast

lemma upsert_wf: "hm_wf (pt_peers t) \<Longrightarrow> hm_wf (pt_peers (PeerStateTable_upsert now state t))"
  by (simp add: PeerStateTable_upsert_def hm_simps split: option.splits)

lemma upsert_table_ok:
  assumes "peer_table_ok t"
  shows "peer_table_ok (PeerStateTable_upsert now state t)"
  unfolding peer_table_ok_def
proof (intro conjI allI impI)
  show "hm_wf (pt_peers (PeerStateTable_upsert now state t))"
    using assms by (intro upsert_wf) (simp add: peer_table_ok_def)
next
  fix i p assume "hm_get (pt_peers (PeerStateTable_upsert now state t)) i = Some p"
  then show "ps_id p = i" "hm_get (pt_last_seen (PeerStateTable_upsert now state t)) i \<noteq> None"
    using peer_table_okD [OF assms, of i]
    by (auto simp: upsert_get upsert_seen split: option.splits if_splits)
qed

lemma seeded_table_ok: "peer_table_ok (PeerRegistry_new_seeded now states)"
proof -
  have *: "peer_table_ok t \<Longrightarrow> peer_table_ok (fold (PeerStateTable_upsert now) states t)" for t
    by (induction states arbitrary: t) (simp_all add: upsert_table_ok)
  have "peer_table_ok PeerStateTable_new" by (simp add: PeerStateTable_new_def peer_table_ok_def)
  from * [OF this] show ?thesis by (simp only: PeerRegistry_new_seeded_def)
qed

lemma fold_remove_get: "hm_get (fold hm_remove ks m) k = (if k \<in> set ks then None else hm_get m k)"
  by (induction ks arbitrary: m) (auto simp: hm_simps)

text \<open>Pruning removes exactly the peers that have been silent for longer than the timeout: the
  returned ids are those, each once; every other peer keeps its entry and its last-seen time; and
  the table stays consistent.\<close>

theorem prune_offline_exact:
  assumes "peer_table_ok t" "prune_offline now timeout t = (removed, t')"
  shows "peer_table_ok t' \<and> distinct removed
    \<and> (\<forall>i. i \<in> set removed \<longleftrightarrow> (\<exists>seen. hm_get (pt_peers t) i \<noteq> None \<and> hm_get (pt_last_seen t) i = Some seen \<and> now - seen > timeout))
    \<and> (\<forall>i. hm_get (pt_peers t') i = (if i \<in> set removed then None else hm_get (pt_peers t) i))
    \<and> (\<forall>i. hm_get (pt_last_seen t') i = (if i \<in> set removed then None else hm_get (pt_last_seen t) i))"
proof -
  have wf: "hm_wf (pt_peers t)" using assms(1) by (simp add: peer_table_ok_def)
  have removed: "removed = map fst (filter (\<lambda>(i, _). \<not> peer_alive now timeout t i) (pt_peers t))"
    and peers': "pt_peers t' = hm_retain (\<lambda>i _. peer_alive now timeout t i) (pt_peers t)"
    and seen': "pt_last_seen t' = fold hm_remove removed (pt_last_seen t)"
    using assms(2) by (auto simp: prune_offline_def Let_def)
  have mem: "i \<in> set removed \<longleftrightarrow> hm_get (pt_peers t) i \<noteq> None \<and> \<not> peer_alive now timeout t i" for i
    unfolding removed using hm_get_in [OF wf, of i] by (force simp: map_of_eq_None_iff)
  have get: "hm_get (pt_peers t') i = (if i \<in> set removed then None else hm_get (pt_peers t) i)" for i
    unfolding peers' by (cases "hm_get (pt_peers t) i") (simp_all add: hm_get_retain [OF wf] mem)
  have seen: "hm_get (pt_last_seen t') i = (if i \<in> set removed then None else hm_get (pt_last_seen t) i)" for i
    unfolding seen' by (rule fold_remove_get)
  have "distinct removed" unfolding removed using wf by (simp add: distinct_map_filter)
  moreover have "peer_table_ok t'"
    unfolding peer_table_ok_def get seen
    using peer_table_okD [OF assms(1)] wf by (auto simp: peers' hm_simps split: if_splits)
  moreover have "i \<in> set removed \<longleftrightarrow> (\<exists>seen. hm_get (pt_peers t) i \<noteq> None \<and> hm_get (pt_last_seen t) i = Some seen \<and> now - seen > timeout)" for i
    using peer_table_okD [OF assms(1), of i] unfolding mem peer_alive_def
    by (cases "hm_get (pt_peers t) i") (auto split: option.splits)
  ultimately show ?thesis using get seen by blast
qed

definition sample_peer :: PeerState where
  "sample_peer = \<lparr>ps_network_id = 7, ps_id = 2, ps_nickname = ''b'', ps_hostname = ''h'', ps_platform = ''p'',
     ps_version = ''1'', ps_stream_endpoints = [], ps_stream_certificate = None, ps_addr = ''10.0.0.2:1'',
     ps_cpu_usage = f32_of_int 10, ps_memory_total = 0, ps_memory_used = 0, ps_running_jobs = 0,
     ps_queued_jobs = 3, ps_uptime_secs = 0, ps_capabilities = []\<rparr>"

theorem prune_offline_exact_witness:
  "peer_table_ok (snd (prune_offline 100 30 (PeerStateTable_upsert 50 sample_peer PeerStateTable_new)))"
proof -
  have "peer_table_ok (PeerStateTable_upsert 50 sample_peer PeerStateTable_new)"
    by (rule upsert_table_ok) (simp add: PeerStateTable_new_def peer_table_ok_def)
  from prune_offline_exact [OF this, of 100 30] show ?thesis by (metis prod.collapse)
qed

text \<open>The address under which a peer became known is never replaced: whatever is heard from it
  later, the table keeps the first address, host name, platform and version, while the load figures
  follow the last message.\<close>

theorem peer_address_is_frozen:
  assumes "hm_get (pt_peers t) i = Some p" "\<forall>s\<in>set states. ps_id s = i" "states \<noteq> []"
  shows "\<exists>p'. hm_get (pt_peers (fold (PeerStateTable_upsert now) states t)) i = Some p'
    \<and> ps_addr p' = ps_addr p \<and> ps_hostname p' = ps_hostname p \<and> ps_platform p' = ps_platform p \<and> ps_version p' = ps_version p
    \<and> ps_cpu_usage p' = ps_cpu_usage (last states) \<and> ps_queued_jobs p' = ps_queued_jobs (last states)"
  using assms
proof (induction states arbitrary: t p)
  case (Cons s states)
  have step: "hm_get (pt_peers (PeerStateTable_upsert now s t)) i = Some (merge_peer p s)"
    using Cons.prems by (simp add: upsert_get)
  show ?case
  proof (cases "states = []")
    case True
    with step show ?thesis by simp
  next
    case False
    with Cons.IH [OF step] Cons.prems show ?thesis by simp
  qed
qed simp

theorem peer_address_is_frozen_witness:
  "\<exists>p'. hm_get (pt_peers (fold (PeerStateTable_upsert 60) [sample_peer\<lparr>ps_addr := ''10.9.9.9:1'', ps_cpu_usage := f32_of_int 0\<rparr>]
      (PeerStateTable_upsert 50 sample_peer PeerStateTable_new))) 2 = Some p'
    \<and> ps_addr p' = ''10.0.0.2:1'' \<and> ps_cpu_usage p' = f32_of_int 0"
  using peer_address_is_frozen [of "PeerStateTable_upsert 50 sample_peer PeerStateTable_new" 2 sample_peer
      "[sample_peer\<lparr>ps_addr := ''10.9.9.9:1'', ps_cpu_usage := f32_of_int 0\<rparr>]" 60]
  by (simp add: PeerStateTable_upsert_def PeerStateTable_new_def sample_peer_def)

section \<open>Stores that keep the newest value\<close>

locale latest_wins =
  fixes put :: "'r \<Rightarrow> 's \<Rightarrow> 's"
    and look :: "'s \<Rightarrow> 'k \<Rightarrow> 'r option"
    and key :: "'r \<Rightarrow> 'k"
    and seq :: "'r \<Rightarrow> u64"
    and valid :: "'r \<Rightarrow> bool"
    and inv :: "'s \<Rightarrow> bool"
    and yields :: "u64 \<Rightarrow> u64 \<Rightarrow> bool"
  assumes inv_put: "inv s \<Longrightarrow> inv (put r s)"
    and look_put: "inv s \<Longrightarrow> look (put r s) k =
      (if valid r \<and> k = key r \<and> (\<forall>c. look s k = Some c \<longrightarrow> yields (seq c) (seq r)) then Some r else look s k)"
    and yields_le: "yields m n \<Longrightarrow> m \<le> n"
    and yields_less: "m < n \<Longrightarrow> yields m n"
begin

lemma not_yields: "\<not> yields m n \<Longrightarrow> n \<le> m"
  using yields_less by (meson not_le_imp_less)

lemma inv_put_all: "inv s \<Longrightarrow> inv (fold put rs s)"
  by (induction rs arbitrary: s) (simp_all add: inv_put)

lemma look_put_last:
  "inv s \<Longrightarrow> look (fold put (rs @ [r]) s) k =
     (if valid r \<and> k = key r \<and> (\<forall>c. look (fold put rs s) k = Some c \<longrightarrow> yields (seq c) (seq r))
      then Some r else look (fold put rs s) k)"
  by (simp add: look_put inv_put_all)

lemma put_all_newest:
  "\<lbrakk>inv s; r \<in> set rs; valid r; key r = k\<rbrakk> \<Longrightarrow> \<exists>c. look (fold put rs s) k = Some c \<and> seq r \<le> seq c"
proof (induction rs rule: rev_induct)
  case (snoc x rs)
  show ?case
  proof (cases "r = x")
    case True
    with snoc.prems show ?thesis
      by (cases "look (fold put rs s) k") (auto simp: look_put inv_put_all not_yields)
  next
    case False
    with snoc obtain c where "look (fold put rs s) k = Some c" "seq r \<le> seq c" by auto
    with snoc.prems(1) show ?thesis by (auto simp: look_put inv_put_all intro: order_trans dest: yields_le)
  qed
qed simp

lemma put_all_origin:
  "inv s \<Longrightarrow> look (fold put rs s) k = Some c \<Longrightarrow> look s k = Some c \<or> c \<in> set rs \<and> valid c \<and> key c = k"
  by (induction rs rule: rev_induct) (auto simp: look_put inv_put_all split: if_splits)

lemma put_all_keeps: "inv s \<Longrightarrow> look s k = Some c \<Longrightarrow> \<exists>c'. look (fold put rs s) k = Some c' \<and> seq c \<le> seq c'"
  by (induction rs rule: rev_induct) (auto simp: look_put inv_put_all intro: order_trans dest: yields_le)

text \<open>The outcome depends on what was offered, not on the order: it is the newest value.\<close>

lemma put_all_order:
  assumes "inv s" "set rs = set rs'" "look s k = None"
    and "\<And>a b. \<lbrakk>a \<in> set rs; b \<in> set rs; key a = k; key b = k; seq a = seq b\<rbrakk> \<Longrightarrow> a = b"
  shows "look (fold put rs s) k = look (fold put rs' s) k"
proof (cases "\<exists>r\<in>set rs. valid r \<and> key r = k")
  case False
  then have "look (fold put xs s) k = None" if "set xs = set rs" for xs
    using put_all_origin [OF assms(1), of xs k] assms(3) that by (cases "look (fold put xs s) k") auto
  with assms(2) show ?thesis by simp
next
  case True
  then obtain r where r: "r \<in> set rs" "valid r" "key r = k" by auto
  from put_all_newest [OF assms(1) r] obtain c where c: "look (fold put rs s) k = Some c" by blast
  from put_all_newest [OF assms(1), of r rs' k] r assms(2) obtain d where d: "look (fold put rs' s) k = Some d" by auto
  have co: "c \<in> set rs" "valid c" "key c = k" using put_all_origin [OF assms(1) c] assms(3) by auto
  have dor: "d \<in> set rs" "valid d" "key d = k" using put_all_origin [OF assms(1) d] assms(2, 3) by auto
  have "seq d \<le> seq c" using put_all_newest [OF assms(1) dor] c by auto
  moreover have "seq c \<le> seq d" using put_all_newest [OF assms(1), of c rs' k] co d assms(2) by auto
  ultimately have "seq c = seq d" by simp
  then have "c = d" by (rule assms(4) [OF co(1) dor(1) co(3) dor(3)])
  with c d show ?thesis by simp
qed

end

section \<open>The peer service\<close>

record PeerService =
  svc_registry :: PeerStateTable
  svc_network_id :: NetworkId
  svc_records :: "(u64, PeerRecord) hashmap"
  svc_records_file :: "PeerRecord list disk"
  svc_peers_file :: "PeerBlueprint list disk"

definition PeerRecordStore_load :: "lib \<Rightarrow> PeerRecord list disk \<Rightarrow> NetworkId \<Rightarrow> (u64, PeerRecord) hashmap" where
  "PeerRecordStore_load L f network_id =
     (let records = (case f of Holds rs \<Rightarrow> rs | _ \<Rightarrow> [])
      in hm_collect (map (\<lambda>r. (pr_sister_id r, r))
           (filter (\<lambda>r. pr_network_id r = network_id \<and> PeerRecord_verify L r \<and> pr_sister_id r \<noteq> 0) records)))"

definition PeerRecordStore_save :: "write_outcome \<Rightarrow> (u64, PeerRecord) hashmap \<Rightarrow> PeerRecord list disk \<Rightarrow> PeerRecord list disk" where
  "PeerRecordStore_save w records f = fs_write w (sort_key pr_sister_id (hm_values records)) f"

definition PeerStore_save :: "write_outcome \<Rightarrow> PeerStateTable \<Rightarrow> PeerBlueprint list disk \<Rightarrow> PeerBlueprint list disk" where
  "PeerStore_save w table f = fs_write w (map PeerBlueprint_from (PeerStateTable_all table)) f"

definition PeerStore_load :: "PeerBlueprint list disk \<Rightarrow> PeerBlueprint list" where
  "PeerStore_load f = (case f of Holds bs \<Rightarrow> bs | _ \<Rightarrow> [])"

definition PeerService_new :: "lib \<Rightarrow> PeerStateTable \<Rightarrow> NetworkId \<Rightarrow> PeerRecord list disk \<Rightarrow> PeerBlueprint list disk \<Rightarrow> PeerService" where
  "PeerService_new L registry network_id records_file peers_file =
     \<lparr>svc_registry = registry, svc_network_id = network_id,
      svc_records = PeerRecordStore_load L records_file network_id,
      svc_records_file = records_file, svc_peers_file = peers_file\<rparr>"

definition PeerService_upsert :: "nat \<Rightarrow> PeerState \<Rightarrow> PeerService \<Rightarrow> PeerService" where
  "PeerService_upsert now state svc =
     (if ps_network_id state \<noteq> svc_network_id svc then svc
      else svc\<lparr>svc_registry := PeerStateTable_upsert now state (svc_registry svc)\<rparr>)"

definition PeerService_peer_records :: "PeerService \<Rightarrow> PeerRecord list" where
  "PeerService_peer_records svc = sort_key pr_sister_id (hm_values (svc_records svc))"

definition upsert_peer_record :: "lib \<Rightarrow> write_outcome \<Rightarrow> PeerRecord \<Rightarrow> PeerService \<Rightarrow> bool \<times> PeerService" where
  "upsert_peer_record L w record' svc =
     (if pr_network_id record' \<noteq> svc_network_id svc \<or> \<not> PeerRecord_verify L record' then (False, svc)
      else
        let i = pr_sister_id record'
        in if (case hm_get (svc_records svc) i of None \<Rightarrow> False | Some current \<Rightarrow> pr_sequence current > pr_sequence record')
           then (False, svc)
           else
             let records = hm_insert i record' (svc_records svc)
             in (True, svc\<lparr>svc_records := records,
                           svc_records_file := PeerRecordStore_save w records (svc_records_file svc)\<rparr>))"

definition PeerService_persist :: "nat \<Rightarrow> write_outcome \<Rightarrow> PeerService \<Rightarrow> PeerService" where
  "PeerService_persist now w svc =
     svc\<lparr>svc_peers_file := PeerStore_save w
           (PeerRegistry_new_seeded now (PeerStateTable_all (svc_registry svc))) (svc_peers_file svc)\<rparr>"

definition remember_peer ::
    "nat \<Rightarrow> write_outcome \<Rightarrow> SisterIdentity \<Rightarrow> NetworkId \<Rightarrow> string \<Rightarrow> string option \<Rightarrow> bytes option \<Rightarrow> PeerService \<Rightarrow> PeerService" where
  "remember_peer now w identity network_id listen_addr stream_addr stream_certificate svc =
     (if network_id \<noteq> svc_network_id svc then svc
      else PeerService_persist now w (PeerService_upsert now
        \<lparr>ps_network_id = network_id, ps_id = si_id identity, ps_nickname = si_nickname identity,
         ps_hostname = si_hostname identity, ps_platform = si_platform identity, ps_version = si_version identity,
         ps_stream_endpoints = (case stream_addr of None \<Rightarrow> [] | Some a \<Rightarrow> [a]),
         ps_stream_certificate = stream_certificate, ps_addr = listen_addr, ps_cpu_usage = f32_of_int 0,
         ps_memory_total = 0, ps_memory_used = 0, ps_running_jobs = 0, ps_queued_jobs = 0,
         ps_uptime_secs = 0, ps_capabilities = []\<rparr> svc))"

definition PeerService_prune :: "nat \<Rightarrow> nat \<Rightarrow> PeerService \<Rightarrow> u64 list \<times> PeerService" where
  "PeerService_prune now timeout svc =
     (let (removed, t) = prune_offline now timeout (svc_registry svc) in (removed, svc\<lparr>svc_registry := t\<rparr>))"

text \<open>Every locator a service holds verifies, belongs to its network and is filed under its Sister.\<close>

definition service_ok :: "lib \<Rightarrow> PeerService \<Rightarrow> bool" where
  "service_ok L svc \<longleftrightarrow> hm_wf (svc_records svc)
     \<and> (\<forall>i r. hm_get (svc_records svc) i = Some r \<longrightarrow>
          pr_sister_id r = i \<and> pr_network_id r = svc_network_id svc \<and> PeerRecord_verify L r)"

lemma service_okD:
  "service_ok L svc \<Longrightarrow> hm_get (svc_records svc) i = Some r \<Longrightarrow>
     pr_sister_id r = i \<and> pr_network_id r = svc_network_id svc \<and> PeerRecord_verify L r"
  unfolding service_ok_def by blast

lemma upsert_peer_record_get:
  "hm_get (svc_records (snd (upsert_peer_record L w r svc))) k =
     (if (pr_network_id r = svc_network_id svc \<and> PeerRecord_verify L r) \<and> k = pr_sister_id r
         \<and> (\<forall>c. hm_get (svc_records svc) k = Some c \<longrightarrow> pr_sequence c \<le> pr_sequence r)
      then Some r else hm_get (svc_records svc) k)"
  by (auto simp: upsert_peer_record_def Let_def hm_simps not_less split: option.splits)

lemma upsert_peer_record_sel [simp]: "svc_network_id (snd (upsert_peer_record L w r svc)) = svc_network_id svc"
  by (simp add: upsert_peer_record_def Let_def)

definition put_record :: "lib \<Rightarrow> write_outcome \<Rightarrow> PeerRecord \<Rightarrow> PeerService \<Rightarrow> PeerService" where
  "put_record L w r svc = snd (upsert_peer_record L w r svc)"

interpretation peer_records: latest_wins "put_record L w" "\<lambda>svc. hm_get (svc_records svc)" pr_sister_id pr_sequence
  "\<lambda>r. pr_network_id r = network \<and> PeerRecord_verify L r" "\<lambda>svc. svc_network_id svc = network" "(\<le>)"
  for L w network
  by unfold_locales (simp_all add: put_record_def upsert_peer_record_get)

lemma service_ok_new: "service_ok L (PeerService_new L registry network f g)"
  unfolding service_ok_def PeerService_new_def PeerRecordStore_load_def
  by (auto simp: Let_def hm_collect_wf hm_get_collect dest!: map_of_SomeD)

lemma service_ok_upsert:
  assumes "service_ok L svc"
  shows "service_ok L (snd (upsert_peer_record L w r svc))"
  unfolding service_ok_def
proof (intro conjI allI impI)
  show "hm_wf (svc_records (snd (upsert_peer_record L w r svc)))"
    using assms by (simp add: service_ok_def upsert_peer_record_def Let_def hm_simps)
next
  fix i r' assume "hm_get (svc_records (snd (upsert_peer_record L w r svc))) i = Some r'"
  then have "pr_sister_id r' = i \<and> pr_network_id r' = svc_network_id svc \<and> PeerRecord_verify L r'"
    using service_okD [OF assms] unfolding upsert_peer_record_get by (auto split: if_splits)
  then show "pr_sister_id r' = i" "pr_network_id r' = svc_network_id (snd (upsert_peer_record L w r svc))" "PeerRecord_verify L r'"
    by simp_all
qed

text \<open>C28: Gossip converges: a service that starts without locators and receives a set of records ends
  with the same locator for every Sister in whatever order, and however often, they arrive (as long
  as a Sister does not sign two different records with one sequence number), and it is a valid one
  that is not older than any valid record received.\<close>

theorem peer_records_converge:
  assumes "svc_records svc = []" "set rs = set rs'"
    and "\<forall>a\<in>set rs. \<forall>b\<in>set rs. pr_sister_id a = pr_sister_id b \<longrightarrow> pr_sequence a = pr_sequence b \<longrightarrow> a = b"
  shows "hm_get (svc_records (fold (put_record L w) rs svc)) i = hm_get (svc_records (fold (put_record L w) rs' svc)) i
    \<and> (\<forall>r\<in>set rs. pr_sister_id r = i \<longrightarrow> pr_network_id r = svc_network_id svc \<longrightarrow> PeerRecord_verify L r \<longrightarrow>
        (\<exists>c\<in>set rs. hm_get (svc_records (fold (put_record L w) rs svc)) i = Some c
           \<and> PeerRecord_verify L c \<and> pr_sequence r \<le> pr_sequence c))"
proof -
  have "hm_get (svc_records (fold (put_record L w) rs svc)) i = hm_get (svc_records (fold (put_record L w) rs' svc)) i"
    by (rule peer_records.put_all_order [where network = "svc_network_id svc"]) (use assms in auto)
  moreover have "\<exists>c\<in>set rs. hm_get (svc_records (fold (put_record L w) rs svc)) i = Some c
      \<and> PeerRecord_verify L c \<and> pr_sequence r \<le> pr_sequence c"
    if r: "r \<in> set rs" "pr_sister_id r = i" "pr_network_id r = svc_network_id svc" "PeerRecord_verify L r" for r
  proof -
    from peer_records.put_all_newest [of svc "svc_network_id svc" r rs L i w] r
    obtain c where c: "hm_get (svc_records (fold (put_record L w) rs svc)) i = Some c" "pr_sequence r \<le> pr_sequence c"
      by auto
    with peer_records.put_all_origin [of svc "svc_network_id svc" L w rs i c] assms(1) show ?thesis by auto
  qed
  ultimately show ?thesis by blast
qed

theorem peer_records_converge_witness:
  "hm_get (svc_records (fold (put_record lib0 Written) [sample_record, sample_record]
      (PeerService_new lib0 PeerStateTable_new 7 Absent Absent))) 2
   = hm_get (svc_records (fold (put_record lib0 Written) [sample_record]
      (PeerService_new lib0 PeerStateTable_new 7 Absent Absent))) 2"
  using peer_records_converge [of "PeerService_new lib0 PeerStateTable_new 7 Absent Absent"
      "[sample_record, sample_record]" "[sample_record]" lib0 Written 2]
  by (simp add: PeerService_new_def PeerRecordStore_load_def hm_collect_def)

text \<open>What is written is read back: after a record was accepted and the file written, a restarted
  service knows exactly the locators the running one knows, except that of a Sister with id 0, which
  the loader drops.\<close>

theorem peer_records_restart:
  assumes "service_ok L svc" "upsert_peer_record L Written r svc = (True, svc')"
  shows "hm_get (svc_records (PeerService_new L registry (svc_network_id svc') (svc_records_file svc') peers_file)) i
    = (if i = 0 then None else hm_get (svc_records svc') i)"
proof -
  have ok: "service_ok L svc'" using service_ok_upsert [OF assms(1), of Written r] assms(2) by simp
  then have wf: "hm_wf (svc_records svc')" by (simp add: service_ok_def)
  have saved: "svc_records_file svc' = Holds (sort_key pr_sister_id (hm_values (svc_records svc')))"
    using assms(2) by (auto simp: upsert_peer_record_def Let_def PeerRecordStore_save_def split: if_splits)
  define rs where "rs = filter (\<lambda>r. pr_network_id r = svc_network_id svc' \<and> PeerRecord_verify L r \<and> pr_sister_id r \<noteq> 0)
    (sort_key pr_sister_id (hm_values (svc_records svc')))"
  have mem: "r \<in> set rs \<longleftrightarrow> pr_sister_id r \<noteq> 0 \<and> hm_get (svc_records svc') (pr_sister_id r) = Some r" for r
    unfolding rs_def using hm_values_iff [OF wf, of r] service_okD [OF ok] by auto
  have load: "hm_get (svc_records (PeerService_new L registry (svc_network_id svc') (svc_records_file svc') peers_file)) i
      = map_of (map (\<lambda>r. (pr_sister_id r, r)) (rev rs)) i"
    by (simp add: PeerService_new_def PeerRecordStore_load_def saved hm_get_collect rs_def rev_map)
  show ?thesis
  proof (cases "map_of (map (\<lambda>r. (pr_sister_id r, r)) (rev rs)) i")
    case None
    then have none: "r \<in> set rs \<Longrightarrow> pr_sister_id r \<noteq> i" for r by (force simp: map_of_eq_None_iff)
    have "hm_get (svc_records svc') i = None" if "i \<noteq> 0"
    proof (cases "hm_get (svc_records svc') i")
      case (Some r)
      with service_okD [OF ok Some] mem [of r] that none [of r] show ?thesis by simp
    qed
    with None load show ?thesis by simp
  next
    case (Some r)
    then have "r \<in> set rs" "pr_sister_id r = i" by (auto dest!: map_of_SomeD)
    with mem [of r] Some load show ?thesis by auto
  qed
qed

theorem peer_records_restart_witness:
  "hm_get (svc_records (PeerService_new lib0 PeerStateTable_new 7
     (svc_records_file (snd (upsert_peer_record lib0 Written sample_record
        (PeerService_new lib0 PeerStateTable_new 7 Absent Absent)))) Absent)) 2 = Some sample_record"
proof -
  let ?svc = "PeerService_new lib0 PeerStateTable_new 7 Absent Absent"
  let ?svc' = "snd (upsert_peer_record lib0 Written sample_record ?svc)"
  have net: "svc_network_id ?svc' = 7" by (simp add: PeerService_new_def)
  have acc: "upsert_peer_record lib0 Written sample_record ?svc = (True, ?svc')"
    by (simp add: upsert_peer_record_def PeerService_new_def PeerRecordStore_load_def hm_collect_def Let_def sample_facts)
  have "hm_get (svc_records ?svc') 2 = Some sample_record"
    by (simp add: upsert_peer_record_get PeerService_new_def PeerRecordStore_load_def hm_collect_def sample_facts)
  with peer_records_restart [OF service_ok_new acc, of PeerStateTable_new Absent 2] net show ?thesis by simp
qed

end
