(* ===== verification/Misaka_Join.thy ===== *)
theory Misaka_Join
  imports Misaka_Enrollment Misaka_Stores Misaka_Peers
begin

text \<open>
  Joining a Network: the enrollment exchange of \<^verbatim>\<open>misaka-runtime/src/enrollment.rs\<close> with both its ends, the
  installation of what it yields (\<^verbatim>\<open>join_transaction.rs\<close>), and the commands of \<^verbatim>\<open>misaka-cli/src/main.rs\<close>
  that issue an invite code, build the server and join. Frames carry the values they encode;
  reading or writing one fails with \<open>Failure_Transport\<close> (an error or the timeout of the stream, a value that
  is not coded) or, when it is longer than the limit, with \<open>Failure_Protocol\<close>. The clock, random numbers and the outcomes
  of writes are arguments.
\<close>

section \<open>The Authority\<close>

datatype EnrollmentRejectionKind = Kind_InvalidInvite | Kind_Expired | Kind_WrongNetwork | Kind_InvalidProof
  | Kind_Protocol | Kind_IssuanceFailed

fun to_core :: "EnrollmentRejectionKind \<Rightarrow> EnrollmentRejection" where
  "to_core Kind_InvalidInvite = InvalidInvite"
| "to_core Kind_Expired = Expired"
| "to_core Kind_WrongNetwork = WrongNetwork"
| "to_core Kind_InvalidProof = InvalidProof"
| "to_core Kind_Protocol = ProtocolVersion"
| "to_core Kind_IssuanceFailed = IssuanceFailed"

fun from_core :: "EnrollmentRejection \<Rightarrow> EnrollmentRejectionKind" where
  "from_core InvalidInvite = Kind_InvalidInvite"
| "from_core Expired = Kind_Expired"
| "from_core WrongNetwork = Kind_WrongNetwork"
| "from_core InvalidProof = Kind_InvalidProof"
| "from_core ProtocolVersion = Kind_Protocol"
| "from_core IssuanceFailed = Kind_IssuanceFailed"

datatype EnrollmentFailure = Failure_Transport | Failure_Protocol | Failure_Rejected EnrollmentRejectionKind

text \<open>How \<open>read_frame\<close> and \<open>write_frame\<close> fail\<close>

datatype frame_error = Frame_lost | Frame_too_long

fun frame_failure :: "frame_error \<Rightarrow> EnrollmentFailure" where
  "frame_failure Frame_lost = Failure_Transport"
| "frame_failure Frame_too_long = Failure_Protocol"

datatype ServerReply = Reply_Challenge EnrollmentChallenge | Reply_Rejected EnrollmentRejection

record EnrollmentServer =
  es_network_id :: NetworkId
  es_authority :: NetworkAuthority
  es_authority_key :: AuthorityKeyPair
  es_sister_id :: u64
  es_iroh_endpoint_id :: IrohEndpointId
  es_locator :: PeerRecord
  es_extra_bootstrap :: "PeerRecord list"
  es_serials :: MembershipSerialStore

definition EnrollmentServer_new ::
    "string disk \<Rightarrow> NetworkId \<Rightarrow> NetworkAuthority \<Rightarrow> AuthorityKeyPair \<Rightarrow> u64 \<Rightarrow> IrohEndpointId \<Rightarrow> PeerRecord \<Rightarrow> PeerRecord list
      \<Rightarrow> SerialError + EnrollmentServer" where
  "EnrollmentServer_new serial_file network_id authority authority_key sister_id iroh_endpoint_id locator extra_bootstrap =
     (case MembershipSerialStore_open serial_file of
        Inl e \<Rightarrow> Err e
      | Inr serials \<Rightarrow> Ok \<lparr>es_network_id = network_id, es_authority = authority, es_authority_key = authority_key,
          es_sister_id = sister_id, es_iroh_endpoint_id = iroh_endpoint_id, es_locator = locator,
          es_extra_bootstrap = extra_bootstrap, es_serials = serials\<rparr>)"

text \<open>Every check of a request; \<open>nonce\<close> is the random nonce of the challenge.\<close>

definition evaluate ::
    "lib \<Rightarrow> u64 \<Rightarrow> arr32 \<Rightarrow> EnrollmentServer \<Rightarrow> EnrollmentRequest \<Rightarrow> EnrollmentRejectionKind + EnrollmentChallenge" where
  "evaluate L now nonce server request =
     (let invite = erq_invite request
      in if \<not> EnrollmentInvite_verify L invite now
         then Err (if EnrollmentInvite_is_expired invite now then Kind_Expired else Kind_InvalidInvite)
         else if ei_network_id invite \<noteq> es_network_id server \<or> ei_authority invite \<noteq> es_authority server
         then Err Kind_WrongNetwork
         else if pr_sister_id (ei_locator invite) \<noteq> es_sister_id server
           \<or> tb_iroh_endpoint_id (pr_transport_binding (ei_locator invite)) \<noteq> es_iroh_endpoint_id server
         then Err Kind_InvalidInvite
         else Ok (EnrollmentChallenge_new (es_network_id server) (EnrollmentInvite_digest L invite) (erq_sister_id request)
                (erq_sister_public_key request) nonce (erq_recipient_nonce request)))"

text \<open>\<open>dedup_by\<close>: of neighbours with the same key the first one stays.\<close>

fun dedup_by :: "('a \<Rightarrow> 'b) \<Rightarrow> 'a list \<Rightarrow> 'a list" where
  "dedup_by key (x # y # xs) = (if key y = key x then dedup_by key (x # xs) else x # dedup_by key (y # xs))"
| "dedup_by key xs = xs"

definition issue_membership :: "lib \<Rightarrow> u64 \<Rightarrow> EnrollmentServer \<Rightarrow> EnrollmentRequest \<Rightarrow> u64 \<Rightarrow> EnrollmentResponse" where
  "issue_membership L now server request serial =
     (let membership = MembershipCertificate_issue L (es_authority server) (es_authority_key server)
            (erq_sister_public_key request) (erq_sister_id request) now None serial;
          bootstrap = dedup_by pr_sister_id (sort_key pr_sister_id (es_locator server # es_extra_bootstrap server))
      in EnrollmentResponse_accepted (es_authority server) membership bootstrap)"

record serve_env =
  se_now :: u64
  se_nonce :: arr32
  se_reply_written :: "frame_error + unit"
  se_serial_write :: text_write
  se_now_issue :: u64
  se_response_written :: "frame_error + unit"

definition accepted_response :: "EnrollmentResponse \<Rightarrow> bool" where
  "accepted_response response = (case ers_outcome response of Accepted _ _ _ \<Rightarrow> True | Rejected _ \<Rightarrow> False)"

text \<open>The answer to a proof: the membership, with a serial from the durable allocator\<close>

definition serve_proof ::
    "lib \<Rightarrow> serve_env \<Rightarrow> EnrollmentRequest \<Rightarrow> EnrollmentChallenge \<Rightarrow> EnrollmentProof \<Rightarrow> EnrollmentServer \<Rightarrow> EnrollmentResponse \<times> EnrollmentServer" where
  "serve_proof L E request challenge proof' server =
     (if \<not> EnrollmentChallenge_verify L challenge proof'
      then (EnrollmentResponse_rejected (to_core Kind_InvalidProof), server)
      else case allocate (se_serial_write E) (es_serials server) of
        (Inr serial, serials) \<Rightarrow> (issue_membership L (se_now_issue E) server request serial, server\<lparr>es_serials := serials\<rparr>)
      | (Inl _, serials) \<Rightarrow> (EnrollmentResponse_rejected (to_core Kind_IssuanceFailed), server\<lparr>es_serials := serials\<rparr>))"

text \<open>
  One stream. \<open>first\<close> is what reading the first frame gives, \<open>peer\<close> what reading the answer to the reply gives; the
  result also says which reply and which response were sent.
\<close>

definition serve_stream ::
    "lib \<Rightarrow> serve_env \<Rightarrow> frame_error + EnrollmentRequest \<Rightarrow> (ServerReply \<Rightarrow> frame_error + EnrollmentProof) \<Rightarrow> EnrollmentServer
      \<Rightarrow> (EnrollmentFailure + unit) \<times> ServerReply option \<times> EnrollmentResponse option \<times> EnrollmentServer" where
  "serve_stream L E first peer server =
     (case first of
        Inl e \<Rightarrow> (Err (frame_failure e), None, None, server)
      | Inr request \<Rightarrow>
          if erq_protocol_version request \<noteq> ENROLLMENT_PROTOCOL_VERSION then (Err Failure_Protocol, None, None, server)
          else (case evaluate L (se_now E) (se_nonce E) server request of
             Inl reason \<Rightarrow>
               (case se_reply_written E of
                  Inl e \<Rightarrow> (Err (frame_failure e), None, None, server)
                | Inr _ \<Rightarrow> (Err (Failure_Rejected reason), Some (Reply_Rejected (to_core reason)), None, server))
           | Inr challenge \<Rightarrow>
               (case se_reply_written E of
                  Inl e \<Rightarrow> (Err (frame_failure e), None, None, server)
                | Inr _ \<Rightarrow>
                    (case peer (Reply_Challenge challenge) of
                       Inl e \<Rightarrow> (Err (frame_failure e), Some (Reply_Challenge challenge), None, server)
                     | Inr proof' \<Rightarrow>
                         (case serve_proof L E request challenge proof' server of (response, server') \<Rightarrow>
                            (case se_response_written E of
                               Inl e \<Rightarrow> (Err (frame_failure e), Some (Reply_Challenge challenge), None, server')
                             | Inr _ \<Rightarrow> (if accepted_response response then Ok () else Err (Failure_Rejected Kind_IssuanceFailed),
                                 Some (Reply_Challenge challenge), Some response, server')))))))"

section \<open>The joining Sister\<close>

definition redeem_proof ::
    "lib \<Rightarrow> arr32 \<Rightarrow> EnrollmentInvite \<Rightarrow> SisterId \<Rightarrow> SisterKeyPair \<Rightarrow> ServerReply \<Rightarrow> EnrollmentFailure + EnrollmentProof" where
  "redeem_proof L recipient_nonce invite sister_id sister_key reply =
     (case reply of
        Reply_Rejected reason \<Rightarrow> Err (Failure_Rejected (from_core reason))
      | Reply_Challenge challenge \<Rightarrow>
          if ec_protocol_version challenge \<noteq> ENROLLMENT_PROTOCOL_VERSION
             \<or> ec_network_id challenge \<noteq> ei_network_id invite
             \<or> ec_invite_digest challenge \<noteq> EnrollmentInvite_digest L invite
             \<or> ec_sister_id challenge \<noteq> sister_id
             \<or> ec_sister_public_key challenge \<noteq> SisterKeyPair_public_key L sister_key
             \<or> ec_recipient_nonce challenge \<noteq> recipient_nonce
          then Err (Failure_Rejected Kind_InvalidInvite)
          else Ok (EnrollmentChallenge_solve L challenge sister_key))"

text \<open>\<open>far_reply\<close> and \<open>far_response\<close> are the other end of the stream: what reading the reply to the
  request, and the response to the proof, gives (or the failure to write what they answer).\<close>

definition redeem ::
    "lib \<Rightarrow> arr32 \<Rightarrow> (EnrollmentRequest \<Rightarrow> frame_error + ServerReply) \<Rightarrow> (EnrollmentRequest \<Rightarrow> EnrollmentProof \<Rightarrow> frame_error + EnrollmentResponse)
      \<Rightarrow> EnrollmentInvite \<Rightarrow> SisterId \<Rightarrow> SisterKeyPair \<Rightarrow> EnrollmentFailure + EnrollmentResponse" where
  "redeem L recipient_nonce far_reply far_response invite sister_id sister_key =
     (let request = EnrollmentRequest_new invite sister_id (SisterKeyPair_public_key L sister_key) recipient_nonce
      in case far_reply request of
           Inl e \<Rightarrow> Err (frame_failure e)
         | Inr reply \<Rightarrow>
             (case redeem_proof L recipient_nonce invite sister_id sister_key reply of
                Inl e \<Rightarrow> Err e
              | Inr proof' \<Rightarrow>
                  (case far_response request proof' of
                     Inl e \<Rightarrow> Err (frame_failure e)
                   | Inr response \<Rightarrow>
                       (case ers_outcome response of
                          Rejected reason \<Rightarrow> Err (Failure_Rejected (from_core reason))
                        | Accepted _ _ _ \<Rightarrow> Ok response))))"

section \<open>Installing a Network\<close>

datatype JoinError = Join_Io | Join_Store | Conflict | Verification

record NetworkInstall =
  ni_bundle :: EnrollmentBundle
  ni_gateways :: "string list option"

text \<open>The network-scoped files of a config directory, or of the staging directory\<close>

record NetworkFiles =
  nf_network_id :: "NetworkId disk"
  nf_authority :: "NetworkAuthority disk"
  nf_membership :: "MembershipCertificate disk"
  nf_records :: "PeerRecord list disk"
  nf_gateways :: "string list disk"

definition no_files :: NetworkFiles where
  "no_files = \<lparr>nf_network_id = Absent, nf_authority = Absent, nf_membership = Absent, nf_records = Absent, nf_gateways = Absent\<rparr>"

datatype network_file = NetworkIdFile | AuthorityFile | MembershipFile | RecordsFile | GatewaysFile

definition guard_existing_network :: "NetworkFiles \<Rightarrow> NetworkId \<Rightarrow> JoinError + unit" where
  "guard_existing_network dir network_id =
     (case NetworkIdStore_load (nf_network_id dir) of
        Inl _ \<Rightarrow> Err Join_Store
      | Inr existing \<Rightarrow>
          if (case existing of Some e \<Rightarrow> e \<noteq> network_id | None \<Rightarrow> False) then Err Conflict
          else (case NetworkAuthorityStore_load (nf_authority dir) of
                  Inl _ \<Rightarrow> Err Join_Store
                | Inr existing \<Rightarrow>
                    if (case existing of Some a \<Rightarrow> na_network_id a \<noteq> network_id | None \<Rightarrow> False) then Err Conflict else Ok ()))"

record install_env =
  ie_create_dir :: bool
  ie_create_staging :: bool
  ie_write :: "network_file \<Rightarrow> write_outcome"
  ie_rename :: "network_file \<Rightarrow> bool"

text \<open>The files written to the staging directory, up to the first write that fails\<close>

definition stage_files :: "install_env \<Rightarrow> NetworkInstall \<Rightarrow> JoinError + NetworkFiles" where
  "stage_files E install =
     (let bundle = ni_bundle install; network_id = na_network_id (eb_authority bundle)
      in case NetworkIdStore_load_or_init (Some network_id, network_id) (ie_write E NetworkIdFile) Absent of
           (Inl _, _) \<Rightarrow> Err Join_Store
         | (Inr _, fid) \<Rightarrow>
      (case install_descriptor (eb_authority bundle) (ie_write E AuthorityFile) Absent of
           (Inl _, _) \<Rightarrow> Err Join_Store
         | (Inr _, fa) \<Rightarrow>
      (case MembershipStore_save (ie_write E MembershipFile) (eb_membership bundle) Absent of
           (Inl _, _) \<Rightarrow> Err Join_Store
         | (Inr _, fm) \<Rightarrow>
      (let records = hm_collect (map (\<lambda>r. (pr_sister_id r, r)) (eb_bootstrap_records bundle));
           fr = PeerRecordStore_save (ie_write E RecordsFile) records Absent
       in if ie_write E RecordsFile \<noteq> Written then Err Join_Io
          else (case ni_gateways install of
                  None \<Rightarrow> Ok \<lparr>nf_network_id = fid, nf_authority = fa, nf_membership = fm, nf_records = fr, nf_gateways = Absent\<rparr>
                | Some gateways \<Rightarrow>
                    (case GatewayStore_save (ie_write E GatewaysFile) gateways Absent of
                       (Inl _, _) \<Rightarrow> Err Join_Io
                     | (Inr _, fg) \<Rightarrow> Ok \<lparr>nf_network_id = fid, nf_authority = fa, nf_membership = fm, nf_records = fr, nf_gateways = fg\<rparr>))))))"

definition staged_names :: "NetworkInstall \<Rightarrow> network_file list" where
  "staged_names install =
     [NetworkIdFile, AuthorityFile, MembershipFile, RecordsFile] @ (if ni_gateways install = None then [] else [GatewaysFile])"

definition stage_and_validate :: "lib \<Rightarrow> install_env \<Rightarrow> NetworkInstall \<Rightarrow> JoinError + NetworkFiles \<times> network_file list" where
  "stage_and_validate L E install =
     (case stage_files E install of
        Inl e \<Rightarrow> Err e
      | Inr staging \<Rightarrow>
          (case NetworkAuthorityStore_load (nf_authority staging) of
             Inl _ \<Rightarrow> Err Join_Store
           | Inr None \<Rightarrow> Err Verification
           | Inr (Some authority) \<Rightarrow>
               (case MembershipStore_load (nf_membership staging) of
                  Inl _ \<Rightarrow> Err Join_Store
                | Inr None \<Rightarrow> Err Verification
                | Inr (Some membership) \<Rightarrow>
                    if membership \<noteq> eb_membership (ni_bundle install) \<or> \<not> MembershipCertificate_verify L membership authority
                       \<or> authority \<noteq> eb_authority (ni_bundle install)
                    then Err Verification
                    else Ok (staging, staged_names install))))"

fun move_file :: "NetworkFiles \<Rightarrow> network_file \<Rightarrow> NetworkFiles \<Rightarrow> NetworkFiles" where
  "move_file staging NetworkIdFile dir = dir\<lparr>nf_network_id := nf_network_id staging\<rparr>"
| "move_file staging AuthorityFile dir = dir\<lparr>nf_authority := nf_authority staging\<rparr>"
| "move_file staging MembershipFile dir = dir\<lparr>nf_membership := nf_membership staging\<rparr>"
| "move_file staging RecordsFile dir = dir\<lparr>nf_records := nf_records staging\<rparr>"
| "move_file staging GatewaysFile dir = dir\<lparr>nf_gateways := nf_gateways staging\<rparr>"

fun commit_staged :: "install_env \<Rightarrow> NetworkFiles \<Rightarrow> network_file list \<Rightarrow> NetworkFiles \<Rightarrow> (JoinError + unit) \<times> NetworkFiles" where
  "commit_staged E staging [] dir = (Ok (), dir)"
| "commit_staged E staging (name # names) dir =
     (if ie_rename E name then commit_staged E staging names (move_file staging name dir) else (Err Join_Io, dir))"

definition install_network :: "lib \<Rightarrow> install_env \<Rightarrow> NetworkInstall \<Rightarrow> NetworkFiles \<Rightarrow> (JoinError + unit) \<times> NetworkFiles" where
  "install_network L E install dir =
     (if \<not> ie_create_dir E then (Err Join_Io, dir)
      else case guard_existing_network dir (na_network_id (eb_authority (ni_bundle install))) of
        Inl e \<Rightarrow> (Err e, dir)
      | Inr _ \<Rightarrow>
          if \<not> ie_create_staging E then (Err Join_Io, dir)
          else (case stage_and_validate L E install of
                  Inl e \<Rightarrow> (Err e, dir)
                | Inr (staging, names) \<Rightarrow> commit_staged E staging names dir))"

section \<open>The commands\<close>

text \<open>The files of the Authority device the commands read\<close>

record AuthorityDevice =
  ad_authority :: AuthorityFiles
  ad_identity :: "SisterIdentity disk"
  ad_sister_key :: "SisterKeyPair disk"
  ad_endpoint :: "string disk"
  ad_binding :: "TransportBinding disk"
  ad_records :: "PeerRecord list disk"
  ad_serial :: "string disk"

definition load_local_peer_record ::
    "lib \<Rightarrow> u64 \<Rightarrow> string disk \<Rightarrow> TransportBinding disk \<Rightarrow> NetworkId \<Rightarrow> SisterIdentity \<Rightarrow> SisterKeyPair \<Rightarrow> unit + PeerRecord option" where
  "load_local_peer_record L now endpoint_file binding_file network_id identity sister_key =
     (case load_disk () () endpoint_file of
        Inl e \<Rightarrow> Err ()
      | Inr endpoint \<Rightarrow>
          (case TransportBindingStore_load binding_file of
             Inl _ \<Rightarrow> Err ()
           | Inr binding \<Rightarrow>
               (case (endpoint, binding) of
                  (Some endpoint, Some binding) \<Rightarrow>
                    if \<not> TransportBinding_verify L binding \<or> tb_network_id binding \<noteq> network_id
                       \<or> tb_sister_id binding \<noteq> si_id identity \<or> tb_sister_public_key binding \<noteq> SisterKeyPair_public_key L sister_key
                    then Err ()
                    else Ok (Some (PeerRecord_issue L network_id (si_id identity) (''iroh://'' @ endpoint) binding now sister_key))
                | _ \<Rightarrow> Ok None)))"

definition current_enrollment_locator :: "lib \<Rightarrow> u64 \<Rightarrow> AuthorityDevice \<Rightarrow> NetworkId \<Rightarrow> unit + PeerRecord option" where
  "current_enrollment_locator L now device network_id =
     (case IdentityStore_load (ad_identity device) of
        Inl _ \<Rightarrow> Err ()
      | Inr identity \<Rightarrow>
          (case SisterKeyStore_load (ad_sister_key device) of
             Inl _ \<Rightarrow> Err ()
           | Inr sister_key \<Rightarrow>
               (case (identity, sister_key) of
                  (Some identity, Some sister_key) \<Rightarrow>
                    load_local_peer_record L now (ad_endpoint device) (ad_binding device) network_id identity sister_key
                | _ \<Rightarrow> Ok None)))"


definition strip_suffix :: "string \<Rightarrow> string \<Rightarrow> string option" where
  "strip_suffix s suffix = map_option rev (strip_prefix (rev suffix) (rev s))"

definition or_else :: "'a option \<Rightarrow> 'a option \<Rightarrow> 'a option" where
  "or_else a b = (case a of None \<Rightarrow> b | Some _ \<Rightarrow> a)"

definition to_ascii_lowercase :: "string \<Rightarrow> string" where
  "to_ascii_lowercase s = map (\<lambda>c. let n = (of_char c :: nat) in if 65 \<le> n \<and> n \<le> 90 then char_of (n + 32) else c) s"

definition MAX_INVITE_TTL_SECS :: u64 where
  "MAX_INVITE_TTL_SECS = 7 * 60 * 60 * 24"

definition checked_mul :: "u64 \<Rightarrow> u64 \<Rightarrow> u64 option" where
  "checked_mul a b = (if unat a * unat b < 2 ^ 64 then Some (a * b) else None)"

text \<open>The number and the unit of an expiry\<close>

definition expiry_unit :: "string \<Rightarrow> string \<times> u64" where
  "expiry_unit value =
     (case or_else (or_else (strip_suffix value ''secs'') (strip_suffix value ''seconds'')) (strip_suffix value ''s'') of
        Some n \<Rightarrow> (n, 1)
      | None \<Rightarrow>
     (case or_else (or_else (strip_suffix value ''hours'') (strip_suffix value ''hour'')) (strip_suffix value ''h'') of
        Some n \<Rightarrow> (n, 3600)
      | None \<Rightarrow>
     (case or_else (or_else (or_else (or_else (strip_suffix value ''minutes'') (strip_suffix value ''minute'')) (strip_suffix value ''mins''))
             (strip_suffix value ''min'')) (strip_suffix value ''m'') of
        Some n \<Rightarrow> (n, 60)
      | None \<Rightarrow>
     (case or_else (or_else (strip_suffix value ''days'') (strip_suffix value ''day'')) (strip_suffix value ''d'') of
        Some n \<Rightarrow> (n, 86400)
      | None \<Rightarrow> (value, 1)))))"

definition parse_invite_expiry :: "string \<Rightarrow> u64 option" where
  "parse_invite_expiry value =
     (let value = to_ascii_lowercase (trim value)
      in if value = [] then None
         else case expiry_unit value of (number, multiplier) \<Rightarrow>
           (let number = trim number
            in if number = [] then None
               else case parse_u64 number of
                 None \<Rightarrow> None
               | Some parsed \<Rightarrow>
                   (case checked_mul parsed multiplier of
                      None \<Rightarrow> None
                    | Some secs \<Rightarrow> if secs = 0 then None else if secs > MAX_INVITE_TTL_SECS then None else Some secs)))"

datatype InviteError = No_authority | Network_mismatch | Bad_expiry | No_locator | Invite_io

text \<open>\<open>misaka network invite\<close>: the invite and its code\<close>

definition network_invite ::
    "lib \<Rightarrow> u64 \<Rightarrow> u64 \<Rightarrow> arr32 \<Rightarrow> write_outcome \<Rightarrow> NetworkId option \<Rightarrow> string \<Rightarrow> AuthorityDevice \<Rightarrow> NetworkId disk
      \<Rightarrow> InviteError + (NetworkId \<times> string)" where
  "network_invite L now_locator now nonce w requested expires device network_id_file =
     (case NetworkAuthorityStore_load_with_key L (ad_authority device) of
        Inl _ \<Rightarrow> Err Invite_io
      | Inr None \<Rightarrow> Err No_authority
      | Inr (Some (authority, authority_key)) \<Rightarrow>
          if (case requested of Some r \<Rightarrow> r \<noteq> na_network_id authority | None \<Rightarrow> False) then Err Network_mismatch
          else if \<not> is_ok (fst (NetworkIdStore_load_or_init (Some (na_network_id authority), na_network_id authority) w network_id_file)) then Err Invite_io
          else (case parse_invite_expiry expires of
             None \<Rightarrow> Err Bad_expiry
           | Some ttl_secs \<Rightarrow>
               (case current_enrollment_locator L now_locator device (na_network_id authority) of
                  Inl _ \<Rightarrow> Err Invite_io
                | Inr None \<Rightarrow> Err No_locator
                | Inr (Some locator) \<Rightarrow>
                    (case encode_code L (EnrollmentInvite_issue L authority authority_key now (saturating_add now ttl_secs) nonce locator) of
                       Inl _ \<Rightarrow> Err Invite_io
                     | Inr code \<Rightarrow> Ok (na_network_id authority, code)))))"

definition build_enrollment_server ::
    "lib \<Rightarrow> AuthorityDevice \<Rightarrow> NetworkId \<Rightarrow> SisterIdentity \<Rightarrow> PeerRecord option \<Rightarrow> unit + EnrollmentServer option" where
  "build_enrollment_server L device network_id identity peer_record =
     (case NetworkAuthorityStore_load_with_key L (ad_authority device) of
        Inl _ \<Rightarrow> Err ()
      | Inr None \<Rightarrow> Ok None
      | Inr (Some (authority, authority_key)) \<Rightarrow>
          if na_network_id authority \<noteq> network_id then Ok None
          else (case peer_record of
             None \<Rightarrow> Ok None
           | Some peer_record \<Rightarrow>
               (case TransportBindingStore_load (ad_binding device) of
                  Inl _ \<Rightarrow> Err ()
                | Inr None \<Rightarrow> Ok None
                | Inr (Some binding) \<Rightarrow>
                    if \<not> TransportBinding_verify L binding \<or> tb_network_id binding \<noteq> network_id \<or> \<not> PeerRecord_verify L peer_record
                    then Ok None
                    else let extra_bootstrap = filter (\<lambda>r. pr_sister_id r \<noteq> pr_sister_id peer_record)
                               (hm_values (PeerRecordStore_load L (ad_records device) network_id))
                         in (case EnrollmentServer_new (ad_serial device) network_id authority authority_key (si_id identity)
                                    (tb_iroh_endpoint_id binding) peer_record extra_bootstrap of
                               Inl _ \<Rightarrow> Err () | Inr server \<Rightarrow> Ok (Some server)))))"

datatype JoinFailure = Bad_code | Invalid_invite | Other_network | Local_io | Bad_locator | Unreachable
  | Refused EnrollmentFailure | Response_rejected EnrollmentRejection | Install_failed JoinError

record JoinDevice =
  jo_identity :: "SisterIdentity disk"
  jo_sister_key :: "SisterKeyPair disk"
  jo_files :: NetworkFiles

record join_env =
  je_now :: u64
  je_later :: u64
  je_nonce :: arr32
  je_create_dir :: bool
  je_generate :: "string option \<Rightarrow> u16 \<Rightarrow> SisterIdentity"
  je_identity_write :: write_outcome
  je_fresh_key :: SisterKeyPair
  je_chmod :: bool
  je_key_write :: write_outcome
  je_parse_endpoint :: "string \<Rightarrow> bool"
  je_connect :: bool
  je_install :: install_env

definition join_install ::
    "lib \<Rightarrow> join_env \<Rightarrow> EnrollmentInvite \<Rightarrow> EnrollmentResponse \<Rightarrow> NetworkId \<Rightarrow> SisterId \<Rightarrow> SisterKeyPair \<Rightarrow> string option \<Rightarrow> NetworkFiles
      \<Rightarrow> (JoinFailure + unit) \<times> NetworkFiles" where
  "join_install L J invite response expected_network_id sister_id sister_key gateway files =
     (case validate_received L response invite expected_network_id sister_id (SisterKeyPair_public_key L sister_key) (je_later J) of
        Inl reason \<Rightarrow> (Err (Response_rejected reason), files)
      | Inr bundle \<Rightarrow>
          let gateways = (case gateway of None \<Rightarrow> None
                | Some value \<Rightarrow> if normalize_url value = [] then None else Some [normalize_url value])
          in (case install_network L (je_install J) \<lparr>ni_bundle = bundle, ni_gateways = gateways\<rparr> files of
                (Inl e, files') \<Rightarrow> (Err (Install_failed e), files') | (Inr _, files') \<Rightarrow> (Ok (), files')))"

definition join_network ::
    "lib \<Rightarrow> (bytes \<Rightarrow> EnrollmentInvite option) \<Rightarrow> join_env
      \<Rightarrow> (EnrollmentRequest \<Rightarrow> frame_error + ServerReply) \<Rightarrow> (EnrollmentRequest \<Rightarrow> EnrollmentProof \<Rightarrow> frame_error + EnrollmentResponse)
      \<Rightarrow> NetworkId \<Rightarrow> string \<Rightarrow> string option \<Rightarrow> JoinDevice \<Rightarrow> (JoinFailure + unit) \<times> JoinDevice" where
  "join_network L de J far_reply far_response expected_network_id invite_code gateway device =
     (case decode_code de invite_code of
        Inl _ \<Rightarrow> (Err Bad_code, device)
      | Inr invite \<Rightarrow>
          if \<not> EnrollmentInvite_verify L invite (je_now J) then (Err Invalid_invite, device)
          else if \<not> EnrollmentInvite_matches_network invite expected_network_id then (Err Other_network, device)
          else if \<not> je_create_dir J then (Err Local_io, device)
          else (case IdentityStore_load_or_init Written (je_identity_write J) (je_generate J) None 31700 (jo_identity device) of
             (Inl _, f) \<Rightarrow> (Err Local_io, device\<lparr>jo_identity := f\<rparr>)
           | (Inr identity, f) \<Rightarrow>
             (let device = device\<lparr>jo_identity := f\<rparr>
              in case SisterKeyStore_load_or_init (je_fresh_key J, je_chmod J) (je_key_write J) (jo_sister_key device) of
                (Inl _, f) \<Rightarrow> (Err Local_io, device\<lparr>jo_sister_key := f\<rparr>)
              | (Inr sister_key, f) \<Rightarrow>
                (let device = device\<lparr>jo_sister_key := f\<rparr>
                 in if \<not> je_parse_endpoint J (pr_endpoint_addr (ei_locator invite)) then (Err Bad_locator, device)
                    else if \<not> je_connect J then (Err Unreachable, device)
                    else (case redeem L (je_nonce J) far_reply far_response invite (si_id identity) sister_key of
                       Inl e \<Rightarrow> (Err (Refused e), device)
                     | Inr response \<Rightarrow>
                         (case join_install L J invite response expected_network_id (si_id identity) sister_key gateway (jo_files device) of
                            (r, files) \<Rightarrow> (r, device\<lparr>jo_files := files\<rparr>)))))))"

section \<open>Installation\<close>

definition bundle_files :: "NetworkInstall \<Rightarrow> NetworkFiles" where
  "bundle_files install =
     (let b = ni_bundle install
      in \<lparr>nf_network_id = Holds (na_network_id (eb_authority b)), nf_authority = Holds (eb_authority b), nf_membership = Holds (eb_membership b),
          nf_records = Holds (sort_key pr_sister_id (hm_values (hm_collect (map (\<lambda>r. (pr_sister_id r, r)) (eb_bootstrap_records b))))),
          nf_gateways = (case ni_gateways install of None \<Rightarrow> Absent | Some g \<Rightarrow> Holds g)\<rparr>)"

lemma stage_files_ok: "stage_files E install = Ok staging \<Longrightarrow> staging = bundle_files install"
  by (cases "ie_write E NetworkIdFile"; cases "ie_write E AuthorityFile"; cases "ie_write E MembershipFile"; cases "ie_write E RecordsFile";
      cases "ie_write E GatewaysFile")
    (auto simp: stage_files_def bundle_files_def Let_def NetworkIdStore_load_or_init_def NetworkIdStore_load_def install_descriptor_def
      NetworkAuthorityStore_load_def MembershipStore_save_def PeerRecordStore_save_def GatewayStore_save_def split: option.splits)

lemma stage_validate_ok:
  assumes "stage_and_validate L E install = Ok (staging, names)"
  shows "staging = bundle_files install" "names = staged_names install"
    "MembershipCertificate_verify L (eb_membership (ni_bundle install)) (eb_authority (ni_bundle install))"
  using assms
  by (auto simp: stage_and_validate_def bundle_files_def Let_def NetworkAuthorityStore_load_def MembershipStore_load_def
      split: sum.splits if_splits option.splits dest!: stage_files_ok)

text \<open>The commit: what has been moved, in the order of the renames\<close>

lemma commit_prefix: "\<exists>moved rest. names = moved @ rest \<and> snd (commit_staged E staging names dir) = fold (move_file staging) moved dir
    \<and> (is_ok (fst (commit_staged E staging names dir)) \<longleftrightarrow> rest = [])"
proof (induction names arbitrary: dir)
  case Nil
  then show ?case by simp
next
  case (Cons name names)
  show ?case
  proof (cases "ie_rename E name")
    case True
    from Cons.IH [of "move_file staging name dir"] obtain moved rest where
      "names = moved @ rest" "snd (commit_staged E staging names (move_file staging name dir)) = fold (move_file staging) moved (move_file staging name dir)"
      "is_ok (fst (commit_staged E staging names (move_file staging name dir))) \<longleftrightarrow> rest = []" by blast
    with True show ?thesis by (intro exI [of _ "name # moved"] exI [of _ rest]) simp
  next
    case False
    then show ?thesis by (intro exI [of _ "[]"] exI [of _ "name # names"]) simp
  qed
qed

text \<open>Up to the first rename the directory is untouched; afterwards its files are those of the bundle, in this order.\<close>

definition installed_part :: "NetworkInstall \<Rightarrow> NetworkFiles \<Rightarrow> NetworkFiles \<Rightarrow> bool" where
  "installed_part install dir dir' \<longleftrightarrow> (\<exists>k \<le> length (staged_names install).
     dir' = fold (move_file (bundle_files install)) (take k (staged_names install)) dir)"

lemma install_cases:
  assumes "install_network L E install dir = (r, dir')"
  shows "dir' = dir \<and> \<not> is_ok r
    \<or> guard_existing_network dir (na_network_id (eb_authority (ni_bundle install))) = Ok ()
      \<and> MembershipCertificate_verify L (eb_membership (ni_bundle install)) (eb_authority (ni_bundle install))
      \<and> commit_staged E (bundle_files install) (staged_names install) dir = (r, dir')"
proof (cases "stage_and_validate L E install")
  case (Inl e)
  with assms show ?thesis
    by (cases "guard_existing_network dir (na_network_id (eb_authority (ni_bundle install)))") (auto simp: install_network_def split: if_splits dest: sym [of "Err _"])
next
  case (Inr staged)
  then obtain staging names where "stage_and_validate L E install = Ok (staging, names)" by (cases staged) auto
  with stage_validate_ok [OF this] assms show ?thesis
    by (cases "guard_existing_network dir (na_network_id (eb_authority (ni_bundle install)))") (auto simp: install_network_def split: if_splits dest: sym [of "Err _"])
qed

lemma install_parts:
  assumes "install_network L E install dir = (r, dir')"
  shows "installed_part install dir dir'" "is_ok r \<Longrightarrow> dir' = fold (move_file (bundle_files install)) (staged_names install) dir"
proof -
  obtain moved rest where *: "staged_names install = moved @ rest"
    "snd (commit_staged E (bundle_files install) (staged_names install) dir) = fold (move_file (bundle_files install)) moved dir"
    "is_ok (fst (commit_staged E (bundle_files install) (staged_names install) dir)) \<longleftrightarrow> rest = []"
    using commit_prefix by blast
  have none: "installed_part install dir dir" unfolding installed_part_def by (intro exI [of _ 0]) simp
  have some: "installed_part install dir (fold (move_file (bundle_files install)) moved dir)"
    unfolding installed_part_def by (intro exI [of _ "length moved"]) (simp add: *(1))
  from install_cases [OF assms] show "installed_part install dir dir'"
    using none some *(2) by (elim disjE conjE) simp_all
  show "is_ok r \<Longrightarrow> dir' = fold (move_file (bundle_files install)) (staged_names install) dir"
    using * install_cases [OF assms] by auto
qed

text \<open>C18: Whatever fails while a Network is installed, and wherever the sequence of renames stops, a
  directory never shows a membership without the authority that signed it: either nothing has changed, or
  the directory belonged to no other Network, the membership verifies under the authority, and the files
  that were replaced are those of the bundle, the authority before the membership. An installation that
  succeeds has replaced all of them.\<close>

theorem install_consistent:
  assumes "install_network L E install dir = (r, dir')"
  shows "dir' = dir
    \<or> guard_existing_network dir (na_network_id (eb_authority (ni_bundle install))) = Ok ()
      \<and> MembershipCertificate_verify L (eb_membership (ni_bundle install)) (eb_authority (ni_bundle install))
      \<and> nf_network_id dir' = Holds (na_network_id (eb_authority (ni_bundle install)))
      \<and> (nf_membership dir' \<noteq> nf_membership dir \<or> is_ok r \<longrightarrow>
           nf_authority dir' = Holds (eb_authority (ni_bundle install)) \<and> nf_membership dir' = Holds (eb_membership (ni_bundle install)))"
proof (cases "dir' = dir")
  case False
  note parts = install_parts [OF assms]
  from parts(1) obtain k where k: "dir' = fold (move_file (bundle_files install)) (take k (staged_names install)) dir"
    by (auto simp: installed_part_def)
  have ok: "is_ok r \<Longrightarrow> nf_authority dir' = Holds (eb_authority (ni_bundle install)) \<and> nf_membership dir' = Holds (eb_membership (ni_bundle install))"
    using parts(2) by (auto simp: staged_names_def bundle_files_def Let_def)
  have "k \<noteq> 0" using False k by (cases k) auto
  then consider "k = 1" | "k = 2" | j where "k = Suc (Suc (Suc j))" by (metis One_nat_def Suc_1 not0_implies_Suc)
  then have "nf_network_id dir' = Holds (na_network_id (eb_authority (ni_bundle install)))
      \<and> (nf_membership dir' \<noteq> nf_membership dir \<longrightarrow>
           nf_authority dir' = Holds (eb_authority (ni_bundle install)) \<and> nf_membership dir' = Holds (eb_membership (ni_bundle install)))"
  proof cases
    case 3
    then show ?thesis unfolding k by (cases j; cases "j - 1") (auto simp: staged_names_def bundle_files_def Let_def take_Cons')
  qed (auto simp: k staged_names_def bundle_files_def Let_def take_Cons')
  with install_cases [OF assms] False ok show ?thesis by blast
qed simp

definition install_fine :: install_env where
  "install_fine = \<lparr>ie_create_dir = True, ie_create_staging = True, ie_write = \<lambda>_. Written, ie_rename = \<lambda>_. True\<rparr>"

lemma commit_fine: "commit_staged install_fine staging names dir = (Ok (), fold (move_file staging) names dir)"
  by (induction names arbitrary: dir) (simp_all add: install_fine_def)

lemma install_succeeds:
  assumes "guard_existing_network dir (na_network_id (eb_authority (ni_bundle install))) = Ok ()"
    and "MembershipCertificate_verify L (eb_membership (ni_bundle install)) (eb_authority (ni_bundle install))"
  shows "install_network L install_fine install dir = (Ok (), fold (move_file (bundle_files install)) (staged_names install) dir)"
proof -
  have staged: "stage_files install_fine install = Ok (bundle_files install)"
    by (simp add: stage_files_def install_fine_def bundle_files_def Let_def NetworkIdStore_load_or_init_def NetworkIdStore_load_def
        install_descriptor_def NetworkAuthorityStore_load_def MembershipStore_save_def PeerRecordStore_save_def GatewayStore_save_def split: option.splits)
  have "stage_and_validate L install_fine install = Ok (bundle_files install, staged_names install)"
    using assms(2) unfolding stage_and_validate_def staged
    by (simp add: bundle_files_def Let_def NetworkAuthorityStore_load_def MembershipStore_load_def)
  with assms(1) commit_fine show ?thesis by (simp add: install_network_def install_fine_def [symmetric]) (simp add: install_fine_def)
qed

theorem install_consistent_witness:
  "(let b = \<lparr>eb_authority = sample_authority, eb_membership = MembershipCertificate_issue lib0 sample_authority 9 3 4 10 None 1, eb_bootstrap_records = []\<rparr>;
        dir' = snd (install_network lib0 install_fine \<lparr>ni_bundle = b, ni_gateways = None\<rparr> no_files)
    in nf_authority dir' = Holds sample_authority \<and> nf_membership dir' = Holds (eb_membership b))"
proof -
  let ?m = "MembershipCertificate_issue lib0 sample_authority 9 3 4 10 None 1"
  let ?i = "\<lparr>ni_bundle = \<lparr>eb_authority = sample_authority, eb_membership = ?m, eb_bootstrap_records = []\<rparr>, ni_gateways = None\<rparr>"
  have "MembershipCertificate_verify lib0 ?m sample_authority"
    by (rule MembershipCertificate_issue_verify) (simp_all add: sample_authority_def)
  then have run: "install_network lib0 install_fine ?i no_files = (Ok (), fold (move_file (bundle_files ?i)) (staged_names ?i) no_files)"
    by (intro install_succeeds) (simp_all add: guard_existing_network_def no_files_def NetworkIdStore_load_def NetworkAuthorityStore_load_def)
  have "fold (move_file (bundle_files ?i)) (staged_names ?i) no_files \<noteq> no_files"
    by (simp add: staged_names_def bundle_files_def no_files_def Let_def)
  with install_consistent [OF run] run show ?thesis by (simp add: Let_def)
qed

text \<open>C39: An installation replaces the authority of a Network. The guard compares Network ids only, and the
  staged descriptor is renamed over the installed one: a bundle whose authority has the same Network id and
  another key takes the place of the installed authority, which the store of the descriptor itself refuses.\<close>

theorem join_replaces_authority:
  assumes "nf_network_id dir = Holds (na_network_id old)" "nf_authority dir = Holds old"
    and "na_network_id (eb_authority b) = na_network_id old" "eb_authority b \<noteq> old"
    and "MembershipCertificate_verify L (eb_membership b) (eb_authority b)"
  shows "fst (install_network L install_fine \<lparr>ni_bundle = b, ni_gateways = g\<rparr> dir) = Ok ()
    \<and> nf_authority (snd (install_network L install_fine \<lparr>ni_bundle = b, ni_gateways = g\<rparr> dir)) = Holds (eb_authority b)
    \<and> install_descriptor (eb_authority b) Written (nf_authority dir) = (Err DescriptorMismatch, Holds old)"
proof -
  have "install_network L install_fine \<lparr>ni_bundle = b, ni_gateways = g\<rparr> dir
      = (Ok (), fold (move_file (bundle_files \<lparr>ni_bundle = b, ni_gateways = g\<rparr>)) (staged_names \<lparr>ni_bundle = b, ni_gateways = g\<rparr>) dir)"
    by (rule install_succeeds) (use assms in \<open>simp_all add: guard_existing_network_def NetworkIdStore_load_def NetworkAuthorityStore_load_def\<close>)
  with assms show ?thesis
    by (simp add: staged_names_def bundle_files_def Let_def install_descriptor_def NetworkAuthorityStore_load_def)
qed

theorem join_replaces_authority_witness:
  "(let old = sample_authority; new = authority_of lib0 7 8; m = MembershipCertificate_issue lib0 new 8 3 4 10 None 1;
        dir = no_files\<lparr>nf_network_id := Holds 7, nf_authority := Holds old\<rparr>;
        i = \<lparr>ni_bundle = \<lparr>eb_authority = new, eb_membership = m, eb_bootstrap_records = []\<rparr>, ni_gateways = None\<rparr>
    in nf_authority (snd (install_network lib0 install_fine i dir)) = Holds new \<and> new \<noteq> old)"
proof -
  let ?new = "authority_of lib0 7 8" and ?m = "MembershipCertificate_issue lib0 (authority_of lib0 7 8) 8 3 4 10 None 1"
  have "na_authority_public_key ?new \<noteq> na_authority_public_key sample_authority"
    by (simp add: sample_authority_def)
  then have neq: "?new \<noteq> sample_authority" by metis
  have "na_network_id ?new = 7" "na_network_id sample_authority = 7" by (simp_all add: sample_authority_def)
  moreover
  have "MembershipCertificate_verify lib0 ?m ?new" by (rule MembershipCertificate_issue_verify) simp_all
  ultimately show ?thesis using neq join_replaces_authority [of "no_files\<lparr>nf_network_id := Holds 7, nf_authority := Holds sample_authority\<rparr>" sample_authority
      "\<lparr>eb_authority = ?new, eb_membership = ?m, eb_bootstrap_records = []\<rparr>" lib0 None]
    by (simp add: Let_def)
qed

section \<open>Issuing\<close>

text \<open>C10: What an issued membership rests on. If a stream of the enrollment service is answered by a
  membership, its request carried an invite of exactly this Network and authority that was signed and
  unexpired at that moment, and the peer proved with a signature over the challenge of this very session,
  its fresh nonce included, that it holds the key the membership names; the serial is the next one after
  all serials issued before, and it was on the disk before the answer was sent.\<close>

theorem enrollment_issued_only:
  assumes "serve_stream L E first peer server = (r, reply, Some response, server')" "ers_outcome response = Accepted authority membership records"
  shows "\<exists>request challenge proof'. first = Ok request \<and> peer (Reply_Challenge challenge) = Ok proof'
    \<and> EnrollmentInvite_verify L (erq_invite request) (se_now E) \<and> ei_authority (erq_invite request) = es_authority server
    \<and> ei_network_id (erq_invite request) = es_network_id server \<and> ec_invite_digest challenge = EnrollmentInvite_digest L (erq_invite request)
    \<and> ec_authority_nonce challenge = se_nonce E \<and> ec_sister_public_key challenge = mc_sister_public_key membership
    \<and> SisterPublicKey_verify L (mc_sister_public_key membership) (EnrollmentChallenge_signing_bytes L challenge) proof'
    \<and> authority = es_authority server \<and> mc_sister_public_key membership = erq_sister_public_key request
    \<and> mc_sister_id membership = erq_sister_id request
    \<and> mc_serial membership = saturating_add (ms_state (es_serials server)) 1
    \<and> ms_file (es_serials server') = Holds (show_nat (unat (mc_serial membership)))"
proof -
  obtain request challenge proof' where step: "first = Ok request" "evaluate L (se_now E) (se_nonce E) server request = Ok challenge"
    "peer (Reply_Challenge challenge) = Ok proof'" "serve_proof L E request challenge proof' server = (response, server')"
    using assms(1) by (auto simp: serve_stream_def split: option.splits if_splits sum.splits prod.splits)
  have issued: "EnrollmentChallenge_verify L challenge proof'" "se_serial_write E = Text_written"
    "response = issue_membership L (se_now_issue E) server request (saturating_add (ms_state (es_serials server)) 1)"
    "ms_file (es_serials server') = Holds (show_nat (unat (saturating_add (ms_state (es_serials server)) 1)))"
    using step(4) assms(2)
    by (auto simp: serve_proof_def allocate_def Let_def EnrollmentResponse_rejected_def write_text_def split: if_splits prod.splits sum.splits)
  from step(2) have challenge: "EnrollmentInvite_verify L (erq_invite request) (se_now E)" "ei_authority (erq_invite request) = es_authority server"
    "ei_network_id (erq_invite request) = es_network_id server"
    "challenge = EnrollmentChallenge_new (es_network_id server) (EnrollmentInvite_digest L (erq_invite request)) (erq_sister_id request)
       (erq_sister_public_key request) (se_nonce E) (erq_recipient_nonce request)"
    by (auto simp: evaluate_def Let_def split: if_splits)
  with step issued assms(2) show ?thesis
    by (intro exI [of _ request] exI [of _ challenge] exI [of _ proof'])
      (auto simp: issue_membership_def Let_def EnrollmentResponse_accepted_def EnrollmentChallenge_new_def EnrollmentChallenge_verify_def)
qed

section \<open>The expiry of an invite\<close>

lemma strip_suffix_append [simp]: "strip_suffix (s @ suffix) suffix = Some s"
  by (simp add: strip_suffix_def)

lemma parse_u64_show_nat: "parse_u64 (show_nat n @ s) =
    (case parse_digits s n of None \<Rightarrow> None | Some m \<Rightarrow> if m < 2 ^ 64 then Some (of_nat m) else None)"
proof -
  obtain c cs where cs: "show_nat n = c # cs" using show_nat_ends [of n] by (cases "show_nat n") auto
  with show_nat_ends [of n] have "c \<noteq> CHR ''+''" by simp
  then have "parse_u64 (show_nat n @ s) = (case parse_digits (show_nat n @ s) 0 of None \<Rightarrow> None | Some m \<Rightarrow> if m < 2 ^ 64 then Some (of_nat m) else None)"
    by (simp only: parse_u64_def Let_def cs append_Cons list.case if_False list.distinct)
  then show ?thesis by (simp only: parse_digits_append parse_digits_show option.case)
qed

lemma show_nat_lower: "to_ascii_lowercase (show_nat n) = show_nat n"
proof (induction n rule: show_nat.induct)
  case (1 n)
  have "to_ascii_lowercase [digit_char d] = [digit_char d]" if "d < 10" for d
    using that by (simp add: to_ascii_lowercase_def digit_char_def Let_def)
  moreover have "to_ascii_lowercase (xs @ ys) = to_ascii_lowercase xs @ to_ascii_lowercase ys" for xs ys
    by (simp add: to_ascii_lowercase_def)
  ultimately show ?case using "1.IH" by (subst (1 2) show_nat.simps) simp
qed

lemma expiry_value:
  assumes "u \<noteq> []" "graphic (last u)" "to_ascii_lowercase u = u"
  shows "to_ascii_lowercase (trim (show_nat n @ u)) = show_nat n @ u" "trim (show_nat n @ u) = show_nat n @ u"
proof -
  show *: "trim (show_nat n @ u) = show_nat n @ u"
    using show_nat_ends [of n] assms(1, 2) by (intro trim_graphic) (simp_all add: hd_append)
  show "to_ascii_lowercase (trim (show_nat n @ u)) = show_nat n @ u"
    unfolding * using assms(3) show_nat_lower [of n] by (simp add: to_ascii_lowercase_def)
qed

lemmas suffix_simps = expiry_unit_def or_else_def strip_suffix_def strip_prefix_def

lemma expiry_plural:
  assumes "expiry_unit (show_nat n @ u) = (show_nat n @ v, m)" "u \<noteq> []" "graphic (last u)" "to_ascii_lowercase u = u"
    and "v \<noteq> []" "graphic (last v)" "digit_value (hd v) = None"
  shows "parse_invite_expiry (show_nat n @ u) = None"
proof -
  have "trim (show_nat n @ v) = show_nat n @ v"
    using show_nat_ends [of n] assms(5, 6) by (intro trim_graphic) (simp_all add: hd_append)
  moreover have "parse_u64 (show_nat n @ v) = None" using assms(5, 7) by (cases v) (simp_all add: parse_u64_show_nat)
  ultimately show ?thesis using assms(1, 5) expiry_value [OF assms(2-4)] by (simp add: parse_invite_expiry_def Let_def)
qed

lemma expiry_hours: "parse_invite_expiry (show_nat n @ ''h'') = (if 0 < n \<and> n \<le> 168 then Some (of_nat n * 3600) else None)"
proof -
  have unit: "expiry_unit (show_nat n @ ''h'') = (show_nat n, 3600)" by (simp add: suffix_simps)
  have "parse_u64 (show_nat n) = (if n < 2 ^ 64 then Some (of_nat n) else None)" using parse_u64_show_nat [of n "[]"] by simp
  moreover have "checked_mul (of_nat n) 3600 = (if n * 3600 < 2 ^ 64 then Some (of_nat n * 3600) else None)" if "n < 2 ^ 64"
    using that by (simp add: checked_mul_def unsigned_of_nat take_bit_nat_eq_self)
  moreover have "unat (of_nat n * 3600 :: u64) = n * 3600" if "n * 3600 < 2 ^ 64"
    using that by (simp add: unat_word_ariths unsigned_of_nat take_bit_nat_eq_self mod_mult_right_eq mod_mult_left_eq)
  ultimately show ?thesis
    using expiry_value [of "''h''" n] unit show_nat_ends [of n]
    by (auto simp: parse_invite_expiry_def Let_def graphic_def to_ascii_lowercase_def trim_show MAX_INVITE_TTL_SECS_def word_less_nat_alt
        word_le_nat_alt unat_eq_zero)
qed

text \<open>C40: What the expiry of an invite may be. A number of hours is accepted up to seven days and
  multiplied out; but the plural units the command also lists (hours, minutes, mins, days) are refused for
  every number, because their last letter is taken for the unit of seconds first.\<close>

theorem invite_expiry_units:
  "parse_invite_expiry (show_nat n @ ''h'') = (if 0 < n \<and> n \<le> 168 then Some (of_nat n * 3600) else None)
   \<and> map (\<lambda>u. parse_invite_expiry (show_nat n @ u)) [''hours'', ''minutes'', ''mins'', ''days''] = [None, None, None, None]"
proof (intro conjI expiry_hours)
  have "expiry_unit (show_nat n @ ''hours'') = (show_nat n @ ''hour'', 1)"
    "expiry_unit (show_nat n @ ''minutes'') = (show_nat n @ ''minute'', 1)" "expiry_unit (show_nat n @ ''mins'') = (show_nat n @ ''min'', 1)"
    "expiry_unit (show_nat n @ ''days'') = (show_nat n @ ''day'', 1)"
    by (simp_all add: suffix_simps)
  from this [THEN expiry_plural] show "map (\<lambda>u. parse_invite_expiry (show_nat n @ u)) [''hours'', ''minutes'', ''mins'', ''days''] = [None, None, None, None]"
    by (simp add: graphic_def to_ascii_lowercase_def digit_value_def)
qed

section \<open>A join from end to end\<close>

lemma build_server_facts:
  assumes "build_enrollment_server L device network identity (Some locator) = Ok (Some server)"
  shows "NetworkAuthorityStore_load_with_key L (ad_authority device) = Ok (Some (es_authority server, es_authority_key server))"
    "na_network_id (es_authority server) = network" "es_network_id server = network" "es_sister_id server = si_id identity"
    "es_locator server = locator" "PeerRecord_verify L locator"
    "\<exists>binding. TransportBindingStore_load (ad_binding device) = Ok (Some binding) \<and> es_iroh_endpoint_id server = tb_iroh_endpoint_id binding"
    "\<forall>r\<in>set (es_extra_bootstrap server). pr_network_id r = network \<and> PeerRecord_verify L r"
proof -
  have stored: "pr_network_id r = network \<and> PeerRecord_verify L r" if "(k, r) \<in> set (PeerRecordStore_load L f network)" for f k r
    using that hm_get_in [OF hm_collect_wf, of k r] unfolding PeerRecordStore_load_def Let_def
    by (auto simp: hm_get_collect dest!: map_of_SomeD)
  from assms stored show "NetworkAuthorityStore_load_with_key L (ad_authority device) = Ok (Some (es_authority server, es_authority_key server))"
    "na_network_id (es_authority server) = network" "es_network_id server = network" "es_sister_id server = si_id identity"
    "es_locator server = locator" "PeerRecord_verify L locator"
    "\<exists>binding. TransportBindingStore_load (ad_binding device) = Ok (Some binding) \<and> es_iroh_endpoint_id server = tb_iroh_endpoint_id binding"
    "\<forall>r\<in>set (es_extra_bootstrap server). pr_network_id r = network \<and> PeerRecord_verify L r"
    by (auto simp: build_enrollment_server_def EnrollmentServer_new_def Let_def split: sum.splits option.splits if_splits prod.splits)
qed

lemma network_invite_facts:
  assumes "ed25519_correct L" "network_invite L t now nonce w requested expires device id_file = Ok (network, code)"
    and "NetworkAuthorityStore_load_with_key L (ad_authority device) = Ok (Some (authority, key))"
    and "IdentityStore_load (ad_identity device) = Ok (Some identity)" "TransportBindingStore_load (ad_binding device) = Ok (Some binding)"
  shows "\<exists>ttl locator. parse_invite_expiry expires = Some ttl
    \<and> encode_code L (EnrollmentInvite_issue L authority key now (saturating_add now ttl) nonce locator) = Ok code
    \<and> PeerRecord_verify L locator \<and> pr_network_id locator = na_network_id authority \<and> pr_sister_id locator = si_id identity
    \<and> pr_transport_binding locator = binding \<and> (\<exists>e. pr_endpoint_addr locator = ''iroh://'' @ e)"
  using assms
  by (auto simp: network_invite_def current_enrollment_locator_def load_local_peer_record_def PeerRecord_issue_verify
      split: sum.splits option.splits if_splits prod.splits)

lemma dedup_by_subset: "set (dedup_by key xs) \<subseteq> set xs"
  by (induction key xs rule: dedup_by.induct) auto

text \<open>A server at the other end: what it sends arrives, and when it sends nothing the stream ends.\<close>

definition arrives :: "'a option \<Rightarrow> frame_error + 'a" where
  "arrives sent = (case sent of None \<Rightarrow> Err Frame_lost | Some v \<Rightarrow> Ok v)"

definition far_reply :: "lib \<Rightarrow> serve_env \<Rightarrow> EnrollmentServer \<Rightarrow> EnrollmentRequest \<Rightarrow> frame_error + ServerReply" where
  "far_reply L E server request =
     (case serve_stream L E (Ok request) (\<lambda>_. Err Frame_lost) server of (_, reply, _, _) \<Rightarrow> arrives reply)"

definition far_response :: "lib \<Rightarrow> serve_env \<Rightarrow> EnrollmentServer \<Rightarrow> EnrollmentRequest \<Rightarrow> EnrollmentProof \<Rightarrow> frame_error + EnrollmentResponse" where
  "far_response L E server request proof' =
     (case serve_stream L E (Ok request) (\<lambda>_. Ok proof') server of (_, _, response, _) \<Rightarrow> arrives response)"

definition serve_fine :: "serve_env \<Rightarrow> bool" where
  "serve_fine E \<longleftrightarrow> se_reply_written E = Ok () \<and> se_serial_write E = Text_written \<and> se_response_written E = Ok ()"

lemma exchange_completes:
  assumes "ed25519_correct L" "serve_fine E" "EnrollmentInvite_verify L invite (se_now E)"
    and "ei_network_id invite = es_network_id server" "ei_authority invite = es_authority server"
    and "pr_sister_id (ei_locator invite) = es_sister_id server"
    and "tb_iroh_endpoint_id (pr_transport_binding (ei_locator invite)) = es_iroh_endpoint_id server"
  shows "redeem L nonce (far_reply L E server) (far_response L E server) invite sister key =
    Ok (issue_membership L (se_now_issue E) server (EnrollmentRequest_new invite sister (SisterKeyPair_public_key L key) nonce)
      (saturating_add (ms_state (es_serials server)) 1))"
proof -
  let ?req = "EnrollmentRequest_new invite sister (SisterKeyPair_public_key L key) nonce"
  let ?c = "EnrollmentChallenge_new (es_network_id server) (EnrollmentInvite_digest L invite) sister (SisterKeyPair_public_key L key) (se_nonce E) nonce"
  have eval: "evaluate L (se_now E) (se_nonce E) server ?req = Ok ?c"
    using assms(3-7) by (simp add: evaluate_def EnrollmentRequest_new_def Let_def)
  have verify: "EnrollmentChallenge_verify L ?c (EnrollmentChallenge_solve L ?c key)"
    by (rule EnrollmentChallenge_solve_verify) (simp_all add: assms(1) EnrollmentChallenge_new_def)
  have "far_reply L E server ?req = Ok (Reply_Challenge ?c)"
    using eval assms(2) by (simp add: far_reply_def arrives_def serve_stream_def serve_fine_def EnrollmentRequest_new_def)
  moreover have "redeem_proof L nonce invite sister key (Reply_Challenge ?c) = Ok (EnrollmentChallenge_solve L ?c key)"
    using assms(4) by (simp add: redeem_proof_def EnrollmentChallenge_new_def)
  moreover have "far_response L E server ?req (EnrollmentChallenge_solve L ?c key) =
      Ok (issue_membership L (se_now_issue E) server ?req (saturating_add (ms_state (es_serials server)) 1))"
    using eval verify assms(2)
    by (simp add: far_response_def arrives_def serve_stream_def serve_fine_def serve_proof_def allocate_def Let_def) (simp add: EnrollmentRequest_new_def)
  ultimately show ?thesis
    by (simp add: redeem_def Let_def issue_membership_def EnrollmentResponse_accepted_def)
qed

lemma issued_validates:
  assumes "ed25519_correct L" "na_authority_public_key (es_authority server) = AuthorityKeyPair_public_key L (es_authority_key server)"
    and "na_network_id (es_authority server) = network" "ei_authority invite = es_authority server" "issue_time \<le> later"
    and "pr_network_id (es_locator server) = network" "PeerRecord_verify L (es_locator server)"
    and "\<forall>r\<in>set (es_extra_bootstrap server). pr_network_id r = network \<and> PeerRecord_verify L r"
    and request_def: "request = EnrollmentRequest_new invite sister pk nonce"
    and m_def: "m = MembershipCertificate_issue L (es_authority server) (es_authority_key server) pk sister issue_time None serial"
  shows "MembershipCertificate_verify L m (es_authority server)"
    and "validate_received L (issue_membership L issue_time server request serial) invite network sister pk later =
      Ok \<lparr>eb_authority = es_authority server, eb_membership = m,
        eb_bootstrap_records = dedup_by pr_sister_id (sort_key pr_sister_id (es_locator server # es_extra_bootstrap server))\<rparr>"
proof -
  show verify: "MembershipCertificate_verify L m (es_authority server)"
    unfolding m_def by (rule MembershipCertificate_issue_verify) (use assms(1, 2) in \<open>simp_all add: key_defs\<close>)
  have "set (dedup_by pr_sister_id (sort_key pr_sister_id (es_locator server # es_extra_bootstrap server)))
      \<subseteq> insert (es_locator server) (set (es_extra_bootstrap server))"
    using dedup_by_subset [of pr_sister_id "sort_key pr_sister_id (es_locator server # es_extra_bootstrap server)"] by (simp only: set_sort list.set)
  with assms(6-8) have "\<forall>r\<in>set (dedup_by pr_sister_id (sort_key pr_sister_id (es_locator server # es_extra_bootstrap server))).
      pr_network_id r = network \<and> PeerRecord_verify L r" by blast
  with verify assms(3-5) show "validate_received L (issue_membership L issue_time server request serial) invite network sister pk later =
      Ok \<lparr>eb_authority = es_authority server, eb_membership = m,
        eb_bootstrap_records = dedup_by pr_sister_id (sort_key pr_sister_id (es_locator server # es_extra_bootstrap server))\<rparr>"
    by (auto simp: validate_received_def issue_membership_def EnrollmentResponse_accepted_def request_def m_def EnrollmentRequest_new_def
        MembershipCertificate_is_valid_at_def list_ex_iff Let_def)
qed

text \<open>A device that can join: its files can be read, and it belongs to no other Network.\<close>

definition can_join :: "JoinDevice \<Rightarrow> NetworkId \<Rightarrow> bool" where
  "can_join device network \<longleftrightarrow> jo_identity device \<notin> {Unreadable, Malformed} \<and> jo_sister_key device \<notin> {Unreadable, Malformed}
     \<and> guard_existing_network (jo_files device) network = Ok ()"

definition join_fine :: "join_env \<Rightarrow> bool" where
  "join_fine J \<longleftrightarrow> je_create_dir J \<and> je_identity_write J = Written \<and> je_chmod J \<and> je_key_write J = Written \<and> je_connect J
     \<and> je_install J = install_fine \<and> (\<forall>e. je_parse_endpoint J (''iroh://'' @ e))"

definition member_of :: "lib \<Rightarrow> NetworkAuthority \<Rightarrow> u64 \<Rightarrow> JoinDevice \<Rightarrow> bool" where
  "member_of L authority serial device \<longleftrightarrow>
     (\<exists>identity key m. jo_identity device = Holds identity \<and> jo_sister_key device = Holds key
        \<and> nf_network_id (jo_files device) = Holds (na_network_id authority) \<and> nf_authority (jo_files device) = Holds authority
        \<and> nf_membership (jo_files device) = Holds m \<and> MembershipCertificate_verify L m authority
        \<and> mc_sister_id m = si_id identity \<and> mc_sister_public_key m = SisterKeyPair_public_key L key \<and> mc_serial m = serial)"

lemma local_identity:
  assumes "jo_identity device \<notin> {Unreadable, Malformed}" "jo_sister_key device \<notin> {Unreadable, Malformed}" "join_fine J"
  shows "\<exists>identity key. IdentityStore_load_or_init Written (je_identity_write J) (je_generate J) None 31700 (jo_identity device) = (Ok identity, Holds identity)
    \<and> SisterKeyStore_load_or_init (je_fresh_key J, je_chmod J) (je_key_write J) (jo_sister_key device) = (Ok key, Holds key)"
  using assms
  by (cases "jo_identity device"; cases "jo_sister_key device")
    (auto simp: join_fine_def IdentityStore_load_or_init_def IdentityStore_load_def IdentityStore_save_def SisterKeyStore_load_or_init_def
      SisterKeyStore_load_def write_key_def Let_def)

text \<open>C11: Joining works from end to end. The Authority device prints an invite code; a Sister running there
  builds its enrollment server; a device that belongs to no other Network joins with the code before it
  expires. With nothing failing, the join succeeds, and the device then holds the authority and a
  membership with the next serial that the authority signed for its own id and key, whatever white space
  the code was pasted with. Of the deserialiser it is assumed that it reads the invite back.\<close>

theorem join_completes:
  assumes "ed25519_correct L" "network_invite L t now nonce w requested expires device id_file = Ok (network, code)"
    and "IdentityStore_load (ad_identity device) = Ok (Some identity)"
    and "build_enrollment_server L device network identity (Some locator) = Ok (Some server)" "pr_network_id locator = network"
    and "\<forall>i. encode_code L i = Ok code \<longrightarrow> de (bincode L (EnrollmentInvite_serialize L i)) = Some i"
    and "parse_invite_expiry expires = Some ttl"
    and "now \<le> se_now E" "se_now E \<le> saturating_add now ttl" "now \<le> je_now J" "je_now J \<le> saturating_add now ttl"
    and "se_now_issue E \<le> je_later J" "serve_fine E" "join_fine J" "can_join joiner network"
    and "set before \<subseteq> set white_space" "set after \<subseteq> set white_space"
  shows "\<exists>joiner'. join_network L de J (far_reply L E server) (far_response L E server) network (concat before @ code @ concat after) gateway joiner = (Ok (), joiner')
    \<and> member_of L (es_authority server) (saturating_add (ms_state (es_serials server)) 1) joiner'"
proof -
  note srv = build_server_facts [OF assms(4)]
  have pk: "na_authority_public_key (es_authority server) = AuthorityKeyPair_public_key L (es_authority_key server)"
    using srv(1) by (auto simp: NetworkAuthorityStore_load_with_key_def split: sum.splits option.splits if_splits)
  from srv(7) obtain binding where binding: "TransportBindingStore_load (ad_binding device) = Ok (Some binding)"
    "es_iroh_endpoint_id server = tb_iroh_endpoint_id binding" by blast
  from network_invite_facts [OF assms(1, 2) srv(1) assms(3) binding(1)] assms(7) obtain loc where
    code: "encode_code L (EnrollmentInvite_issue L (es_authority server) (es_authority_key server) now (saturating_add now ttl) nonce loc) = Ok code"
    and loc: "PeerRecord_verify L loc" "pr_network_id loc = network" "pr_sister_id loc = si_id identity" "pr_transport_binding loc = binding"
      "\<exists>e. pr_endpoint_addr loc = ''iroh://'' @ e"
    using srv(2) by auto
  define invite where "invite = EnrollmentInvite_issue L (es_authority server) (es_authority_key server) now (saturating_add now ttl) nonce loc"
  have decoded: "decode_code de (concat before @ code @ concat after) = Ok invite"
    unfolding invite_def using assms(6) code by (intro decode_pasted [where de = de, OF code _ assms(16, 17)]) simp
  have verify: "EnrollmentInvite_verify L invite time" if "now \<le> time" "time \<le> saturating_add now ttl" for time
    unfolding invite_def by (subst EnrollmentInvite_issue_verify) (use assms(1) pk that loc(1, 2) srv(2) in \<open>simp_all add: key_defs\<close>)
  have invite: "ei_network_id invite = network" "ei_authority invite = es_authority server" "ei_locator invite = loc"
    using srv(2) by (simp_all add: invite_def)
  obtain id key where local: "IdentityStore_load_or_init Written (je_identity_write J) (je_generate J) None 31700 (jo_identity joiner) = (Ok id, Holds id)"
    "SisterKeyStore_load_or_init (je_fresh_key J, je_chmod J) (je_key_write J) (jo_sister_key joiner) = (Ok key, Holds key)"
    using local_identity [OF _ _ assms(14), of joiner] assms(15) by (auto simp: can_join_def)
  let ?serial = "saturating_add (ms_state (es_serials server)) 1"
  let ?req = "EnrollmentRequest_new invite (si_id id) (SisterKeyPair_public_key L key) (je_nonce J)"
  let ?m = "MembershipCertificate_issue L (es_authority server) (es_authority_key server) (SisterKeyPair_public_key L key) (si_id id) (se_now_issue E) None ?serial"
  have redeemed: "redeem L (je_nonce J) (far_reply L E server) (far_response L E server) invite (si_id id) key = Ok (issue_membership L (se_now_issue E) server ?req ?serial)"
    using invite srv(2-4) loc(3, 4) binding(2) by (intro exchange_completes [OF assms(1, 13) verify [OF assms(8, 9)]]) simp_all
  note ok = issued_validates [OF assms(1) pk srv(2) invite(2) assms(12) _ _ srv(8) refl refl, unfolded srv(5), OF assms(5) srv(6)]
  have "install_network L install_fine \<lparr>ni_bundle = \<lparr>eb_authority = es_authority server, eb_membership = ?m, eb_bootstrap_records = b\<rparr>, ni_gateways = g\<rparr> (jo_files joiner)
      = (Ok (), fold (move_file (bundle_files \<lparr>ni_bundle = \<lparr>eb_authority = es_authority server, eb_membership = ?m, eb_bootstrap_records = b\<rparr>, ni_gateways = g\<rparr>))
          (staged_names \<lparr>ni_bundle = \<lparr>eb_authority = es_authority server, eb_membership = ?m, eb_bootstrap_records = b\<rparr>, ni_gateways = g\<rparr>) (jo_files joiner))" for b g
    using assms(15) srv(2) ok(1) by (intro install_succeeds) (simp_all add: can_join_def)
  with decoded verify [OF assms(10, 11)] invite local redeemed ok assms(14) loc(5) srv(2, 5) show ?thesis
    by (auto simp: join_network_def join_install_def join_fine_def EnrollmentInvite_matches_network_def Let_def member_of_def
        staged_names_def bundle_files_def)
qed

lemma encode_code_inj:
  assumes "bincode_injective L" "uuid_injective L" "encode_code L a = encode_code L b"
  shows "a = b"
proof -
  define ty where "ty = TTup [TU16, TStr, NetworkAuthority_ty, TU64, TU64, arr_ty 32, PeerRecord_ty, TBytes]"
  have "has_ty ty (EnrollmentInvite_serialize L i)" for i by (simp add: ty_def EnrollmentInvite_serialize_def ty_simps)
  from bincode_injD [OF assms(1) this this, of a b] assms(3)
  have "EnrollmentInvite_serialize L a = EnrollmentInvite_serialize L b" by (simp add: encode_code_def)
  with assms(2) show ?thesis by (auto simp: EnrollmentInvite_serialize_def ser_inj)
qed

definition sample_binding :: TransportBinding where
  "sample_binding = TransportBinding_sign lib0 7 2 11 1 5"

definition sample_device :: AuthorityDevice where
  "sample_device = \<lparr>ad_authority = \<lparr>af_descriptor = Holds sample_authority, af_key = Holds 9\<rparr>,
     ad_identity = Holds \<lparr>si_id = 2, si_nickname = ''a'', si_hostname = ''h'', si_platform = ''p'', si_version = ''1'', si_listen_port = 1\<rparr>,
     ad_sister_key = Holds 5, ad_endpoint = Holds ''a'', ad_binding = Holds sample_binding, ad_records = Absent, ad_serial = Absent\<rparr>"

definition sample_server :: EnrollmentServer where
  "sample_server = \<lparr>es_network_id = 7, es_authority = sample_authority, es_authority_key = 9, es_sister_id = 2, es_iroh_endpoint_id = 11,
     es_locator = sample_record, es_extra_bootstrap = [], es_serials = \<lparr>ms_file = Absent, ms_state = 0\<rparr>\<rparr>"

definition sample_locator :: PeerRecord where
  "sample_locator = PeerRecord_issue lib0 7 2 ''iroh://a'' sample_binding 90 5"

definition sample_join_invite :: EnrollmentInvite where
  "sample_join_invite = EnrollmentInvite_issue lib0 sample_authority 9 100 3700 3 sample_locator"

definition sample_join_code :: string where
  "sample_join_code = INVITE_CODE_PREFIX @ base64url_encode (enc (EnrollmentInvite_serialize lib0 sample_join_invite))"

definition sample_serve :: serve_env where
  "sample_serve = \<lparr>se_now = 200, se_nonce = 12, se_reply_written = Ok (), se_serial_write = Text_written, se_now_issue = 201, se_response_written = Ok ()\<rparr>"

definition sample_join :: join_env where
  "sample_join = \<lparr>je_now = 190, je_later = 202, je_nonce = 13, je_create_dir = True,
     je_generate = \<lambda>_ port. \<lparr>si_id = 4, si_nickname = ''b'', si_hostname = ''h'', si_platform = ''p'', si_version = ''1'', si_listen_port = port\<rparr>,
     je_identity_write = Written, je_fresh_key = 6, je_chmod = True, je_key_write = Written, je_parse_endpoint = \<lambda>_. True, je_connect = True,
     je_install = install_fine\<rparr>"

lemma sample_load: "NetworkAuthorityStore_load_with_key lib0 (ad_authority sample_device) = Ok (Some (sample_authority, 9))"
  by (simp add: sample_device_def NetworkAuthorityStore_load_with_key_def NetworkAuthorityStore_load_def NetworkAuthorityStore_load_key_def
      sample_facts key_defs)

lemma sample_binding_facts:
  "TransportBinding_verify lib0 sample_binding" "tb_network_id sample_binding = 7" "tb_sister_id sample_binding = 2"
  "tb_sister_public_key sample_binding = SisterKeyPair_public_key lib0 5" "tb_iroh_endpoint_id sample_binding = 11"
  by (simp_all add: sample_binding_def TransportBinding_sign_verify)

lemma sample_expiry: "parse_invite_expiry ''1h'' = Some 3600"
proof -
  have "show_nat 1 = ''1''" by code_simp
  then show ?thesis using expiry_hours [of 1] by simp
qed

lemma sample_network_invite: "network_invite lib0 90 100 3 Written None ''1h'' sample_device Absent = Ok (7, sample_join_code)"
proof -
  show ?thesis
    unfolding network_invite_def sample_load
    by (simp add: sample_expiry current_enrollment_locator_def load_local_peer_record_def sample_device_def IdentityStore_load_def SisterKeyStore_load_def
        TransportBindingStore_load_def sample_binding_facts sample_facts NetworkIdStore_load_or_init_def NetworkIdStore_load_def encode_code_def
        sample_join_code_def sample_join_invite_def sample_locator_def saturating_add_def)
qed

lemma sample_build_server:
  "build_enrollment_server lib0 sample_device 7 \<lparr>si_id = 2, si_nickname = ''a'', si_hostname = ''h'', si_platform = ''p'', si_version = ''1'', si_listen_port = 1\<rparr>
     (Some sample_record) = Ok (Some sample_server)"
  unfolding build_enrollment_server_def sample_load
  by (simp add: sample_facts sample_device_def TransportBindingStore_load_def sample_binding_facts PeerRecordStore_load_def hm_collect_def
      EnrollmentServer_new_def MembershipSerialStore_open_def MembershipSerialStore_read_def sample_server_def)

definition sample_joiner :: JoinDevice where
  "sample_joiner = \<lparr>jo_identity = Absent, jo_sister_key = Absent, jo_files = no_files\<rparr>"

definition sample_de :: "bytes \<Rightarrow> EnrollmentInvite option" where
  "sample_de b = (if b = enc (EnrollmentInvite_serialize lib0 sample_join_invite) then Some sample_join_invite else None)"

lemma sample_decode: "encode_code lib0 i = Ok sample_join_code \<Longrightarrow> i = sample_join_invite"
  by (intro encode_code_inj [of lib0]) (simp_all add: encode_code_def sample_join_code_def)

theorem join_completes_witness:
  "\<exists>joiner'. join_network lib0 sample_de sample_join (far_reply lib0 sample_serve sample_server) (far_response lib0 sample_serve sample_server)
      7 (concat [str_of_codes [10]] @ sample_join_code @ concat []) None sample_joiner = (Ok (), joiner')
    \<and> member_of lib0 (es_authority sample_server) (saturating_add (ms_state (es_serials sample_server)) 1) joiner'"
proof (rule join_completes [OF _ sample_network_invite _ sample_build_server])
  show "parse_invite_expiry ''1h'' = Some 3600" by (fact sample_expiry)
  show "\<forall>i. encode_code lib0 i = Ok sample_join_code \<longrightarrow> sample_de (bincode lib0 (EnrollmentInvite_serialize lib0 i)) = Some i"
    by (auto dest: sample_decode simp: sample_de_def)
  show "can_join sample_joiner 7"
    by (simp add: can_join_def sample_joiner_def no_files_def guard_existing_network_def NetworkIdStore_load_def NetworkAuthorityStore_load_def)
qed (simp_all add: sample_facts sample_device_def IdentityStore_load_def sample_serve_def sample_join_def serve_fine_def join_fine_def saturating_add_def
    white_space_def white_space_codes_def)

theorem enrollment_issued_only_witness:
  "\<exists>(request :: EnrollmentRequest) (challenge :: EnrollmentChallenge). EnrollmentInvite_verify lib0 (erq_invite request) 200 \<and> ec_authority_nonce challenge = 12
    \<and> ec_sister_public_key challenge = 6 \<and> ec_invite_digest challenge = EnrollmentInvite_digest lib0 (erq_invite request)"
proof -
  let ?req = "EnrollmentRequest_new sample_join_invite 4 6 13"
  let ?peer = "\<lambda>reply. Ok (6 :: SisterSignature)"
  let ?m = "MembershipCertificate_issue lib0 sample_authority 9 6 4 201 None 1"
  have invite: "EnrollmentInvite_verify lib0 sample_join_invite 200"
    unfolding sample_join_invite_def
    by (subst EnrollmentInvite_issue_verify) (simp_all add: sample_facts sample_locator_def PeerRecord_issue_verify sample_binding_facts)
  have "evaluate lib0 200 12 sample_server ?req = Ok (EnrollmentChallenge_new 7 (EnrollmentInvite_digest lib0 sample_join_invite) 4 6 12 13)"
    using invite by (simp add: evaluate_def EnrollmentRequest_new_def sample_server_def sample_join_invite_def sample_facts sample_locator_def
        sample_binding_facts)
  then obtain r reply server' where run: "serve_stream lib0 sample_serve (Ok ?req) ?peer sample_server
      = (r, reply, Some (issue_membership lib0 201 sample_server ?req 1), server')"
    by (simp add: serve_stream_def sample_serve_def serve_proof_def EnrollmentChallenge_verify_def EnrollmentChallenge_new_def key_defs allocate_def
        Let_def sample_server_def saturating_add_def EnrollmentRequest_new_def)
  have "ers_outcome (issue_membership lib0 201 sample_server ?req 1) = Accepted sample_authority ?m [sample_record]"
    by (simp add: issue_membership_def EnrollmentResponse_accepted_def sample_server_def EnrollmentRequest_new_def)
  from enrollment_issued_only [OF run this] obtain request :: EnrollmentRequest and challenge :: EnrollmentChallenge where
    "EnrollmentInvite_verify lib0 (erq_invite request) (se_now sample_serve)" "ec_invite_digest challenge = EnrollmentInvite_digest lib0 (erq_invite request)"
    "ec_authority_nonce challenge = se_nonce sample_serve" "ec_sister_public_key challenge = mc_sister_public_key ?m" by blast
  then show ?thesis by (intro exI [of _ request] exI [of _ challenge]) (simp add: sample_serve_def)
qed

end
