(* ===== verification/Misaka_Layout.thy ===== *)
theory Misaka_Layout
  imports Misaka_Prelude
begin

text \<open>
  \<^verbatim>\<open>misaka-runtime/src/state_layout.rs\<close>: the manifest that guards a config directory against a binary that is
  too old for it. The manifest is written to a temporary file that is then renamed over it, so a write
  that fails leaves the old manifest; the other files are modelled by whether the known ones exist.
\<close>

definition CURRENT_STATE_LAYOUT_VERSION :: u32 where
  "CURRENT_STATE_LAYOUT_VERSION = 1"

record StateLayoutManifest =
  sl_layout_version :: u32
  sl_created_by_version :: "string option"
  sl_last_opened_by_version :: "string option"

datatype LayoutOpen = Created | Adopted | Existing

datatype StateLayoutError = Layout_Io | Layout_Malformed | TooNew u32 u32 | UnsupportedMigration u32 u32

definition KNOWN_STATE_MARKERS :: "string list" where
  "KNOWN_STATE_MARKERS = [''identity.json'', ''sister-identity-key'', ''iroh-stream-key.bin'', ''network-id'', ''network.json'',
     ''network-authority-key'', ''membership.bin'', ''membership-serial'', ''human-identity.json'', ''human-identity-key'',
     ''human-membership.bin'', ''transport-binding.json'', ''revocations.json'', ''used-command-nonces.json'', ''gateways.json'',
     ''peer-records.json'', ''peers.json'', ''service.json'', ''local-control-token'']"

definition StateLayout_load :: "StateLayoutManifest disk \<Rightarrow> StateLayoutError + StateLayoutManifest option" where
  "StateLayout_load f = load_disk Layout_Io Layout_Malformed f"

text \<open>Creating the directory, writing the temporary file, renaming it: each can fail.\<close>

record layout_write =
  lw_create_dir :: bool
  lw_temp :: write_outcome
  lw_rename :: bool

definition StateLayout_write ::
    "layout_write \<Rightarrow> StateLayoutManifest \<Rightarrow> StateLayoutManifest disk \<Rightarrow> (StateLayoutError + unit) \<times> StateLayoutManifest disk" where
  "StateLayout_write w manifest f =
     (if \<not> lw_create_dir w then (Err Layout_Io, f)
      else case store_disk Layout_Io (lw_temp w) manifest Absent of
        (Inl e, _) \<Rightarrow> (Err e, f)
      | (Inr _, temp) \<Rightarrow> if lw_rename w then (Ok (), temp) else (Err Layout_Io, f))"

definition open_with_version ::
    "layout_write \<Rightarrow> (string \<Rightarrow> bool) \<Rightarrow> string \<Rightarrow> StateLayoutManifest disk \<Rightarrow> (StateLayoutError + LayoutOpen) \<times> StateLayoutManifest disk" where
  "open_with_version w exists binary_version f =
     (case StateLayout_load f of
        Inl e \<Rightarrow> (Err e, f)
      | Inr (Some manifest) \<Rightarrow>
          if sl_layout_version manifest > CURRENT_STATE_LAYOUT_VERSION
          then (Err (TooNew (sl_layout_version manifest) CURRENT_STATE_LAYOUT_VERSION), f)
          else if sl_last_opened_by_version manifest \<noteq> Some binary_version
          then (case StateLayout_write w (manifest\<lparr>sl_last_opened_by_version := Some binary_version\<rparr>) f of
                  (Inl e, f') \<Rightarrow> (Err e, f') | (Inr _, f') \<Rightarrow> (Ok Existing, f'))
          else (Ok Existing, f)
      | Inr None \<Rightarrow>
          let manifest = \<lparr>sl_layout_version = CURRENT_STATE_LAYOUT_VERSION, sl_created_by_version = Some binary_version,
                 sl_last_opened_by_version = Some binary_version\<rparr>
          in (case StateLayout_write w manifest f of
                (Inl e, f') \<Rightarrow> (Err e, f')
              | (Inr _, f') \<Rightarrow> (Ok (if list_ex exists KNOWN_STATE_MARKERS then Adopted else Created), f')))"

definition migrate :: "layout_write \<Rightarrow> u32 \<Rightarrow> u32 \<Rightarrow> StateLayoutManifest disk \<Rightarrow> (StateLayoutError + unit) \<times> StateLayoutManifest disk" where
  "migrate w from to f =
     (if from > CURRENT_STATE_LAYOUT_VERSION \<or> to > CURRENT_STATE_LAYOUT_VERSION then (Err (UnsupportedMigration from to), f)
      else if to < from then (Err (UnsupportedMigration from to), f)
      else if from \<noteq> to \<and> \<not> (from = 0 \<and> to = 1) then (Err (UnsupportedMigration from to), f)
      else case StateLayout_load f of
        Inl e \<Rightarrow> (Err e, f)
      | Inr loaded \<Rightarrow>
          let manifest = (case loaded of Some m \<Rightarrow> m
                | None \<Rightarrow> \<lparr>sl_layout_version = 0, sl_created_by_version = None, sl_last_opened_by_version = None\<rparr>)
          in StateLayout_write w (manifest\<lparr>sl_layout_version := to\<rparr>) f)"

lemma layout_write_cases:
  "StateLayout_write w m f = (Ok (), Holds m) \<or> (\<exists>e. StateLayout_write w m f = (Err e, f))"
  by (cases "lw_temp w") (simp_all add: StateLayout_write_def)

text \<open>
  Steps of the life of a directory: it is opened by binaries of any version, and each write may fail. A
  manifest that is there is never lost or torn, its layout version never changes, and it keeps the version
  that created it.
\<close>

definition open_run :: "(layout_write \<times> (string \<Rightarrow> bool) \<times> string) list \<Rightarrow> StateLayoutManifest disk \<Rightarrow> StateLayoutManifest disk" where
  "open_run steps f = fold (\<lambda>(w, exists, v) f. snd (open_with_version w exists v f)) steps f"

text \<open>C30: A config directory of a newer layout is never touched: whatever binaries of this layout open it,
  with whatever failures, its manifest stays as it is and every attempt fails with the two versions. A
  directory whose manifest is acceptable keeps its layout version and the version that created it.\<close>

theorem layout_fails_closed:
  assumes "f = Holds m"
  shows "if sl_layout_version m > CURRENT_STATE_LAYOUT_VERSION
    then open_run steps f = f \<and> fst (open_with_version w exists v (open_run steps f)) = Err (TooNew (sl_layout_version m) CURRENT_STATE_LAYOUT_VERSION)
    else \<exists>m'. open_run steps f = Holds m' \<and> sl_layout_version m' = sl_layout_version m \<and> sl_created_by_version m' = sl_created_by_version m"
proof (cases "sl_layout_version m > CURRENT_STATE_LAYOUT_VERSION")
  case True
  then have closed: "open_with_version w exists v (Holds m) = (Err (TooNew (sl_layout_version m) CURRENT_STATE_LAYOUT_VERSION), Holds m)" for w exists v
    by (simp add: open_with_version_def StateLayout_load_def)
  then have "open_run steps (Holds m) = Holds m"
    unfolding open_run_def by (induction steps) auto
  with True closed assms show ?thesis by simp
next
  case False
  have "\<exists>m'. open_run steps (Holds m) = Holds m' \<and> sl_layout_version m' = sl_layout_version m \<and> sl_created_by_version m' = sl_created_by_version m"
    using False
  proof (induction steps arbitrary: m)
    case Nil
    then show ?case by (simp add: open_run_def)
  next
    case (Cons step steps)
    obtain w exists v where step: "step = (w, exists, v)" by (cases step)
    have "snd (open_with_version w exists v (Holds m)) \<in> {Holds m, Holds (m\<lparr>sl_last_opened_by_version := Some v\<rparr>)}"
      using Cons.prems layout_write_cases [of w "m\<lparr>sl_last_opened_by_version := Some v\<rparr>" "Holds m"]
      by (auto simp: open_with_version_def StateLayout_load_def)
    then obtain m1 where "snd (open_with_version w exists v (Holds m)) = Holds m1" "sl_layout_version m1 = sl_layout_version m"
      "sl_created_by_version m1 = sl_created_by_version m" by auto
    with Cons.IH [of m1] Cons.prems step show ?case by (simp add: open_run_def)
  qed
  with False assms show ?thesis by simp
qed

theorem layout_fails_closed_witness:
  "fst (open_with_version \<lparr>lw_create_dir = True, lw_temp = Written, lw_rename = True\<rparr> (\<lambda>_. True) ''1''
     (open_run [(\<lparr>lw_create_dir = True, lw_temp = Torn, lw_rename = True\<rparr>, \<lambda>_. False, ''2'')]
       (Holds \<lparr>sl_layout_version = 3, sl_created_by_version = None, sl_last_opened_by_version = None\<rparr>))) = Err (TooNew 3 1)"
  using layout_fails_closed [of _ "\<lparr>sl_layout_version = 3, sl_created_by_version = None, sl_last_opened_by_version = None\<rparr>", OF refl,
      of "[(\<lparr>lw_create_dir = True, lw_temp = Torn, lw_rename = True\<rparr>, \<lambda>_. False, ''2'')]"
        "\<lparr>lw_create_dir = True, lw_temp = Written, lw_rename = True\<rparr>" "\<lambda>_. True" "''1''"]
  by (auto simp: CURRENT_STATE_LAYOUT_VERSION_def)

text \<open>A migration does not look at the version it migrates from: applied to a directory of a newer
  layout it succeeds and lowers the recorded version, after which the directory is opened that was refused
  before.\<close>

theorem migrate_downgrades:
  assumes "sl_layout_version m > CURRENT_STATE_LAYOUT_VERSION" "lw_create_dir w" "lw_temp w = Written" "lw_rename w"
  shows "fst (open_with_version w exists v (Holds m)) = Err (TooNew (sl_layout_version m) CURRENT_STATE_LAYOUT_VERSION)
    \<and> fst (migrate w 1 1 (Holds m)) = Ok ()
    \<and> fst (open_with_version w exists v (snd (migrate w 1 1 (Holds m)))) = Ok Existing"
  using assms by (simp add: open_with_version_def migrate_def StateLayout_load_def StateLayout_write_def CURRENT_STATE_LAYOUT_VERSION_def Let_def)

theorem migrate_downgrades_witness:
  "fst (migrate \<lparr>lw_create_dir = True, lw_temp = Written, lw_rename = True\<rparr> 1 1
     (Holds \<lparr>sl_layout_version = 3, sl_created_by_version = None, sl_last_opened_by_version = None\<rparr>)) = Ok ()"
  using migrate_downgrades [of "\<lparr>sl_layout_version = 3, sl_created_by_version = None, sl_last_opened_by_version = None\<rparr>"
      "\<lparr>lw_create_dir = True, lw_temp = Written, lw_rename = True\<rparr>" "\<lambda>_. True" "''1''"]
  by (simp add: CURRENT_STATE_LAYOUT_VERSION_def)

end
