(* ===== verification/Misaka_Gateway.thy ===== *)
theory Misaka_Gateway
  imports Misaka_Identity Misaka_Replay
begin

text \<open>
  The discovery gateway: the shared request contract of \<^verbatim>\<open>misaka-core/src/gateway.rs\<close>
  (\<open>GatewayAuth\<close>, \<open>verify_request\<close>) and the native host \<^verbatim>\<open>misaka-gatewayd/src/lib.rs\<close> with its
  directory and its nonce set. A handler takes its two clock readings \<open>now\<close> (in \<open>authenticate\<close>) and
  \<open>later\<close> (in \<open>upsert\<close> or \<open>live_records\<close>) and the result of
  \<open>serde_json::from_slice\<close> on the body (\<open>None\<close> for a body that does not parse), and returns the
  response and the new state. Additions to the clock are on \<open>u64\<close> and wrap.
\<close>

section \<open>Requests (core)\<close>

definition GATEWAY_PROTOCOL_VERSION :: u16 where
  "GATEWAY_PROTOCOL_VERSION = 1"

definition DEFAULT_RECORD_TTL_SECS :: u64 where
  "DEFAULT_RECORD_TTL_SECS = 600"

definition DEFAULT_AUTH_WINDOW_SECS :: u64 where
  "DEFAULT_AUTH_WINDOW_SECS = 300"

definition DEFAULT_NONCE_TTL_SECS :: u64 where
  "DEFAULT_NONCE_TTL_SECS = 900"

record GatewayInfo =
  gi_protocol_version :: u16
  gi_network_id :: NetworkId
  gi_authority_fingerprint :: string

definition GatewayInfo_from_authority :: "NetworkAuthority \<Rightarrow> GatewayInfo" where
  "GatewayInfo_from_authority authority =
     \<lparr>gi_protocol_version = GATEWAY_PROTOCOL_VERSION, gi_network_id = na_network_id authority,
      gi_authority_fingerprint = write_hex (word_bytes 32 (na_authority_public_key authority))\<rparr>"

definition transfer_content_digest :: "lib \<Rightarrow> bytes \<Rightarrow> arr32" where
  "transfer_content_digest L bytes' = sha256 L bytes'"

record GatewayAuth =
  ga_network_id :: NetworkId
  ga_sister_id :: SisterId
  ga_timestamp :: u64
  ga_nonce :: arr16
  ga_body_digest :: arr32
  ga_signature :: SisterSignature

definition GatewayAuth_payload :: "lib \<Rightarrow> GatewayAuth \<Rightarrow> sval" where
  "GatewayAuth_payload L a =
     STup [NetworkId_serialize L (ga_network_id a), SU64 (ga_sister_id a), SU64 (ga_timestamp a),
       ser_arr 16 (ga_nonce a), ser_key (ga_body_digest a)]"

definition GatewayAuth_payload_ty :: sty where
  "GatewayAuth_payload_ty = TTup [TStr, TU64, TU64, arr_ty 16, arr_ty 32]"

definition GatewayAuth_signing_bytes :: "lib \<Rightarrow> GatewayAuth \<Rightarrow> bytes" where
  "GatewayAuth_signing_bytes L a = bincode L (GatewayAuth_payload L a)"

definition GatewayAuth_sign ::
    "lib \<Rightarrow> NetworkId \<Rightarrow> u64 \<Rightarrow> u64 \<Rightarrow> arr16 \<Rightarrow> bytes \<Rightarrow> SisterKeyPair \<Rightarrow> GatewayAuth" where
  "GatewayAuth_sign L network_id sister_id timestamp nonce body key =
     (let auth = \<lparr>ga_network_id = network_id, ga_sister_id = sister_id, ga_timestamp = timestamp,
            ga_nonce = nonce, ga_body_digest = transfer_content_digest L body, ga_signature = 0\<rparr>
      in auth\<lparr>ga_signature := SisterKeyPair_sign L key (GatewayAuth_signing_bytes L auth)\<rparr>)"

definition GatewayAuth_verify_signature :: "lib \<Rightarrow> GatewayAuth \<Rightarrow> SisterPublicKey \<Rightarrow> bool" where
  "GatewayAuth_verify_signature L a public_key =
     SisterPublicKey_verify L public_key (GatewayAuth_signing_bytes L a) (ga_signature a)"

definition PEERS_DOMAIN :: bytes where
  "PEERS_DOMAIN = str_bytes ''misaka-gateway/peers/v1''"

definition announce_body_bytes :: "lib \<Rightarrow> MembershipCertificate \<Rightarrow> PeerRecord \<Rightarrow> bytes" where
  "announce_body_bytes L membership record' =
     bincode L (STup [MembershipCertificate_serialize L membership, PeerRecord_serialize L record'])"

definition peers_body_bytes :: bytes where
  "peers_body_bytes = PEERS_DOMAIN"

definition GatewayAuth_sign_announce ::
    "lib \<Rightarrow> NetworkId \<Rightarrow> u64 \<Rightarrow> u64 \<Rightarrow> arr16 \<Rightarrow> MembershipCertificate \<Rightarrow> PeerRecord \<Rightarrow> SisterKeyPair \<Rightarrow> GatewayAuth" where
  "GatewayAuth_sign_announce L network_id sister_id timestamp nonce membership record' key =
     GatewayAuth_sign L network_id sister_id timestamp nonce (announce_body_bytes L membership record') key"

definition GatewayAuth_sign_peers ::
    "lib \<Rightarrow> NetworkId \<Rightarrow> u64 \<Rightarrow> u64 \<Rightarrow> arr16 \<Rightarrow> SisterKeyPair \<Rightarrow> GatewayAuth" where
  "GatewayAuth_sign_peers L network_id sister_id timestamp nonce key =
     GatewayAuth_sign L network_id sister_id timestamp nonce peers_body_bytes key"

record GatewayAnnounceRequest =
  gar_auth :: GatewayAuth
  gar_membership :: MembershipCertificate
  gar_record :: PeerRecord

record GatewayPeersRequest =
  gpr_auth :: GatewayAuth
  gpr_membership :: MembershipCertificate

datatype GatewayAuthError = NetworkMismatch | BodyDigestMismatch | StaleTimestamp | InvalidMembership
  | ExpiredMembership | IdentityMismatch | BadSignature

definition verify_request ::
    "lib \<Rightarrow> GatewayAuth \<Rightarrow> bytes \<Rightarrow> MembershipCertificate \<Rightarrow> NetworkAuthority \<Rightarrow> u64 \<Rightarrow> u64
      \<Rightarrow> GatewayAuthError + SisterPublicKey" where
  "verify_request L auth body membership authority now window =
     (if ga_network_id auth \<noteq> na_network_id authority \<or> mc_network_id membership \<noteq> na_network_id authority
      then Err NetworkMismatch
      else if ga_body_digest auth \<noteq> transfer_content_digest L body then Err BodyDigestMismatch
      else
        let delta = max (saturating_sub now (ga_timestamp auth)) (saturating_sub (ga_timestamp auth) now)
        in if delta > window then Err StaleTimestamp
           else if \<not> MembershipCertificate_verify L membership authority then Err InvalidMembership
           else if \<not> MembershipCertificate_is_valid_at membership now then Err ExpiredMembership
           else if ga_sister_id auth \<noteq> mc_sister_id membership then Err IdentityMismatch
           else if \<not> GatewayAuth_verify_signature L auth (mc_sister_public_key membership) then Err BadSignature
           else Ok (mc_sister_public_key membership))"

definition record_matches_membership :: "PeerRecord \<Rightarrow> MembershipCertificate \<Rightarrow> bool" where
  "record_matches_membership record' membership \<longleftrightarrow>
     pr_network_id record' = mc_network_id membership
     \<and> pr_sister_id record' = mc_sister_id membership
     \<and> pr_sister_public_key record' = mc_sister_public_key membership"

section \<open>The native host\<close>

record GatewayConfig =
  gc_authority :: NetworkAuthority
  gc_record_ttl_secs :: u64
  gc_auth_window_secs :: u64
  gc_nonce_ttl_secs :: u64

definition GatewayConfig_new :: "NetworkAuthority \<Rightarrow> GatewayConfig" where
  "GatewayConfig_new authority =
     \<lparr>gc_authority = authority, gc_record_ttl_secs = DEFAULT_RECORD_TTL_SECS,
      gc_auth_window_secs = DEFAULT_AUTH_WINDOW_SECS, gc_nonce_ttl_secs = DEFAULT_NONCE_TTL_SECS\<rparr>"

record DirectoryEntry =
  de_record :: PeerRecord
  de_membership_serial :: u64
  de_expires_at :: u64

record Gateway =
  gw_config :: GatewayConfig
  gw_members :: "(u64, DirectoryEntry) hashmap"
  gw_nonces :: "(arr16, u64) hashmap"

definition Gateway_new :: "GatewayConfig \<Rightarrow> Gateway" where
  "Gateway_new config = \<lparr>gw_config = config, gw_members = [], gw_nonces = []\<rparr>"

datatype GatewayError = Auth GatewayAuthError | Replayed | InvalidBody | GatewayIdentityMismatch
  | InvalidRecord | Internal

definition GatewayError_status :: "GatewayError \<Rightarrow> nat" where
  "GatewayError_status e = (case e of
     Auth NetworkMismatch \<Rightarrow> 403 | Auth IdentityMismatch \<Rightarrow> 403 | Auth BadSignature \<Rightarrow> 403
   | Auth _ \<Rightarrow> 401 | Replayed \<Rightarrow> 401 | InvalidBody \<Rightarrow> 400 | InvalidRecord \<Rightarrow> 400
   | GatewayIdentityMismatch \<Rightarrow> 403 | Internal \<Rightarrow> 500)"

text \<open>The nonce set: drop what has expired, then insert; the answer is whether the nonce was absent.\<close>

definition spend_nonce :: "u64 \<Rightarrow> arr16 \<Rightarrow> u64 \<Rightarrow> (arr16, u64) hashmap \<Rightarrow> (arr16, u64) hashmap \<times> bool" where
  "spend_nonce nonce_ttl nonce now nonces =
     (let nonces = hm_retain (\<lambda>_ expiry. expiry > now) nonces
      in (hm_insert nonce (now + nonce_ttl) nonces, hm_get nonces nonce = None))"

definition Gateway_authenticate ::
    "lib \<Rightarrow> u64 \<Rightarrow> GatewayAuth \<Rightarrow> bytes \<Rightarrow> MembershipCertificate \<Rightarrow> Gateway
      \<Rightarrow> (GatewayError + SisterPublicKey) \<times> Gateway" where
  "Gateway_authenticate L now auth body membership gw =
     (case verify_request L auth body membership (gc_authority (gw_config gw)) now
             (gc_auth_window_secs (gw_config gw)) of
        Inl e \<Rightarrow> (Err (Auth e), gw)
      | Inr key \<Rightarrow>
          let (nonces, fresh) = spend_nonce (gc_nonce_ttl_secs (gw_config gw)) (ga_nonce auth) now (gw_nonces gw)
          in (if fresh then Ok key else Err Replayed, gw\<lparr>gw_nonces := nonces\<rparr>))"

definition Gateway_upsert :: "u64 \<Rightarrow> PeerRecord \<Rightarrow> MembershipCertificate \<Rightarrow> Gateway \<Rightarrow> Gateway" where
  "Gateway_upsert now record' membership gw =
     (let sister_id = pr_sister_id record';
          stale = (case hm_get (gw_members gw) sister_id of None \<Rightarrow> False
                   | Some entry \<Rightarrow> de_expires_at entry > now \<and> pr_sequence (de_record entry) > pr_sequence record')
      in if stale then gw
         else gw\<lparr>gw_members := hm_insert sister_id
                \<lparr>de_record = record', de_membership_serial = mc_serial membership,
                 de_expires_at = now + gc_record_ttl_secs (gw_config gw)\<rparr> (gw_members gw)\<rparr>)"

definition Gateway_live_records :: "u64 \<Rightarrow> Gateway \<Rightarrow> PeerRecord list" where
  "Gateway_live_records now gw =
     map de_record (filter (\<lambda>entry. de_expires_at entry > now) (hm_values (gw_members gw)))"

definition Gateway_entry_for :: "u64 \<Rightarrow> u64 \<Rightarrow> Gateway \<Rightarrow> (PeerRecord \<times> u64) option" where
  "Gateway_entry_for now sister_id gw =
     (case hm_get (gw_members gw) sister_id of None \<Rightarrow> None
      | Some entry \<Rightarrow> if de_expires_at entry > now then Some (de_record entry, de_membership_serial entry) else None)"

definition announce ::
    "lib \<Rightarrow> u64 \<Rightarrow> u64 \<Rightarrow> GatewayAnnounceRequest option \<Rightarrow> Gateway \<Rightarrow> (GatewayError + nat) \<times> Gateway" where
  "announce L now later body gw =
     (case body of
        None \<Rightarrow> (Err InvalidBody, gw)
      | Some request \<Rightarrow>
          let payload = announce_body_bytes L (gar_membership request) (gar_record request)
          in case Gateway_authenticate L now (gar_auth request) payload (gar_membership request) gw of
               (Inl e, gw) \<Rightarrow> (Err e, gw)
             | (Inr _, gw) \<Rightarrow>
                 if \<not> record_matches_membership (gar_record request) (gar_membership request)
                 then (Err GatewayIdentityMismatch, gw)
                 else if \<not> PeerRecord_verify L (gar_record request) then (Err InvalidRecord, gw)
                 else (Ok 204, Gateway_upsert later (gar_record request) (gar_membership request) gw))"

definition peers ::
    "lib \<Rightarrow> u64 \<Rightarrow> u64 \<Rightarrow> GatewayPeersRequest option \<Rightarrow> Gateway \<Rightarrow> (GatewayError + PeerRecord list) \<times> Gateway" where
  "peers L now later body gw =
     (case body of
        None \<Rightarrow> (Err InvalidBody, gw)
      | Some request \<Rightarrow>
          case Gateway_authenticate L now (gpr_auth request) peers_body_bytes (gpr_membership request) gw of
            (Inl e, gw) \<Rightarrow> (Err e, gw)
          | (Inr _, gw) \<Rightarrow> (Ok (Gateway_live_records later gw), gw))"

section \<open>Hexadecimal configuration\<close>

text \<open>
  \<open>decode_hex\<close> slices the UTF-8 text at every second byte, which panics inside a code point
  (\<open>None\<close> here), and \<open>u8::from_str_radix\<close> reads one or two digits, the first of which may be a
  plus sign.
\<close>

definition hex_value :: "char \<Rightarrow> nat option" where
  "hex_value c =
     (let n = (of_char c :: nat)
      in if 48 \<le> n \<and> n \<le> 57 then Some (n - 48)
         else if 97 \<le> n \<and> n \<le> 102 then Some (n - 87)
         else if 65 \<le> n \<and> n \<le> 70 then Some (n - 55)
         else None)"

definition from_str_radix_16 :: "char \<Rightarrow> char \<Rightarrow> nat option" where
  "from_str_radix_16 a b =
     (if a = CHR ''+'' then hex_value b
      else case (hex_value a, hex_value b) of (Some x, Some y) \<Rightarrow> Some (16 * x + y) | _ \<Rightarrow> None)"

definition char_boundary :: "char \<Rightarrow> bool" where
  "char_boundary c \<longleftrightarrow> \<not> (128 \<le> (of_char c :: nat) \<and> (of_char c :: nat) < 192)"

datatype 'a outcome = Panic | Returns 'a

text \<open>
  The iterator is lazy and \<open>collect\<close> stops at the first pair that is no number, so a bad pair hides
  a later panic. The end of the pair and its start must be code point boundaries.
\<close>

fun decode_pairs :: "string \<Rightarrow> bytes option outcome" where
  "decode_pairs (a # b # rest) =
     (if \<not> char_boundary a \<or> (rest \<noteq> [] \<and> \<not> char_boundary (hd rest)) then Panic
      else case from_str_radix_16 a b of
             None \<Rightarrow> Returns None
           | Some n \<Rightarrow>
               (case decode_pairs rest of
                  Panic \<Rightarrow> Panic
                | Returns None \<Rightarrow> Returns None
                | Returns (Some bs) \<Rightarrow> Returns (Some (of_nat n # bs))))"
| "decode_pairs _ = Returns (Some [])"

definition decode_hex :: "string \<Rightarrow> bytes option outcome" where
  "decode_hex input =
     (let input = (case strip_prefix ''0x'' input of None \<Rightarrow> input | Some rest \<Rightarrow> rest)
      in if length input mod 2 \<noteq> 0 then Returns None else decode_pairs input)"

datatype HexError = Not_hex | Not_32_bytes

definition authority_from_hex :: "NetworkId \<Rightarrow> string \<Rightarrow> (HexError + NetworkAuthority) outcome" where
  "authority_from_hex network_id hex =
     (case decode_hex hex of
        Panic \<Rightarrow> Panic
      | Returns None \<Rightarrow> Returns (Err Not_hex)
      | Returns (Some bs) \<Rightarrow>
          (case try_into_array 32 bs of
             None \<Rightarrow> Returns (Err Not_32_bytes)
           | Some key \<Rightarrow> Returns (Ok \<lparr>na_network_id = network_id, na_authority_public_key = key\<rparr>)))"

section \<open>Authenticated requests\<close>

interpretation gateway_auth: signed_artifact GatewayAuth_payload_ty
  GatewayAuth_payload ga_signature "\<lambda>s. ga_signature_update (\<lambda>_. s)"
  by unfold_locales (auto simp: GatewayAuth_payload_def GatewayAuth_payload_ty_def ty_simps ser_inj)

lemma verify_request_Ok:
  "verify_request L auth body membership authority now window = Ok key \<longleftrightarrow>
     ga_network_id auth = na_network_id authority
     \<and> ga_body_digest auth = transfer_content_digest L body
     \<and> unat now \<le> unat (ga_timestamp auth) + unat window \<and> unat (ga_timestamp auth) \<le> unat now + unat window
     \<and> MembershipCertificate_verify L membership authority \<and> MembershipCertificate_is_valid_at membership now
     \<and> ga_sister_id auth = mc_sister_id membership
     \<and> GatewayAuth_verify_signature L auth (mc_sister_public_key membership)
     \<and> key = mc_sister_public_key membership"
proof -
  have "max (saturating_sub now t) (saturating_sub t now) > window
      \<longleftrightarrow> \<not> (unat now \<le> unat t + unat window \<and> unat t \<le> unat now + unat window)" for t
    by (auto simp: max_def word_less_nat_alt word_le_nat_alt unat_saturating_sub)
  then show ?thesis
    unfolding verify_request_def Let_def by (auto simp: MembershipCertificate_verify_def)
qed

lemma GatewayAuth_sign_sel [simp]:
  "ga_network_id (GatewayAuth_sign L network sid ts nonce body key) = network"
  "ga_sister_id (GatewayAuth_sign L network sid ts nonce body key) = sid"
  "ga_timestamp (GatewayAuth_sign L network sid ts nonce body key) = ts"
  "ga_nonce (GatewayAuth_sign L network sid ts nonce body key) = nonce"
  "ga_body_digest (GatewayAuth_sign L network sid ts nonce body key) = transfer_content_digest L body"
  by (simp_all add: GatewayAuth_sign_def Let_def)

lemma GatewayAuth_sign_signature:
  "ed25519_correct L \<Longrightarrow> GatewayAuth_verify_signature L (GatewayAuth_sign L network sid ts nonce body key)
     (SisterKeyPair_public_key L key)"
  by (simp add: GatewayAuth_verify_signature_def GatewayAuth_sign_def GatewayAuth_signing_bytes_def
      GatewayAuth_payload_def key_defs Let_def)

section \<open>Replay protection\<close>

definition nonce_blocked :: "(arr16, u64) hashmap \<Rightarrow> arr16 \<Rightarrow> nat \<Rightarrow> bool" where
  "nonce_blocked nonces k t = (case hm_get nonces k of None \<Rightarrow> False | Some e \<Rightarrow> t < unat e)"

definition nonces_inv :: "u64 \<Rightarrow> u64 \<Rightarrow> (arr16, u64) hashmap \<Rightarrow> bool" where
  "nonces_inv ttl now nonces \<longleftrightarrow> hm_wf nonces \<and> (\<forall>k e. hm_get nonces k = Some e \<longrightarrow> unat e \<le> unat now + unat ttl)"

definition clock_ok :: "u64 \<Rightarrow> u64 \<Rightarrow> bool" where
  "clock_ok ttl now \<longleftrightarrow> unat now + unat ttl < 2 ^ 64"

lemma unat_clock: "clock_ok ttl now \<Longrightarrow> unat (now + ttl) = unat now + unat ttl"
  by (simp add: clock_ok_def unat_word_ariths)

lemma spend_nonce_get:
  "hm_wf nonces \<Longrightarrow> hm_get (fst (spend_nonce ttl nonce now nonces)) k =
     (if k = nonce then Some (now + ttl)
      else case hm_get nonces k of None \<Rightarrow> None | Some e \<Rightarrow> if e > now then Some e else None)"
  by (simp add: spend_nonce_def Let_def hm_simps)

lemma spend_nonce_fresh:
  "hm_wf nonces \<Longrightarrow> snd (spend_nonce ttl nonce now nonces) \<longleftrightarrow> \<not> nonce_blocked nonces nonce (unat now)"
  by (auto simp: spend_nonce_def Let_def hm_simps nonce_blocked_def word_less_nat_alt split: option.splits)

lemma spend_nonce_inv:
  "nonces_inv ttl now nonces \<Longrightarrow> clock_ok ttl now \<Longrightarrow> nonces_inv ttl now (fst (spend_nonce ttl nonce now nonces))"
  unfolding nonces_inv_def
  by (auto simp: spend_nonce_get unat_clock split: if_splits option.splits)
    (simp add: spend_nonce_def Let_def hm_simps)

interpretation nonce_set: replay_guard "spend_nonce ttl" "\<lambda>q. q" "\<lambda>q now. unat (now + ttl)"
  nonce_blocked "nonces_inv ttl" "clock_ok ttl" for ttl
proof
  fix earlier now :: u64 and s
  assume "nonces_inv ttl earlier s" "earlier \<le> now"
  then show "nonces_inv ttl now s"
    unfolding nonces_inv_def word_le_nat_alt by (meson add_le_mono1 order_trans)
next
  fix now :: u64 and s q k t
  assume inv: "nonces_inv ttl now s" and ok: "clock_ok ttl now" and t: "unat now \<le> t"
    and b: "nonce_blocked s k t"
  then have wf: "hm_wf s" by (simp add: nonces_inv_def)
  show "nonce_blocked (fst (spend_nonce ttl q now s)) k t"
    using inv b t unat_clock [OF ok]
    by (auto simp: nonce_blocked_def spend_nonce_get [OF wf] nonces_inv_def word_less_nat_alt
        split: option.splits) fastforce+
qed (auto simp: nonces_inv_def spend_nonce_fresh nonce_blocked_def spend_nonce_get
    intro: spend_nonce_inv [unfolded nonces_inv_def, THEN conjunct1] spend_nonce_inv [unfolded nonces_inv_def, THEN conjunct2, rule_format])

text \<open>One HTTP request to the host, as a step of its state: the second component says whether the
  request passed \<open>authenticate\<close>.\<close>

datatype GatewayRequest = Announce u64 "GatewayAnnounceRequest option" | Peers u64 "GatewayPeersRequest option"

fun Gateway_handle :: "lib \<Rightarrow> GatewayRequest \<Rightarrow> u64 \<Rightarrow> Gateway \<Rightarrow> Gateway" where
  "Gateway_handle L (Announce later body) now gw = snd (announce L now later body gw)"
| "Gateway_handle L (Peers later body) now gw = snd (peers L now later body gw)"

fun request_parts :: "lib \<Rightarrow> GatewayRequest \<Rightarrow> (GatewayAuth \<times> bytes \<times> MembershipCertificate) option" where
  "request_parts L (Announce _ body) =
     map_option (\<lambda>r. (gar_auth r, announce_body_bytes L (gar_membership r) (gar_record r), gar_membership r)) body"
| "request_parts L (Peers _ body) = map_option (\<lambda>r. (gpr_auth r, peers_body_bytes, gpr_membership r)) body"

definition Gateway_authenticated :: "lib \<Rightarrow> GatewayRequest \<Rightarrow> u64 \<Rightarrow> Gateway \<Rightarrow> bool" where
  "Gateway_authenticated L q now gw = (case request_parts L q of None \<Rightarrow> False
     | Some (auth, body, membership) \<Rightarrow> is_ok (fst (Gateway_authenticate L now auth body membership gw)))"

definition Gateway_spend :: "lib \<Rightarrow> GatewayRequest \<Rightarrow> u64 \<Rightarrow> Gateway \<Rightarrow> Gateway \<times> bool" where
  "Gateway_spend L q now gw = (Gateway_handle L q now gw, Gateway_authenticated L q now gw)"

definition request_nonce :: "lib \<Rightarrow> GatewayRequest \<Rightarrow> arr16 option" where
  "request_nonce L q = map_option (\<lambda>(auth, _, _). ga_nonce auth) (request_parts L q)"

lemma Gateway_upsert_nonces [simp]:
  "gw_nonces (Gateway_upsert now r m gw) = gw_nonces gw" "gw_config (Gateway_upsert now r m gw) = gw_config gw"
  by (simp_all add: Gateway_upsert_def Let_def)

lemma Gateway_authenticate_sel [simp]:
  "gw_members (snd (Gateway_authenticate L now auth body m gw)) = gw_members gw"
  "gw_config (snd (Gateway_authenticate L now auth body m gw)) = gw_config gw"
  by (simp_all add: Gateway_authenticate_def Let_def split: sum.splits prod.splits)

lemma Gateway_authenticate_nonces:
  "gw_nonces (snd (Gateway_authenticate L now auth body m gw)) =
     (if is_ok (verify_request L auth body m (gc_authority (gw_config gw)) now (gc_auth_window_secs (gw_config gw)))
      then fst (spend_nonce (gc_nonce_ttl_secs (gw_config gw)) (ga_nonce auth) now (gw_nonces gw))
      else gw_nonces gw)"
  by (auto simp: Gateway_authenticate_def Let_def split: sum.splits prod.splits)

lemma Gateway_authenticate_ok:
  "is_ok (fst (Gateway_authenticate L now auth body m gw)) \<longleftrightarrow>
     is_ok (verify_request L auth body m (gc_authority (gw_config gw)) now (gc_auth_window_secs (gw_config gw)))
     \<and> snd (spend_nonce (gc_nonce_ttl_secs (gw_config gw)) (ga_nonce auth) now (gw_nonces gw))"
  by (auto simp: Gateway_authenticate_def Let_def split: sum.splits prod.splits)

lemma Gateway_authenticate_okD:
  "is_ok (fst (Gateway_authenticate L now auth body m gw)) \<Longrightarrow>
     \<exists>key. verify_request L auth body m (gc_authority (gw_config gw)) now (gc_auth_window_secs (gw_config gw)) = Ok key"
  unfolding Gateway_authenticate_ok by (simp add: is_ok_iff)

lemma Gateway_handle_after_auth:
  "request_parts L q = Some (auth, body, m) \<Longrightarrow>
     gw_nonces (Gateway_handle L q now gw) = gw_nonces (snd (Gateway_authenticate L now auth body m gw))"
  by (cases q) (auto simp: announce_def peers_def Let_def split: sum.splits prod.splits)

lemma Gateway_authenticate_eq:
  "Gateway_authenticate L now auth body m gw = (r, gw') \<Longrightarrow> gw_config gw' = gw_config gw \<and> gw_members gw' = gw_members gw"
  using Gateway_authenticate_sel [of L now auth body m gw] by simp

lemma Gateway_handle_config [simp]: "gw_config (Gateway_handle L q now gw) = gw_config gw"
  by (cases q) (auto simp: announce_def peers_def Let_def split: option.splits sum.splits prod.splits
      dest: Gateway_authenticate_eq)

lemma Gateway_handle_no_body: "request_parts L q = None \<Longrightarrow> Gateway_handle L q now gw = gw"
  by (cases q) (auto simp: announce_def peers_def)

text \<open>The nonces a request leaves behind, and whether it was authenticated.\<close>

lemma Gateway_handle_nonces:
  "gw_nonces (Gateway_handle L q now gw) = gw_nonces gw
   \<or> (\<exists>nonce. request_nonce L q = Some nonce
        \<and> gw_nonces (Gateway_handle L q now gw) = fst (spend_nonce (gc_nonce_ttl_secs (gw_config gw)) nonce now (gw_nonces gw)))"
  by (cases "request_parts L q")
    (auto simp: Gateway_handle_no_body Gateway_handle_after_auth Gateway_authenticate_nonces request_nonce_def)

lemma Gateway_authenticated_spends:
  "Gateway_authenticated L q now gw \<Longrightarrow> \<exists>nonce. request_nonce L q = Some nonce
     \<and> snd (spend_nonce (gc_nonce_ttl_secs (gw_config gw)) nonce now (gw_nonces gw))
     \<and> gw_nonces (Gateway_handle L q now gw) = fst (spend_nonce (gc_nonce_ttl_secs (gw_config gw)) nonce now (gw_nonces gw))"
  by (auto simp: Gateway_authenticated_def Gateway_authenticate_ok Gateway_handle_after_auth
      Gateway_authenticate_nonces request_nonce_def split: option.splits)

definition gateway_blocked :: "Gateway \<Rightarrow> arr16 option \<Rightarrow> nat \<Rightarrow> bool" where
  "gateway_blocked gw k t = (case k of None \<Rightarrow> False | Some nonce \<Rightarrow> nonce_blocked (gw_nonces gw) nonce t)"

definition gateway_inv :: "u64 \<Rightarrow> u64 \<Rightarrow> Gateway \<Rightarrow> bool" where
  "gateway_inv ttl now gw \<longleftrightarrow> gc_nonce_ttl_secs (gw_config gw) = ttl \<and> nonces_inv ttl now (gw_nonces gw)"

interpretation gateway_guard: replay_guard "Gateway_spend L" "request_nonce L" "\<lambda>q now. unat (now + ttl)"
  gateway_blocked "gateway_inv ttl" "clock_ok ttl" for L ttl
proof
  fix earlier now :: u64 and s
  assume "gateway_inv ttl earlier s" "earlier \<le> now" "clock_ok ttl now"
  then show "gateway_inv ttl now s" by (auto simp: gateway_inv_def intro: nonce_set.inv_later)
next
  fix now :: u64 and s q
  assume inv: "gateway_inv ttl now s" and ok: "clock_ok ttl now"
  show "gateway_inv ttl now (fst (Gateway_spend L q now s))"
    using inv ok Gateway_handle_nonces [of L q now s] spend_nonce_inv [of ttl now "gw_nonces s"]
    by (auto simp: gateway_inv_def Gateway_spend_def)
  show "\<not> snd (Gateway_spend L q now s)" if "gateway_blocked s (request_nonce L q) (unat now)"
    using that inv ok nonce_set.refuse [of ttl now "gw_nonces s"] Gateway_authenticated_spends [of L q now s]
    by (auto simp: gateway_blocked_def gateway_inv_def Gateway_spend_def split: option.splits)
  fix t assume t: "unat now \<le> t"
  show "gateway_blocked (fst (Gateway_spend L q now s)) (request_nonce L q) t"
    if "snd (Gateway_spend L q now s)" "t < unat (now + ttl)"
    using that inv ok t nonce_set.block [of ttl now "gw_nonces s"] Gateway_authenticated_spends [of L q now s]
    by (auto simp: gateway_blocked_def gateway_inv_def Gateway_spend_def split: option.splits)
  fix k assume "gateway_blocked s k t"
  then show "gateway_blocked (fst (Gateway_spend L q now s)) k t"
    using inv ok t nonce_set.keep [of ttl now "gw_nonces s"] Gateway_handle_nonces [of L q now s]
    by (auto simp: gateway_blocked_def gateway_inv_def Gateway_spend_def split: option.splits)
qed

lemma Gateway_authenticated_window:
  assumes "Gateway_authenticated L q now gw" "request_parts L q = Some (auth, body, m)"
  shows "unat now \<le> unat (ga_timestamp auth) + unat (gc_auth_window_secs (gw_config gw))"
    and "unat (ga_timestamp auth) \<le> unat now + unat (gc_auth_window_secs (gw_config gw))"
  using assms by (auto simp: Gateway_authenticated_def verify_request_Ok dest!: Gateway_authenticate_okD)

lemma guard_run_config [simp]: "gw_config (guard_run (Gateway_spend L) es gw) = gw_config gw"
  by (induction es arbitrary: gw) (simp_all add: Gateway_spend_def)

text \<open>C19: No signed gateway request is ever honoured twice. In any run of a native gateway from its
  initial state with the default lifetimes and a clock that does not run backwards, two requests
  that carry the same nonce and timestamp (a captured request sent again, or replayed on the other
  endpoint) are not both authenticated, however many other requests come in between.\<close>

theorem gateway_no_replay:
  assumes "gw = Gateway_new (GatewayConfig_new authority)"
    and "es = before @ (t1, q1) # between @ [(t2, q2)]"
    and "sorted (map fst es)" "\<forall>(t, _)\<in>set es. unat t + 900 < 2 ^ 64"
    and "request_parts L q1 = Some (auth1, body1, m1)" "request_parts L q2 = Some (auth2, body2, m2)"
    and "ga_nonce auth2 = ga_nonce auth1" "ga_timestamp auth2 = ga_timestamp auth1"
    and "Gateway_authenticated L q1 t1 (guard_run (Gateway_spend L) before gw)"
  shows "\<not> Gateway_authenticated L q2 t2 (guard_run (Gateway_spend L) (before @ (t1, q1) # between) gw)"
proof
  assume second: "Gateway_authenticated L q2 t2 (guard_run (Gateway_spend L) (before @ (t1, q1) # between) gw)"
  have conf: "gc_nonce_ttl_secs (gw_config gw) = 900" "gc_auth_window_secs (gw_config gw) = 300"
    using assms(1) by (simp_all add: Gateway_new_def GatewayConfig_new_def DEFAULT_NONCE_TTL_SECS_def DEFAULT_AUTH_WINDOW_SECS_def)
  have inv: "gateway_inv 900 0 gw"
    using conf assms(1) by (simp add: gateway_inv_def nonces_inv_def Gateway_new_def)
  have ok: "\<forall>e\<in>set es. clock_ok 900 (fst e)"
    using assms(4) by (auto simp: clock_ok_def)
  have released: "unat (t1 + 900) \<le> unat t2"
    using assms(2, 3, 5, 6, 7, 9) second ok
    by (intro gateway_guard.no_reuse [of 900 0 gw before t1 q1 between t2 q2 L, OF inv])
      (auto simp: Gateway_spend_def request_nonce_def)
  have "clock_ok 900 t1" using ok assms(2) by auto
  note gap = released [unfolded unat_clock [OF this]]
  have "unat t2 \<le> unat (ga_timestamp auth2) + 300"
    using Gateway_authenticated_window(1) [OF second assms(6)] conf by (simp add: Gateway_spend_def)
  moreover have "unat (ga_timestamp auth1) \<le> unat t1 + 300"
    using Gateway_authenticated_window(2) [OF assms(9, 5)] conf by simp
  ultimately show False using gap assms(8) by simp
qed

definition sample_announce :: GatewayAnnounceRequest where
  "sample_announce = \<lparr>gar_auth = GatewayAuth_sign_announce lib0 7 2 1000 4 sample_membership sample_record 5,
     gar_membership = sample_membership, gar_record = sample_record\<rparr>"

lemma sample_announce_verified:
  "verify_request lib0 (gar_auth sample_announce) (announce_body_bytes lib0 sample_membership sample_record)
     sample_membership sample_authority 1000 300 = Ok 5"
  using GatewayAuth_sign_signature [OF lib0_ed25519, of 7 2 1000 4 "announce_body_bytes lib0 sample_membership sample_record" 5]
  by (simp add: verify_request_Ok sample_announce_def GatewayAuth_sign_announce_def sample_facts key_defs)

theorem gateway_no_replay_witness:
  "\<not> Gateway_authenticated lib0 (Announce 1000 (Some sample_announce)) 1010
     (guard_run (Gateway_spend lib0) ([] @ (1000, Announce 1000 (Some sample_announce)) # [])
        (Gateway_new (GatewayConfig_new sample_authority)))"
proof (rule gateway_no_replay [OF refl refl])
  show "Gateway_authenticated lib0 (Announce 1000 (Some sample_announce)) 1000
     (guard_run (Gateway_spend lib0) [] (Gateway_new (GatewayConfig_new sample_authority)))"
    using sample_announce_verified
    by (simp add: Gateway_authenticated_def Gateway_authenticate_ok Gateway_new_def GatewayConfig_new_def
        DEFAULT_AUTH_WINDOW_SECS_def spend_nonce_def hm_retain_def sample_announce_def)
qed simp_all

section \<open>The directory\<close>

text \<open>Every entry is a self-verifying locator of this network, vouched for by a certificate of the
  authority whose serial is stored with it.\<close>

definition vouched :: "lib \<Rightarrow> NetworkAuthority \<Rightarrow> PeerRecord \<Rightarrow> u64 \<Rightarrow> bool" where
  "vouched L authority r serial \<longleftrightarrow> PeerRecord_verify L r \<and> pr_network_id r = na_network_id authority
     \<and> (\<exists>m. MembershipCertificate_verify L m authority \<and> record_matches_membership r m \<and> mc_serial m = serial)"

definition directory_ok :: "lib \<Rightarrow> Gateway \<Rightarrow> bool" where
  "directory_ok L gw \<longleftrightarrow> hm_wf (gw_members gw)
     \<and> (\<forall>sid entry. hm_get (gw_members gw) sid = Some entry \<longrightarrow>
          pr_sister_id (de_record entry) = sid
          \<and> vouched L (gc_authority (gw_config gw)) (de_record entry) (de_membership_serial entry))"

inductive gateway_reachable :: "lib \<Rightarrow> GatewayConfig \<Rightarrow> Gateway \<Rightarrow> bool" for L config where
  start: "gateway_reachable L config (Gateway_new config)"
| request: "gateway_reachable L config gw \<Longrightarrow> gateway_reachable L config (Gateway_handle L q now gw)"

lemma Gateway_upsert_ok:
  assumes "directory_ok L gw" "vouched L (gc_authority (gw_config gw)) r (mc_serial m)"
  shows "directory_ok L (Gateway_upsert now r m gw)"
  using assms by (auto simp: directory_ok_def Gateway_upsert_def Let_def hm_simps)

lemma Gateway_handle_ok:
  assumes "directory_ok L gw"
  shows "directory_ok L (Gateway_handle L q now gw)"
proof (cases q)
  case (Peers later body)
  then show ?thesis
    using assms by (auto simp: peers_def directory_ok_def split: option.splits sum.splits prod.splits
        dest!: Gateway_authenticate_eq)
next
  case (Announce later body)
  show ?thesis
  proof (cases body)
    case None
    with Announce assms show ?thesis by (simp add: announce_def)
  next
    case (Some r)
    let ?auth = "Gateway_authenticate L now (gar_auth r) (announce_body_bytes L (gar_membership r) (gar_record r)) (gar_membership r) gw"
    obtain res gw' where auth: "?auth = (res, gw')" by force
    then have ok': "directory_ok L gw'" and conf: "gw_config gw' = gw_config gw"
      using assms Gateway_authenticate_eq [OF auth] by (simp_all add: directory_ok_def)
    show ?thesis
    proof (cases res)
      case (Inl e)
      with Announce Some auth ok' show ?thesis by (simp add: announce_def)
    next
      case (Inr key)
      have "is_ok (fst ?auth)" using auth Inr by simp
      then have "MembershipCertificate_verify L (gar_membership r) (gc_authority (gw_config gw))"
        by (auto simp: verify_request_Ok dest!: Gateway_authenticate_okD)
      then have "vouched L (gc_authority (gw_config gw')) (gar_record r) (mc_serial (gar_membership r))"
        if "record_matches_membership (gar_record r) (gar_membership r)" "PeerRecord_verify L (gar_record r)"
        using that conf by (auto simp: vouched_def record_matches_membership_def MembershipCertificate_verify_def)
      then show ?thesis
        using Announce Some auth Inr ok' by (simp add: announce_def Gateway_upsert_ok)
    qed
  qed
qed

lemma gateway_reachable_ok: "gateway_reachable L config gw \<Longrightarrow> directory_ok L gw \<and> gw_config gw = config"
  by (induction rule: gateway_reachable.induct)
    (auto simp: Gateway_handle_ok, simp_all add: directory_ok_def Gateway_new_def)

text \<open>C20: Whatever requests a native gateway has served, a peers query hands out only locators that
  verify, belong to the gateway's network, match a membership certificate of its authority and have
  not yet expired, and at most one per Sister.\<close>

theorem gateway_directory_sound:
  assumes "gateway_reachable L config gw" "peers L now later body gw = (Ok records, gw')"
  shows "distinct (map pr_sister_id records)
    \<and> (\<forall>r\<in>set records. PeerRecord_verify L r \<and> pr_network_id r = na_network_id (gc_authority config)
         \<and> (\<exists>m. MembershipCertificate_verify L m (gc_authority config) \<and> record_matches_membership r m)
         \<and> (\<exists>serial. Gateway_entry_for later (pr_sister_id r) gw = Some (r, serial)))"
proof -
  from assms(1) have ok: "directory_ok L gw" and conf: "gw_config gw = config"
    using gateway_reachable_ok by blast+
  from assms(2) have records: "records = Gateway_live_records later gw"
    by (auto simp: peers_def Gateway_live_records_def split: option.splits sum.splits prod.splits
        dest!: Gateway_authenticate_eq)
  have wf: "hm_wf (gw_members gw)" using ok by (simp add: directory_ok_def)
  have entry: "pr_sister_id (de_record (snd p)) = fst p
      \<and> vouched L (gc_authority config) (de_record (snd p)) (de_membership_serial (snd p))"
    if "p \<in> set (gw_members gw)" for p
  proof -
    have "hm_get (gw_members gw) (fst p) = Some (snd p)" using that by (simp add: hm_get_in [OF wf, symmetric])
    with ok conf show ?thesis by (auto simp: directory_ok_def)
  qed
  have "map pr_sister_id records = map fst (filter (\<lambda>p. later < de_expires_at (snd p)) (gw_members gw))"
    unfolding records Gateway_live_records_def filter_map using entry by (auto simp: comp_def)
  then have "distinct (map pr_sister_id records)" using wf by (simp add: distinct_map_filter)
  moreover have "PeerRecord_verify L r \<and> pr_network_id r = na_network_id (gc_authority config)
      \<and> (\<exists>m. MembershipCertificate_verify L m (gc_authority config) \<and> record_matches_membership r m)
      \<and> (\<exists>serial. Gateway_entry_for later (pr_sister_id r) gw = Some (r, serial))" if "r \<in> set records" for r
  proof -
    from that obtain p where p: "p \<in> set (gw_members gw)" "r = de_record (snd p)" "later < de_expires_at (snd p)"
      unfolding records Gateway_live_records_def by auto
    from entry [OF p(1)] p(1) have "hm_get (gw_members gw) (pr_sister_id r) = Some (snd p)"
      unfolding p(2) by (simp add: hm_get_in [OF wf, symmetric])
    with entry [OF p(1)] p(2, 3) show ?thesis by (auto simp: vouched_def Gateway_entry_for_def)
  qed
  ultimately show ?thesis by blast
qed

theorem gateway_directory_sound_witness:
  "\<exists>gw'. peers lib0 1000 1000 (Some \<lparr>gpr_auth = GatewayAuth_sign_peers lib0 7 2 1000 9 5, gpr_membership = sample_membership\<rparr>)
      (Gateway_handle lib0 (Announce 1000 (Some sample_announce)) 1000 (Gateway_new (GatewayConfig_new sample_authority)))
      = (Ok [sample_record], gw') \<and> PeerRecord_verify lib0 sample_record"
proof -
  let ?gw = "Gateway_handle lib0 (Announce 1000 (Some sample_announce)) 1000 (Gateway_new (GatewayConfig_new sample_authority))"
  let ?q = "Some \<lparr>gpr_auth = GatewayAuth_sign_peers lib0 7 2 1000 9 5, gpr_membership = sample_membership\<rparr>"
  have "verify_request lib0 (GatewayAuth_sign_peers lib0 7 2 1000 9 5) peers_body_bytes sample_membership
      sample_authority 1000 300 = Ok 5"
    using GatewayAuth_sign_signature [OF lib0_ed25519, of 7 2 1000 9 peers_body_bytes 5]
    by (simp add: verify_request_Ok GatewayAuth_sign_peers_def sample_facts key_defs)
  moreover have nonces: "ga_nonce (GatewayAuth_sign_peers lib0 7 2 1000 9 5) = 9"
      "ga_nonce (GatewayAuth_sign_announce lib0 7 2 1000 4 sample_membership sample_record 5) = 4"
    by (simp_all add: GatewayAuth_sign_peers_def GatewayAuth_sign_announce_def)
  ultimately have "fst (peers lib0 1000 1000 ?q ?gw) = Ok [sample_record]"
    using sample_announce_verified nonces
    by (simp add: peers_def announce_def sample_announce_def sample_facts record_matches_membership_def Gateway_upsert_def
        hm_simps Gateway_authenticate_def Gateway_new_def GatewayConfig_new_def
        DEFAULT_AUTH_WINDOW_SECS_def DEFAULT_RECORD_TTL_SECS_def spend_nonce_def hm_retain_def Gateway_live_records_def)
  then obtain gw' where run: "peers lib0 1000 1000 ?q ?gw = (Ok [sample_record], gw')" by (metis prod.collapse)
  from gateway_directory_sound [OF gateway_reachable.request [OF gateway_reachable.start] run] run show ?thesis by auto
qed

text \<open>A member can always publish: an announcement that a Sister with a valid certificate signs
  for its own verifying locator, with a fresh nonce and a clock within the window, is answered 204,
  and unless the directory already holds a live record with a higher sequence number for it, the
  locator is the one handed out from then on until its lifetime ends.\<close>

theorem announce_accepted:
  assumes "ed25519_correct L" "gateway_reachable L config gw"
    and "MembershipCertificate_verify L m (gc_authority config)" "MembershipCertificate_is_valid_at m now"
    and "mc_sister_public_key m = SisterKeyPair_public_key L key"
    and "PeerRecord_verify L r" "record_matches_membership r m"
    and "auth = GatewayAuth_sign_announce L (na_network_id (gc_authority config)) (mc_sister_id m) ts nonce m r key"
    and "unat now \<le> unat ts + unat (gc_auth_window_secs config)" "unat ts \<le> unat now + unat (gc_auth_window_secs config)"
    and "hm_get (gw_nonces gw) nonce = None"
    and "\<forall>entry. hm_get (gw_members gw) (pr_sister_id r) = Some entry \<longrightarrow>
           de_expires_at entry \<le> later \<or> pr_sequence (de_record entry) \<le> pr_sequence r"
    and "unat later + unat (gc_record_ttl_secs config) < 2 ^ 64" "unat t < unat later + unat (gc_record_ttl_secs config)"
    and "announce L now later (Some \<lparr>gar_auth = auth, gar_membership = m, gar_record = r\<rparr>) gw = (result, gw')"
  shows "result = Ok 204 \<and> Gateway_entry_for t (mc_sister_id m) gw' = Some (r, mc_serial m)"
proof -
  have conf: "gw_config gw = config" using gateway_reachable_ok [OF assms(2)] by simp
  have verified: "verify_request L auth (announce_body_bytes L m r) m (gc_authority (gw_config gw)) now
      (gc_auth_window_secs (gw_config gw)) = Ok (mc_sister_public_key m)"
    using assms(3-5, 8-10) conf GatewayAuth_sign_signature [OF assms(1)]
    by (simp add: verify_request_Ok GatewayAuth_sign_announce_def)
  have "hm_get (hm_retain (\<lambda>_ expiry. now < expiry) (gw_nonces gw)) nonce = None"
    using assms(11) by (simp add: hm_retain_def map_of_eq_None_iff) force
  then have fresh: "snd (spend_nonce (gc_nonce_ttl_secs (gw_config gw)) (ga_nonce auth) now (gw_nonces gw))"
    using assms(8) by (simp add: spend_nonce_def Let_def GatewayAuth_sign_announce_def)
  obtain nonces' where auth: "Gateway_authenticate L now auth (announce_body_bytes L m r) m gw
      = (Ok (mc_sister_public_key m), gw\<lparr>gw_nonces := nonces'\<rparr>)"
    using verified fresh by (cases "spend_nonce (gc_nonce_ttl_secs (gw_config gw)) (ga_nonce auth) now (gw_nonces gw)")
      (simp add: Gateway_authenticate_def)
  have live: "t < later + gc_record_ttl_secs config"
    using assms(13, 14) by (simp add: word_less_nat_alt unat_word_ariths)
  have not_stale: "\<not> (case hm_get (gw_members gw) (pr_sister_id r) of None \<Rightarrow> False
      | Some entry \<Rightarrow> de_expires_at entry > later \<and> pr_sequence (de_record entry) > pr_sequence r)"
    using assms(12) by (auto split: option.splits simp: not_less)
  have "pr_sister_id r = mc_sister_id m" using assms(7) by (simp add: record_matches_membership_def)
  then show ?thesis
    using assms(6, 7, 15) auth not_stale live conf
    by (auto simp: announce_def Let_def Gateway_upsert_def Gateway_entry_for_def hm_simps)
qed

theorem announce_accepted_witness:
  "fst (announce lib0 1000 1000 (Some sample_announce) (Gateway_new (GatewayConfig_new sample_authority))) = Ok 204"
proof -
  let ?gw = "Gateway_new (GatewayConfig_new sample_authority)"
  obtain result gw' where *: "announce lib0 1000 1000 (Some sample_announce) ?gw = (result, gw')" by force
  have "result = Ok 204 \<and> Gateway_entry_for 1000 (mc_sister_id sample_membership) gw' = Some (sample_record, mc_serial sample_membership)"
    by (rule announce_accepted [OF lib0_ed25519 gateway_reachable.start _ _ _ _ _ _ _ _ _ _ _ _ * [unfolded sample_announce_def], where key = 5 and ts = 1000 and nonce = 4])
      (simp_all add: GatewayConfig_new_def Gateway_new_def sample_facts key_defs record_matches_membership_def
        DEFAULT_AUTH_WINDOW_SECS_def DEFAULT_RECORD_TTL_SECS_def)
  with * show ?thesis by simp
qed

text \<open>The directory never goes back to an older locator while an entry is live: after any request,
  the entry of a Sister whose record has not yet expired when the request is handled still exists
  and its sequence number has not decreased.\<close>

theorem directory_monotone:
  assumes "hm_get (gw_members gw) sid = Some entry"
    and "case q of Announce later _ \<Rightarrow> later < de_expires_at entry | Peers _ _ \<Rightarrow> True"
  shows "\<exists>entry'. hm_get (gw_members (Gateway_handle L q now gw)) sid = Some entry'
    \<and> pr_sequence (de_record entry) \<le> pr_sequence (de_record entry')"
proof (cases q)
  case (Peers later body)
  then show ?thesis
    using assms(1) by (auto simp: peers_def split: option.splits sum.splits prod.splits dest!: Gateway_authenticate_eq)
next
  case (Announce later body)
  have upsert: "\<exists>entry'. hm_get (gw_members (Gateway_upsert later r m g)) sid = Some entry'
      \<and> pr_sequence (de_record entry) \<le> pr_sequence (de_record entry')"
    if "hm_get (gw_members g) sid = Some entry" for r m g
    using that assms(2) Announce by (auto simp: Gateway_upsert_def Let_def hm_simps not_less split: option.splits)
  show ?thesis
    using assms(1) Announce
    by (auto simp: announce_def Let_def split: option.splits sum.splits prod.splits
        dest!: Gateway_authenticate_eq intro!: upsert)
qed

theorem directory_monotone_witness:
  "\<exists>entry'. hm_get (gw_members (Gateway_handle lib0 (Announce 1000 None) 1000
      (Gateway_upsert 900 sample_record sample_membership (Gateway_new (GatewayConfig_new sample_authority))))) 2 = Some entry'
    \<and> 1 \<le> pr_sequence (de_record entry')"
  using directory_monotone [of "Gateway_upsert 900 sample_record sample_membership (Gateway_new (GatewayConfig_new sample_authority))" 2
      "\<lparr>de_record = sample_record, de_membership_serial = 1, de_expires_at = 1500\<rparr>" "Announce 1000 None" lib0 1000]
  by (simp add: Gateway_upsert_def Gateway_new_def GatewayConfig_new_def DEFAULT_RECORD_TTL_SECS_def sample_facts Let_def)

section \<open>Hexadecimal keys\<close>

lemma hex_value_digit: "n < 16 \<Longrightarrow> hex_value (hex_digit n) = Some n \<and> char_boundary (hex_digit n) \<and> hex_digit n \<noteq> CHR ''+''"
proof -
  have "list_all (\<lambda>n. hex_value (hex_digit n) = Some n \<and> char_boundary (hex_digit n) \<and> hex_digit n \<noteq> CHR ''+'') [0..<16]"
    unfolding hex_digit_def hex_value_def char_boundary_def by code_simp
  then show "n < 16 \<Longrightarrow> hex_value (hex_digit n) = Some n \<and> char_boundary (hex_digit n) \<and> hex_digit n \<noteq> CHR ''+''"
    by (simp add: list_all_iff)
qed

lemma write_hex_Cons: "write_hex (b # bs) = hex_digit (unat b div 16) # hex_digit (unat b mod 16) # write_hex bs"
  by (simp add: write_hex_def)

lemma unat_byte: "unat (b :: u8) < 256"
  using unat_lt_exp [of b] by simp

lemma decode_pairs_write_hex: "decode_pairs (write_hex bs) = Returns (Some bs)"
proof (induction bs)
  case (Cons b bs)
  have d: "unat b div 16 < 16" "unat b mod 16 < 16" using unat_byte [of b] by auto
  have "write_hex bs = [] \<or> char_boundary (hd (write_hex bs))"
  proof (cases bs)
    case (Cons c cs)
    have "unat c div 16 < 16" using unat_byte [of c] by simp
    then show ?thesis using Cons hex_value_digit by (simp add: write_hex_Cons)
  qed (simp add: write_hex_def)
  moreover have "from_str_radix_16 (hex_digit (unat b div 16)) (hex_digit (unat b mod 16)) = Some (unat b)"
    using hex_value_digit [OF d(1)] hex_value_digit [OF d(2)] by (simp add: from_str_radix_16_def)
  ultimately show ?case
    using hex_value_digit [OF d(1)] Cons by (auto simp: write_hex_Cons)
qed (simp add: write_hex_def)

lemma length_write_hex: "length (write_hex bs) = 2 * length bs"
  by (induction bs) (simp_all add: write_hex_Cons, simp add: write_hex_def)

lemma write_hex_no_prefix: "strip_prefix ''0x'' (write_hex bs) = None"
proof (cases bs)
  case (Cons b bs')
  have "hex_value (CHR ''x'') = None" by (simp add: hex_value_def)
  moreover have "hex_value (hex_digit (unat b mod 16)) \<noteq> None" using hex_value_digit [of "unat b mod 16"] by simp
  ultimately have "hex_digit (unat b mod 16) \<noteq> CHR ''x''" by metis
  with Cons show ?thesis by (simp add: write_hex_Cons strip_prefix_def)
qed (simp add: write_hex_def strip_prefix_def)

text \<open>The fingerprint a gateway publishes configures another one for the same authority: the hex
  form of an authority key is read back exactly, with or without a leading \<open>0x\<close>.\<close>

theorem authority_hex_round_trip:
  fixes authority :: NetworkAuthority
  defines "hex \<equiv> gi_authority_fingerprint (GatewayInfo_from_authority authority)"
  shows "authority_from_hex (na_network_id authority) hex = Returns (Ok authority)
    \<and> authority_from_hex (na_network_id authority) (''0x'' @ hex) = Returns (Ok authority)"
proof -
  have hex: "hex = write_hex (word_bytes 32 (na_authority_public_key authority))"
    by (simp add: hex_def GatewayInfo_from_authority_def)
  have "decode_hex hex = Returns (Some (word_bytes 32 (na_authority_public_key authority)))"
    "decode_hex (''0x'' @ hex) = Returns (Some (word_bytes 32 (na_authority_public_key authority)))"
    by (simp_all only: decode_hex_def hex write_hex_no_prefix strip_prefix_append Let_def option.case
        length_write_hex decode_pairs_write_hex) simp_all
  then show ?thesis
    by (simp add: authority_from_hex_def try_into_array_def bytes_word_full)
qed

text \<open>The reader is laxer than the comment says (64 hex characters) and partial: a plus sign is taken
  for a digit, and a slice inside a code point panics.\<close>

lemma decode_hex_lax: "decode_hex ''+f'' = Returns (Some [15])"
  by (simp add: decode_hex_def strip_prefix_def from_str_radix_16_def hex_value_def char_boundary_def)

lemma decode_hex_panics: "decode_hex (CHR ''a'' # str_of_codes [195, 169] @ ''b'') = Panic"
  by (simp add: decode_hex_def strip_prefix_def str_of_codes_def char_boundary_def)

end
