(* ===== verification/Misaka_Cloudflare.thy ===== *)
theory Misaka_Cloudflare
  imports Misaka_Gateway
begin

text \<open>
  The Cloudflare host of the gateway, \<^verbatim>\<open>gateway/cloudflare/src/directory.rs\<close> and \<^verbatim>\<open>auth.rs\<close>: the
  same requests served from the two SQL tables of a Durable Object. SQLite integers are signed
  64-bit numbers, so each \<open>as i64\<close> of the code is \<open>sint\<close> and rows hold values of type \<open>int\<close>. The
  \<open>record\<close> column holds JSON text: \<open>to_json\<close> and \<open>from_json\<close> stand for \<open>serde_json\<close>. SQL statements
  are taken to succeed apart from the uniqueness conflict the code handles.
\<close>

section \<open>Configuration\<close>

definition RECORD_TTL_SECS :: u64 where
  "RECORD_TTL_SECS = 600"

definition AUTH_WINDOW_SECS :: u64 where
  "AUTH_WINDOW_SECS = 300"

definition NONCE_TTL_SECS :: u64 where
  "NONCE_TTL_SECS = 900"

definition env_secs :: "u64 \<Rightarrow> string option \<Rightarrow> u64" where
  "env_secs dflt var =
     (case var of None \<Rightarrow> dflt
      | Some value \<Rightarrow> (case parse_u64 value of None \<Rightarrow> dflt
          | Some seconds \<Rightarrow> if seconds > 0 then seconds else dflt))"

definition record_ttl_secs :: "string option \<Rightarrow> u64" where
  "record_ttl_secs var = env_secs RECORD_TTL_SECS var"

definition nonce_ttl_secs :: "string option \<Rightarrow> u64" where
  "nonce_ttl_secs var = env_secs NONCE_TTL_SECS var"

record Env =
  env_authority :: NetworkAuthority
  env_record_ttl :: "string option"
  env_nonce_ttl :: "string option"

section \<open>The tables\<close>

record PeerRow =
  row_record :: string
  row_sequence :: int
  row_membership_serial :: int
  row_last_seen :: int
  row_expires_at :: int

record Tables =
  tbl_peers :: "(int, PeerRow) hashmap"
  tbl_nonces :: "(arr16, int) hashmap"

datatype Nonce = Nonce_Fresh | Nonce_Replayed

definition cf_spend_nonce :: "arr16 \<Rightarrow> u64 \<Rightarrow> u64 \<Rightarrow> Tables \<Rightarrow> Nonce \<times> Tables" where
  "cf_spend_nonce nonce now nonce_ttl st =
     (case hm_get (tbl_nonces st) nonce of
        Some _ \<Rightarrow> (Nonce_Replayed, st)
      | None \<Rightarrow> (Nonce_Fresh, st\<lparr>tbl_nonces := hm_insert nonce (sint (now + nonce_ttl)) (tbl_nonces st)\<rparr>))"

text \<open>\<open>INSERT ... ON CONFLICT(sister_id) DO UPDATE SET ... WHERE excluded.sequence >= peers.sequence\<close>\<close>

definition cf_upsert :: "(PeerRecord \<Rightarrow> string) \<Rightarrow> PeerRecord \<Rightarrow> MembershipCertificate \<Rightarrow> u64 \<Rightarrow> u64 \<Rightarrow> Tables \<Rightarrow> Tables" where
  "cf_upsert to_json record' membership now record_ttl st =
     (let key = sint (pr_sister_id record');
          excluded = \<lparr>row_record = to_json record', row_sequence = sint (pr_sequence record'),
            row_membership_serial = sint (mc_serial membership), row_last_seen = sint now,
            row_expires_at = sint (now + record_ttl)\<rparr>
      in case hm_get (tbl_peers st) key of
           None \<Rightarrow> st\<lparr>tbl_peers := hm_insert key excluded (tbl_peers st)\<rparr>
         | Some row \<Rightarrow>
             if row_sequence excluded \<ge> row_sequence row
             then let higher = row_sequence excluded > row_sequence row
                  in st\<lparr>tbl_peers := hm_insert key
                       \<lparr>row_record = (if higher then row_record excluded else row_record row),
                        row_sequence = (if higher then row_sequence excluded else row_sequence row),
                        row_membership_serial = (if higher then row_membership_serial excluded else row_membership_serial row),
                        row_last_seen = row_last_seen excluded, row_expires_at = row_expires_at excluded\<rparr> (tbl_peers st)\<rparr>
             else st)"

datatype CfResponse = Thrown | Status nat | Records "PeerRecord list"

definition handle_announce ::
    "lib \<Rightarrow> (PeerRecord \<Rightarrow> string) \<Rightarrow> Env \<Rightarrow> u64 \<Rightarrow> GatewayAnnounceRequest option \<Rightarrow> Tables \<Rightarrow> CfResponse \<times> Tables" where
  "handle_announce L to_json env now body st =
     (case body of
        None \<Rightarrow> (Thrown, st)
      | Some parsed \<Rightarrow>
          case verify_request L (gar_auth parsed) (announce_body_bytes L (gar_membership parsed) (gar_record parsed))
                 (gar_membership parsed) (env_authority env) now AUTH_WINDOW_SECS of
            Inl _ \<Rightarrow> (Thrown, st)
          | Inr _ \<Rightarrow>
              let record_ttl = record_ttl_secs (env_record_ttl env); nonce_ttl = nonce_ttl_secs (env_nonce_ttl env)
              in case cf_spend_nonce (ga_nonce (gar_auth parsed)) now nonce_ttl st of
                   (Nonce_Replayed, st) \<Rightarrow> (Status 401, st)
                 | (Nonce_Fresh, st) \<Rightarrow>
                     if \<not> record_matches_membership (gar_record parsed) (gar_membership parsed) then (Status 403, st)
                     else if \<not> PeerRecord_verify L (gar_record parsed) then (Status 400, st)
                     else (Status 204, cf_upsert to_json (gar_record parsed) (gar_membership parsed) now record_ttl st))"

definition select_live :: "(string \<Rightarrow> PeerRecord option) \<Rightarrow> u64 \<Rightarrow> Tables \<Rightarrow> PeerRecord list" where
  "select_live from_json now st =
     List.map_filter (\<lambda>row. from_json (row_record row)) (filter (\<lambda>row. row_expires_at row > sint now) (hm_values (tbl_peers st)))"

definition handle_peers ::
    "lib \<Rightarrow> (string \<Rightarrow> PeerRecord option) \<Rightarrow> Env \<Rightarrow> u64 \<Rightarrow> GatewayPeersRequest option \<Rightarrow> Tables \<Rightarrow> CfResponse \<times> Tables" where
  "handle_peers L from_json env now body st =
     (case body of
        None \<Rightarrow> (Thrown, st)
      | Some parsed \<Rightarrow>
          case verify_request L (gpr_auth parsed) peers_body_bytes (gpr_membership parsed) (env_authority env) now AUTH_WINDOW_SECS of
            Inl _ \<Rightarrow> (Thrown, st)
          | Inr _ \<Rightarrow>
              case cf_spend_nonce (ga_nonce (gpr_auth parsed)) now (nonce_ttl_secs (env_nonce_ttl env)) st of
                (Nonce_Replayed, st) \<Rightarrow> (Status 401, st)
              | (Nonce_Fresh, st) \<Rightarrow> (Records (select_live from_json now st), st))"

definition alarm :: "u64 \<Rightarrow> Tables \<Rightarrow> Tables" where
  "alarm now st = st\<lparr>tbl_peers := hm_retain (\<lambda>_ row. \<not> row_expires_at row \<le> sint now) (tbl_peers st),
                     tbl_nonces := hm_retain (\<lambda>_ e. \<not> e \<le> sint now) (tbl_nonces st)\<rparr>"

text \<open>\<open>schedule_alarm\<close>: the delay handed to \<open>set_alarm\<close>, if either table has a row\<close>

definition saturating_mul_1000 :: "int \<Rightarrow> int" where
  "saturating_mul_1000 n = max (- (2 ^ 63)) (min (2 ^ 63 - 1) (n * 1000))"

definition schedule_alarm :: "u64 \<Rightarrow> Tables \<Rightarrow> int option" where
  "schedule_alarm now st =
     (let expiries = map row_expires_at (hm_values (tbl_peers st)) @ hm_values (tbl_nonces st)
      in if expiries = [] then None
         else Some (max (saturating_mul_1000 (Min (set expiries)) - sint now * 1000) 0))"

section \<open>Replay protection\<close>

datatype CfEvent = CfAnnounce "GatewayAnnounceRequest option" | CfPeers "GatewayPeersRequest option" | CfAlarm

fun cf_handle :: "lib \<Rightarrow> (PeerRecord \<Rightarrow> string) \<Rightarrow> (string \<Rightarrow> PeerRecord option) \<Rightarrow> Env \<Rightarrow> CfEvent \<Rightarrow> u64 \<Rightarrow> Tables \<Rightarrow> Tables" where
  "cf_handle L to_json from_json env (CfAnnounce body) now st = snd (handle_announce L to_json env now body st)"
| "cf_handle L to_json from_json env (CfPeers body) now st = snd (handle_peers L from_json env now body st)"
| "cf_handle L to_json from_json env CfAlarm now st = alarm now st"

fun cf_parts :: "lib \<Rightarrow> CfEvent \<Rightarrow> (GatewayAuth \<times> bytes \<times> MembershipCertificate) option" where
  "cf_parts L (CfAnnounce body) =
     map_option (\<lambda>r. (gar_auth r, announce_body_bytes L (gar_membership r) (gar_record r), gar_membership r)) body"
| "cf_parts L (CfPeers body) = map_option (\<lambda>r. (gpr_auth r, peers_body_bytes, gpr_membership r)) body"
| "cf_parts L CfAlarm = None"

text \<open>The request passed the stateless checks and its nonce was fresh.\<close>

definition cf_authenticated :: "lib \<Rightarrow> Env \<Rightarrow> CfEvent \<Rightarrow> u64 \<Rightarrow> Tables \<Rightarrow> bool" where
  "cf_authenticated L env q now st = (case cf_parts L q of None \<Rightarrow> False
     | Some (auth, body, membership) \<Rightarrow>
         is_ok (verify_request L auth body membership (env_authority env) now AUTH_WINDOW_SECS)
         \<and> hm_get (tbl_nonces st) (ga_nonce auth) = None)"

definition cf_spend where
  "cf_spend L to_json from_json env q now st =
     (cf_handle L to_json from_json env q now st, cf_authenticated L env q now st)"

definition cf_nonce :: "lib \<Rightarrow> CfEvent \<Rightarrow> arr16 option" where
  "cf_nonce L q = map_option (\<lambda>(auth, _, _). ga_nonce auth) (cf_parts L q)"

definition cf_blocked :: "Tables \<Rightarrow> arr16 option \<Rightarrow> nat \<Rightarrow> bool" where
  "cf_blocked st k t = (case k of None \<Rightarrow> False | Some nonce \<Rightarrow>
     (case hm_get (tbl_nonces st) nonce of None \<Rightarrow> False | Some e \<Rightarrow> int t < e))"

definition cf_clock_ok :: "u64 \<Rightarrow> u64 \<Rightarrow> bool" where
  "cf_clock_ok ttl now \<longleftrightarrow> unat now + unat ttl < 2 ^ 63"

lemma sint_small: "unat w < 2 ^ 63 \<Longrightarrow> sint w = int (unat w)" for w :: u64
proof -
  assume w: "unat w < 2 ^ 63"
  have "int (unat w) < 2 ^ 63" using w by (metis of_nat_less_iff of_nat_numeral of_nat_power)
  moreover have "- (2 ^ 63) \<le> int (unat w)" by (rule order_trans [of _ 0]) simp_all
  moreover have "LENGTH(64) - Suc 0 = 63" by simp
  ultimately have "signed_take_bit (LENGTH(64) - Suc 0) (int (unat w)) = int (unat w)"
    by (metis signed_take_bit_int_eq_self)
  then show ?thesis by (simp only: sint_uint uint_nat)
qed

lemma sint_clock: "cf_clock_ok ttl now \<Longrightarrow> sint (now + ttl) = int (unat now + unat ttl) \<and> sint now = int (unat now)"
  using sint_small [of "now + ttl"] sint_small [of now] by (simp add: cf_clock_ok_def unat_word_ariths)

lemma cf_upsert_nonces [simp]: "tbl_nonces (cf_upsert to_json r m now ttl st) = tbl_nonces st"
  by (simp add: cf_upsert_def Let_def split: option.splits)

text \<open>What one event does to the nonce table\<close>

lemma cf_handle_nonces:
  "tbl_nonces (cf_handle L to_json from_json env q now st) =
     (if q = CfAlarm then hm_retain (\<lambda>_ e. \<not> e \<le> sint now) (tbl_nonces st)
      else if cf_authenticated L env q now st
      then hm_insert (the (cf_nonce L q)) (sint (now + nonce_ttl_secs (env_nonce_ttl env))) (tbl_nonces st)
      else tbl_nonces st)"
proof (cases q)
  case (CfAnnounce body)
  then show ?thesis
    by (auto simp: handle_announce_def cf_authenticated_def cf_nonce_def cf_spend_nonce_def Let_def is_ok_def
        split: option.splits sum.splits)
next
  case (CfPeers body)
  then show ?thesis
    by (auto simp: handle_peers_def cf_authenticated_def cf_nonce_def cf_spend_nonce_def Let_def is_ok_def
        split: option.splits sum.splits)
qed (simp add: alarm_def)

lemma cf_authenticatedD:
  "cf_authenticated L env q now st \<Longrightarrow> q \<noteq> CfAlarm \<and> (\<exists>nonce. cf_nonce L q = Some nonce \<and> hm_get (tbl_nonces st) nonce = None)"
  by (auto simp: cf_authenticated_def cf_nonce_def split: option.splits)

interpretation cf_guard: replay_guard "cf_spend L to_json from_json env" "cf_nonce L"
  "\<lambda>q now. unat now + unat (nonce_ttl_secs (env_nonce_ttl env))"
  cf_blocked "\<lambda>_ (st :: Tables). hm_wf (tbl_nonces st)" "cf_clock_ok (nonce_ttl_secs (env_nonce_ttl env))"
  for L to_json from_json env
proof
  fix now :: u64 and s :: Tables and q
  assume wf: "hm_wf (tbl_nonces s)" and ok: "cf_clock_ok (nonce_ttl_secs (env_nonce_ttl env)) now"
  show "hm_wf (tbl_nonces (fst (cf_spend L to_json from_json env q now s)))"
    using wf by (auto simp: cf_spend_def cf_handle_nonces hm_simps)
  show "\<not> snd (cf_spend L to_json from_json env q now s)" if "cf_blocked s (cf_nonce L q) (unat now)"
    using that by (auto simp: cf_spend_def cf_blocked_def dest!: cf_authenticatedD split: option.splits)
  fix t assume t: "unat now \<le> t"
  show "cf_blocked (fst (cf_spend L to_json from_json env q now s)) (cf_nonce L q) t"
    if "snd (cf_spend L to_json from_json env q now s)" "t < unat now + unat (nonce_ttl_secs (env_nonce_ttl env))"
  proof -
    have "int t < sint (now + nonce_ttl_secs (env_nonce_ttl env))"
      using that(2) sint_clock [OF ok] by linarith
    then show ?thesis
      using that(1) cf_authenticatedD [of L env q now s]
      by (auto simp: cf_spend_def cf_blocked_def cf_handle_nonces hm_simps)
  qed
  have now_t: "sint now \<le> int t" using t sint_clock [OF ok] by linarith
  fix k assume "cf_blocked s k t"
  then show "cf_blocked (fst (cf_spend L to_json from_json env q now s)) k t"
    using wf cf_authenticatedD [of L env q now s] now_t
    by (fastforce simp: cf_spend_def cf_blocked_def cf_handle_nonces hm_simps split: option.splits)
qed

text \<open>C21: The Cloudflare host honours no signed request twice either: with a nonce lifetime above
  twice the accepted clock skew, two requests with the same nonce and timestamp in a run with a
  clock that does not run backwards are not both authenticated, whatever requests and garbage
  collections happen in between.\<close>

theorem cloudflare_no_replay:
  assumes "st = \<lparr>tbl_peers = [], tbl_nonces = []\<rparr>" "ttl = nonce_ttl_secs (env_nonce_ttl env)" "600 < unat ttl"
    and "es = before @ (t1, q1) # between @ [(t2, q2)]"
    and "sorted (map fst es)" "\<forall>(t, _)\<in>set es. unat t + unat ttl < 2 ^ 63"
    and "cf_parts L q1 = Some (auth1, body1, m1)" "cf_parts L q2 = Some (auth2, body2, m2)"
    and "ga_nonce auth2 = ga_nonce auth1" "ga_timestamp auth2 = ga_timestamp auth1"
    and "cf_authenticated L env q1 t1 (guard_run (cf_spend L to_json from_json env) before st)"
  shows "\<not> cf_authenticated L env q2 t2
    (guard_run (cf_spend L to_json from_json env) (before @ (t1, q1) # between) st)"
proof
  assume second: "cf_authenticated L env q2 t2
    (guard_run (cf_spend L to_json from_json env) (before @ (t1, q1) # between) st)"
  have ok: "\<forall>e\<in>set es. cf_clock_ok (nonce_ttl_secs (env_nonce_ttl env)) (fst e)"
    using assms(2, 6) by (auto simp: cf_clock_ok_def)
  have "hm_wf (tbl_nonces st)" using assms(1) by simp
  then have gap: "unat t1 + unat (nonce_ttl_secs (env_nonce_ttl env)) \<le> unat t2"
    by (rule cf_guard.no_reuse [of st 0 before t1 q1 between t2 q2 env L to_json from_json])
      (use assms(4, 5, 7, 8, 9, 11) second ok in \<open>auto simp: cf_spend_def cf_nonce_def\<close>)
  have window: "unat t \<le> unat (ga_timestamp auth) + 300 \<and> unat (ga_timestamp auth) \<le> unat t + 300"
    if "cf_authenticated L env q t s" "cf_parts L q = Some (auth, body, m)" for q t s auth body m
    using that by (auto simp: cf_authenticated_def is_ok_iff verify_request_Ok AUTH_WINDOW_SECS_def)
  from window [OF second assms(8)] window [OF assms(11, 7)] gap assms(2, 3, 10) show False by simp
qed

definition sample_env :: Env where
  "sample_env = \<lparr>env_authority = sample_authority, env_record_ttl = None, env_nonce_ttl = Some ''900''\<rparr>"

theorem cloudflare_no_replay_witness:
  "\<not> cf_authenticated lib0 sample_env (CfAnnounce (Some sample_announce)) 1010
     (guard_run (cf_spend lib0 pr_endpoint_addr (\<lambda>_. None) sample_env)
        ([] @ (1000, CfAnnounce (Some sample_announce)) # []) \<lparr>tbl_peers = [], tbl_nonces = []\<rparr>)"
proof -
  have ttl: "unat (nonce_ttl_secs (env_nonce_ttl sample_env)) = 900"
    by (simp add: sample_env_def nonce_ttl_secs_def env_secs_def parse_u64_def digit_value_def)
  show ?thesis
  proof (rule cloudflare_no_replay [OF refl refl _ refl])
    show "cf_authenticated lib0 sample_env (CfAnnounce (Some sample_announce)) 1000
     (guard_run (cf_spend lib0 pr_endpoint_addr (\<lambda>_. None) sample_env) [] \<lparr>tbl_peers = [], tbl_nonces = []\<rparr>)"
      using sample_announce_verified
      by (simp add: cf_authenticated_def AUTH_WINDOW_SECS_def sample_announce_def sample_env_def)
  qed (simp_all add: ttl)
qed

section \<open>The two hosts\<close>

text \<open>The row of a Sister in the table says the same as the entry of the native directory.\<close>

definition same_entry :: "(string \<Rightarrow> PeerRecord option) \<Rightarrow> DirectoryEntry option \<Rightarrow> PeerRow option \<Rightarrow> bool" where
  "same_entry from_json e r = (case (e, r) of
     (None, None) \<Rightarrow> True
   | (Some entry, Some row) \<Rightarrow>
       from_json (row_record row) = Some (de_record entry)
       \<and> row_sequence row = sint (pr_sequence (de_record entry))
       \<and> row_membership_serial row = sint (de_membership_serial entry)
       \<and> row_expires_at row = sint (de_expires_at entry)
   | _ \<Rightarrow> False)"

text \<open>The two directories correspond: they hold the same Sisters, a Sister's row says the same as
  its entry, and no expiry date is beyond the signed range of the table.\<close>

definition same_directory :: "(string \<Rightarrow> PeerRecord option) \<Rightarrow> Gateway \<Rightarrow> Tables \<Rightarrow> bool" where
  "same_directory from_json gw st \<longleftrightarrow> hm_wf (gw_members gw) \<and> hm_wf (tbl_peers st)
     \<and> (\<forall>i. same_entry from_json (hm_get (gw_members gw) i) (hm_get (tbl_peers st) (sint i)))
     \<and> (\<forall>k. hm_get (tbl_peers st) k \<noteq> None \<longrightarrow> (\<exists>i :: u64. k = sint i))
     \<and> (\<forall>i entry. hm_get (gw_members gw) i = Some entry \<longrightarrow> unat (de_expires_at entry) < 2 ^ 63)"

lemma sint_le_small: "unat a < 2 ^ 63 \<Longrightarrow> unat b < 2 ^ 63 \<Longrightarrow> sint a \<le> sint b \<longleftrightarrow> a \<le> b" for a b :: u64
  by (simp only: sint_small word_le_nat_alt of_nat_le_iff)

lemma sint_less_small: "unat a < 2 ^ 63 \<Longrightarrow> unat b < 2 ^ 63 \<Longrightarrow> sint a < sint b \<longleftrightarrow> a < b" for a b :: u64
  by (simp only: sint_small word_less_nat_alt of_nat_less_iff)

lemma same_entry_Some:
  "same_entry from_json (Some entry) r \<longleftrightarrow> (\<exists>row. r = Some row
     \<and> from_json (row_record row) = Some (de_record entry)
     \<and> row_sequence row = sint (pr_sequence (de_record entry))
     \<and> row_membership_serial row = sint (de_membership_serial entry)
     \<and> row_expires_at row = sint (de_expires_at entry))"
  "same_entry from_json None r \<longleftrightarrow> r = None"
  "same_entry from_json e None \<longleftrightarrow> e = None"
  by (auto simp: same_entry_def split: option.splits)

text \<open>What the announced locator may find in the directory\<close>

definition renewable :: "Gateway \<Rightarrow> u64 \<Rightarrow> PeerRecord \<Rightarrow> MembershipCertificate \<Rightarrow> bool" where
  "renewable gw now r m \<longleftrightarrow> unat (pr_sequence r) < 2 ^ 63
     \<and> (\<forall>entry. hm_get (gw_members gw) (pr_sister_id r) = Some entry \<longrightarrow>
          unat (pr_sequence (de_record entry)) < 2 ^ 63 \<and> now < de_expires_at entry
          \<and> (pr_sequence (de_record entry) = pr_sequence r \<longrightarrow> de_record entry = r \<and> de_membership_serial entry = mc_serial m))"

lemma upsert_same_entry:
  assumes "from_json (to_json r) = Some r"
    and "same_entry from_json (hm_get (gw_members gw) (pr_sister_id r)) (hm_get (tbl_peers st) (sint (pr_sister_id r)))"
    and "gc_record_ttl_secs (gw_config gw) = record_ttl" "renewable gw now r m"
  shows "same_entry from_json (hm_get (gw_members (Gateway_upsert now r m gw)) (pr_sister_id r))
    (hm_get (tbl_peers (cf_upsert to_json r m now record_ttl st)) (sint (pr_sister_id r)))"
proof (cases "hm_get (gw_members gw) (pr_sister_id r)")
  case None
  with assms(1, 2, 3) show ?thesis
    by (auto simp: same_entry_Some Gateway_upsert_def cf_upsert_def Let_def hm_simps)
next
  case (Some entry)
  with assms(2) obtain row where row: "hm_get (tbl_peers st) (sint (pr_sister_id r)) = Some row"
    "from_json (row_record row) = Some (de_record entry)"
    "row_sequence row = sint (pr_sequence (de_record entry))"
    "row_membership_serial row = sint (de_membership_serial entry)"
    "row_expires_at row = sint (de_expires_at entry)"
    by (auto simp: same_entry_Some)
  have e: "unat (pr_sequence (de_record entry)) < 2 ^ 63" "unat (pr_sequence r) < 2 ^ 63" "now < de_expires_at entry"
    "pr_sequence (de_record entry) = pr_sequence r \<Longrightarrow> de_record entry = r \<and> de_membership_serial entry = mc_serial m"
    using assms(4) Some by (auto simp: renewable_def)
  note order = sint_le_small [OF e(1, 2)] sint_less_small [OF e(1, 2)]
  have native: "hm_get (gw_members (Gateway_upsert now r m gw)) (pr_sister_id r) =
      (if pr_sequence r < pr_sequence (de_record entry) then Some entry
       else Some \<lparr>de_record = r, de_membership_serial = mc_serial m, de_expires_at = now + record_ttl\<rparr>)"
    using Some e(3) assms(3) by (simp add: Gateway_upsert_def Let_def hm_simps)
  have cf: "hm_get (tbl_peers (cf_upsert to_json r m now record_ttl st)) (sint (pr_sister_id r)) =
      (if pr_sequence r < pr_sequence (de_record entry) then Some row
       else if pr_sequence r = pr_sequence (de_record entry)
       then Some (row\<lparr>row_last_seen := sint now, row_expires_at := sint (now + record_ttl)\<rparr>)
       else Some \<lparr>row_record = to_json r, row_sequence = sint (pr_sequence r), row_membership_serial = sint (mc_serial m),
              row_last_seen = sint now, row_expires_at = sint (now + record_ttl)\<rparr>)"
    using row(1, 3) order
    by (cases "pr_sequence r" "pr_sequence (de_record entry)" rule: linorder_cases)
      (auto simp: cf_upsert_def Let_def hm_simps)
  show ?thesis
    unfolding native cf using row e(4) assms(1) by (auto simp: same_entry_Some)
qed

lemma Gateway_upsert_other:
  "i \<noteq> pr_sister_id r \<Longrightarrow> hm_get (gw_members (Gateway_upsert now r m gw)) i = hm_get (gw_members gw) i"
  by (simp add: Gateway_upsert_def Let_def hm_simps)

lemma cf_upsert_other:
  "k \<noteq> sint (pr_sister_id r) \<Longrightarrow> hm_get (tbl_peers (cf_upsert to_json r m now ttl st)) k = hm_get (tbl_peers st) k"
  by (auto simp: cf_upsert_def Let_def hm_simps split: option.splits)

lemma directories_wf:
  "hm_wf (gw_members gw) \<Longrightarrow> hm_wf (gw_members (Gateway_upsert now r m gw))"
  "hm_wf (tbl_peers st) \<Longrightarrow> hm_wf (tbl_peers (cf_upsert to_json r m now ttl st))"
  by (auto simp: Gateway_upsert_def cf_upsert_def Let_def hm_simps split: option.splits)

lemma Gateway_upsert_expiry:
  "hm_get (gw_members (Gateway_upsert now r m gw)) i = Some entry \<Longrightarrow>
     hm_get (gw_members gw) i = Some entry \<or> de_expires_at entry = now + gc_record_ttl_secs (gw_config gw)"
  by (auto simp: Gateway_upsert_def Let_def hm_simps split: if_splits)

lemma upsert_same_directory:
  assumes dir: "same_directory from_json gw st" and "from_json (to_json r) = Some r"
    and ttl: "gc_record_ttl_secs (gw_config gw) = record_ttl" "unat (now + record_ttl) < 2 ^ 63" and "renewable gw now r m"
  shows "same_directory from_json (Gateway_upsert now r m gw) (cf_upsert to_json r m now record_ttl st)"
  unfolding same_directory_def
proof (intro conjI allI impI)
  fix i
  show "same_entry from_json (hm_get (gw_members (Gateway_upsert now r m gw)) i)
      (hm_get (tbl_peers (cf_upsert to_json r m now record_ttl st)) (sint i))"
  proof (cases "i = pr_sister_id r")
    case True
    with assms show ?thesis by (auto simp: same_directory_def intro!: upsert_same_entry)
  next
    case False
    then have "sint i \<noteq> sint (pr_sister_id r)" using word_eq_iff_signed by blast
    with False dir show ?thesis by (simp add: Gateway_upsert_other cf_upsert_other same_directory_def)
  qed
next
  fix k assume "hm_get (tbl_peers (cf_upsert to_json r m now record_ttl st)) k \<noteq> None"
  then show "\<exists>i :: u64. k = sint i"
    using dir cf_upsert_other [of k r to_json m now record_ttl st] by (cases "k = sint (pr_sister_id r)") (auto simp: same_directory_def)
next
  fix i entry assume "hm_get (gw_members (Gateway_upsert now r m gw)) i = Some entry"
  then show "unat (de_expires_at entry) < 2 ^ 63"
    using dir ttl by (auto simp: same_directory_def dest: Gateway_upsert_expiry)
qed (use dir in \<open>auto simp: same_directory_def intro: directories_wf\<close>)

text \<open>Corresponding directories answer a query with the same locators.\<close>

lemma same_directory_live:
  assumes dir: "same_directory from_json gw st" and t: "unat t < 2 ^ 63"
  shows "set (select_live from_json t st) = set (Gateway_live_records t gw)"
proof (rule set_eqI)
  fix r
  have wf: "hm_wf (gw_members gw)" "hm_wf (tbl_peers st)" using dir by (auto simp: same_directory_def)
  have row: "\<exists>row. hm_get (tbl_peers st) (sint i) = Some row \<and> sint t < row_expires_at row \<and> from_json (row_record row) = Some r"
    if "hm_get (gw_members gw) i = Some entry" "t < de_expires_at entry" "de_record entry = r" for i entry
    using dir that sint_less_small [OF t, of "de_expires_at entry"] unfolding same_directory_def by (metis same_entry_Some(1))
  have entry: "\<exists>i entry. hm_get (gw_members gw) i = Some entry \<and> t < de_expires_at entry \<and> de_record entry = r"
    if "hm_get (tbl_peers st) k = Some row" "sint t < row_expires_at row" "from_json (row_record row) = Some r" for k row
  proof -
    from dir that(1) obtain i :: u64 where k: "k = sint i" unfolding same_directory_def by (metis option.distinct(1))
    with dir that(1) have "same_entry from_json (hm_get (gw_members gw) i) (Some row)"
      unfolding same_directory_def by metis
    then obtain entry where "hm_get (gw_members gw) i = Some entry" "same_entry from_json (Some entry) (Some row)"
      by (cases "hm_get (gw_members gw) i") (auto simp: same_entry_Some)
    then show ?thesis
      using dir that sint_less_small [OF t, of "de_expires_at entry"] by (auto simp: same_directory_def same_entry_Some)
  qed
  have "r \<in> set (select_live from_json t st) \<longleftrightarrow>
      (\<exists>k row. (k, row) \<in> set (tbl_peers st) \<and> sint t < row_expires_at row \<and> from_json (row_record row) = Some r)"
    by (force simp: select_live_def List.map_filter_def)
  moreover have "r \<in> set (Gateway_live_records t gw) \<longleftrightarrow>
      (\<exists>i entry. (i, entry) \<in> set (gw_members gw) \<and> t < de_expires_at entry \<and> de_record entry = r)"
    by (force simp: Gateway_live_records_def)
  ultimately show "r \<in> set (select_live from_json t st) \<longleftrightarrow> r \<in> set (Gateway_live_records t gw)"
    using row entry by (metis hm_get_in [OF wf(1)] hm_get_in [OF wf(2)])
qed

lemma same_directory_cong:
  "gw_members gw' = gw_members gw \<Longrightarrow> tbl_peers st' = tbl_peers st \<Longrightarrow>
     same_directory from_json gw' st' \<longleftrightarrow> same_directory from_json gw st"
  by (simp add: same_directory_def)

lemma announce_accepts:
  "announce L now later (Some request) gw = (answer, gw') \<Longrightarrow>
     let auth = gar_auth request; m = gar_membership request; r = gar_record request; config = gw_config gw;
         accepted = is_ok (verify_request L auth (announce_body_bytes L m r) m (gc_authority config) now (gc_auth_window_secs config))
           \<and> snd (spend_nonce (gc_nonce_ttl_secs config) (ga_nonce auth) now (gw_nonces gw))
           \<and> record_matches_membership r m \<and> PeerRecord_verify L r
     in (answer = Ok 204 \<longleftrightarrow> accepted)
        \<and> gw_members gw' = (if accepted then gw_members (Gateway_upsert later r m gw) else gw_members gw)"
  by (auto simp: announce_def Gateway_authenticate_def Gateway_upsert_def Let_def split: sum.splits if_splits prod.splits)

lemma handle_announce_accepts:
  "handle_announce L to_json env now (Some request) st = (answer, st') \<Longrightarrow>
     let auth = gar_auth request; m = gar_membership request; r = gar_record request;
         accepted = is_ok (verify_request L auth (announce_body_bytes L m r) m (env_authority env) now AUTH_WINDOW_SECS)
           \<and> hm_get (tbl_nonces st) (ga_nonce auth) = None
           \<and> record_matches_membership r m \<and> PeerRecord_verify L r
     in (answer = Status 204 \<longleftrightarrow> accepted)
        \<and> tbl_peers st' = (if accepted then tbl_peers (cf_upsert to_json r m now (record_ttl_secs (env_record_ttl env)) st) else tbl_peers st)"
  by (auto simp: handle_announce_def cf_spend_nonce_def cf_upsert_def Let_def split: sum.splits if_splits prod.splits option.splits)

text \<open>C22: The native host and the Cloudflare host implement the same directory. Started from
  directories that correspond row by row and given the same announcement, with the same authority,
  window and record lifetime and a nonce fresh to both or to neither, they both accept it or both
  refuse it, the whole directories still correspond, for every Sister and not only the announced
  one, and every later query finds the same live locators. The conditions are those under which
  the two write rules coincide: sequence numbers and expiry dates stay below \<open>2^63\<close>, a Sister does
  not publish two different locators with one sequence number, and its entry has not expired yet.\<close>

theorem hosts_agree:
  assumes "same_directory from_json gw st" "from_json (to_json (gar_record request)) = Some (gar_record request)"
    and "gc_authority (gw_config gw) = env_authority env" "gc_auth_window_secs (gw_config gw) = AUTH_WINDOW_SECS"
    and "gc_record_ttl_secs (gw_config gw) = record_ttl_secs (env_record_ttl env)"
    and "unat now + unat (record_ttl_secs (env_record_ttl env)) < 2 ^ 63"
    and "hm_get (tbl_nonces st) (ga_nonce (gar_auth request)) = None
      \<longleftrightarrow> snd (spend_nonce (gc_nonce_ttl_secs (gw_config gw)) (ga_nonce (gar_auth request)) now (gw_nonces gw))"
    and "renewable gw now (gar_record request) (gar_membership request)"
    and "announce L now now (Some request) gw = (native, gw')"
    and "handle_announce L to_json env now (Some request) st = (cf, st')"
  shows "(native = Ok 204 \<longleftrightarrow> cf = Status 204) \<and> same_directory from_json gw' st'
    \<and> (\<forall>t. unat t < 2 ^ 63 \<longrightarrow> set (select_live from_json t st') = set (Gateway_live_records t gw'))"
proof -
  let ?r = "gar_record request" and ?m = "gar_membership request" and ?ttl = "record_ttl_secs (env_record_ttl env)"
  define accepted where "accepted = (native = Ok 204)"
  note native = announce_accepts [OF assms(9), unfolded Let_def] and cf = handle_announce_accepts [OF assms(10), unfolded Let_def]
  have "unat (now + ?ttl) < 2 ^ 63" using assms(6) by (simp add: unat_word_ariths)
  then have upsert: "same_directory from_json (Gateway_upsert now ?r ?m gw) (cf_upsert to_json ?r ?m now ?ttl st)"
    by (intro upsert_same_directory assms(1, 2, 5, 8))
  have both: "native = Ok 204 \<longleftrightarrow> cf = Status 204"
    using native cf assms(3, 4, 7) by simp
  have "same_directory from_json gw' st'"
  proof (cases "native = Ok 204")
    case True
    with native cf both have "gw_members gw' = gw_members (Gateway_upsert now ?r ?m gw)"
      "tbl_peers st' = tbl_peers (cf_upsert to_json ?r ?m now ?ttl st)" by argo+
    with upsert show ?thesis using same_directory_cong by blast
  next
    case False
    with native cf both have "gw_members gw' = gw_members gw" "tbl_peers st' = tbl_peers st" by argo+
    with assms(1) show ?thesis using same_directory_cong by blast
  qed
  with both show ?thesis using same_directory_live by blast
qed

lemma same_directory_empty:
  "same_directory from_json (Gateway_new config) \<lparr>tbl_peers = [], tbl_nonces = []\<rparr>"
  by (simp add: same_directory_def same_entry_def Gateway_new_def)

theorem hosts_agree_witness:
  "fst (announce lib0 1000 1000 (Some sample_announce) (Gateway_new (GatewayConfig_new sample_authority))) = Ok 204
   \<and> fst (handle_announce lib0 pr_endpoint_addr sample_env 1000 (Some sample_announce) \<lparr>tbl_peers = [], tbl_nonces = []\<rparr>) = Status 204"
proof -
  let ?gw = "Gateway_new (GatewayConfig_new sample_authority)" and ?st = "\<lparr>tbl_peers = [], tbl_nonces = []\<rparr>"
  obtain native gw' where n: "announce lib0 1000 1000 (Some sample_announce) ?gw = (native, gw')" by force
  obtain cf st' where c: "handle_announce lib0 pr_endpoint_addr sample_env 1000 (Some sample_announce) ?st = (cf, st')" by force
  have "(native = Ok 204 \<longleftrightarrow> cf = Status 204)
      \<and> same_directory (\<lambda>s. if s = ''iroh://a'' then Some sample_record else None) gw' st'
      \<and> (\<forall>t. unat t < 2 ^ 63 \<longrightarrow>
           set (select_live (\<lambda>s. if s = ''iroh://a'' then Some sample_record else None) t st') = set (Gateway_live_records t gw'))"
    by (rule hosts_agree [OF same_directory_empty _ _ _ _ _ _ _ n c])
      (simp_all add: sample_announce_def sample_env_def sample_facts renewable_def Gateway_new_def GatewayConfig_new_def
        AUTH_WINDOW_SECS_def DEFAULT_AUTH_WINDOW_SECS_def DEFAULT_RECORD_TTL_SECS_def record_ttl_secs_def env_secs_def
        RECORD_TTL_SECS_def spend_nonce_def hm_retain_def)
  moreover have "cf = Status 204"
    using handle_announce_accepts [OF c] sample_announce_verified
    by (simp add: sample_announce_def sample_env_def AUTH_WINDOW_SECS_def record_matches_membership_def sample_facts Let_def)
  ultimately show ?thesis using n c by simp
qed

text \<open>The comment in the native host that its write rule mirrors the Cloudflare one does not hold
  for a second locator with the same sequence number: the native directory replaces the record,
  the Cloudflare one keeps the old record and only extends its lifetime.\<close>

theorem hosts_diverge_on_equal_sequence:
  assumes "hm_get (gw_members gw) (pr_sister_id r) = Some entry" "hm_get (tbl_peers st) (sint (pr_sister_id r)) = Some row"
    and "pr_sequence (de_record entry) = pr_sequence r" "row_sequence row = sint (pr_sequence r)"
  shows "map_option de_record (hm_get (gw_members (Gateway_upsert now r m gw)) (pr_sister_id r)) = Some r
    \<and> map_option row_record (hm_get (tbl_peers (cf_upsert to_json r m now ttl st)) (sint (pr_sister_id r))) = Some (row_record row)"
  using assms by (simp add: Gateway_upsert_def cf_upsert_def Let_def hm_simps)

theorem hosts_diverge_on_equal_sequence_witness:
  "map_option de_record (hm_get (gw_members (Gateway_upsert 5 (sample_record\<lparr>pr_endpoint_addr := ''iroh://b''\<rparr>) sample_membership
       (Gateway_upsert 1 sample_record sample_membership (Gateway_new (GatewayConfig_new sample_authority))))) 2)
     = Some (sample_record\<lparr>pr_endpoint_addr := ''iroh://b''\<rparr>)
   \<and> map_option row_record (hm_get (tbl_peers (cf_upsert pr_endpoint_addr (sample_record\<lparr>pr_endpoint_addr := ''iroh://b''\<rparr>) sample_membership 5 600
       (cf_upsert pr_endpoint_addr sample_record sample_membership 1 600 \<lparr>tbl_peers = [], tbl_nonces = []\<rparr>))) 2)
     = Some ''iroh://a''"
proof -
  let ?r = "sample_record\<lparr>pr_endpoint_addr := ''iroh://b''\<rparr>"
  let ?gw = "Gateway_upsert 1 sample_record sample_membership (Gateway_new (GatewayConfig_new sample_authority))"
  let ?st = "cf_upsert pr_endpoint_addr sample_record sample_membership 1 600 \<lparr>tbl_peers = [], tbl_nonces = []\<rparr>"
  have "hm_get (gw_members ?gw) (pr_sister_id ?r) = Some \<lparr>de_record = sample_record, de_membership_serial = 1, de_expires_at = 601\<rparr>"
    by (simp add: Gateway_upsert_def Let_def Gateway_new_def GatewayConfig_new_def DEFAULT_RECORD_TTL_SECS_def sample_facts)
  moreover have "hm_get (tbl_peers ?st) (sint (pr_sister_id ?r)) = Some \<lparr>row_record = ''iroh://a'', row_sequence = 1,
      row_membership_serial = 1, row_last_seen = 1, row_expires_at = 601\<rparr>"
    by (simp add: cf_upsert_def Let_def sample_facts)
  ultimately have "map_option de_record (hm_get (gw_members (Gateway_upsert 5 ?r sample_membership ?gw)) (pr_sister_id ?r)) = Some ?r
    \<and> map_option row_record (hm_get (tbl_peers (cf_upsert pr_endpoint_addr ?r sample_membership 5 600 ?st)) (sint (pr_sister_id ?r)))
      = Some (row_record \<lparr>row_record = ''iroh://a'', row_sequence = 1,
      row_membership_serial = 1, row_last_seen = 1, row_expires_at = 601\<rparr>)"
    by (rule hosts_diverge_on_equal_sequence) (simp_all add: sample_facts)
  then show ?thesis by (simp add: sample_facts)
qed

lemma sint_large: "2 ^ 63 \<le> unat w \<Longrightarrow> sint w < 0" for w :: u64
proof -
  assume "2 ^ 63 \<le> unat w"
  moreover have "unat w < 2 ^ 64" using unat_lt_exp [of w] by simp
  ultimately have "unat w div 2 ^ 63 = 1" by (intro div_nat_eqI) simp_all
  then have "bit (unat w) 63" by (simp add: bit_iff_odd)
  then have "bit (uint w) 63" by (simp add: bit_simps)
  then show ?thesis by (simp add: sint_uint)
qed

text \<open>A sequence number of \<open>2^63\<close> or more is stored as a negative SQL integer, so the Cloudflare
  host refuses to replace a smaller record by it: the newest locator of such a Sister is never
  handed out, while the native host publishes it.\<close>

theorem cloudflare_sequence_overflow:
  fixes old :: u64
  assumes "hm_get (tbl_peers st) (sint (pr_sister_id r)) = Some row" "row_sequence row = sint old"
    and "unat old < 2 ^ 63" "2 ^ 63 \<le> unat (pr_sequence r)"
  shows "cf_upsert to_json r m now ttl st = st"
proof -
  have "sint (pr_sequence r) < 0" using assms(4) by (rule sint_large)
  moreover have "0 \<le> sint old" using sint_small [OF assms(3)] by simp
  ultimately show ?thesis using assms(1, 2) by (simp add: cf_upsert_def Let_def)
qed

theorem cloudflare_sequence_overflow_witness:
  "cf_upsert pr_endpoint_addr (sample_record\<lparr>pr_sequence := 2 ^ 63\<rparr>) sample_membership 5 600
     (cf_upsert pr_endpoint_addr sample_record sample_membership 1 600 \<lparr>tbl_peers = [], tbl_nonces = []\<rparr>)
   = cf_upsert pr_endpoint_addr sample_record sample_membership 1 600 \<lparr>tbl_peers = [], tbl_nonces = []\<rparr>"
  by (rule cloudflare_sequence_overflow [where old = 1 and row = "\<lparr>row_record = ''iroh://a'', row_sequence = 1,
      row_membership_serial = 1, row_last_seen = 1, row_expires_at = 601\<rparr>"])
    (simp_all add: cf_upsert_def Let_def sample_facts)

end
