(* ===== verification/Misaka_Jobs.thy ===== *)
theory Misaka_Jobs
  imports Misaka_Peers
begin

text \<open>
  Jobs of one Sister: \<^verbatim>\<open>misaka-core/src/job.rs\<close>, the job and resource records of
  \<^verbatim>\<open>misaka-runtime/src/state.rs\<close>, the queue (\<^verbatim>\<open>queue.rs\<close>), the manager (\<^verbatim>\<open>job_manager.rs\<close>),
  the scheduler (\<^verbatim>\<open>scheduler.rs\<close>) and the choice of a peer to steal from (\<^verbatim>\<open>stealing.rs\<close>).
  The concurrent use of the manager by the executor, the inline entry points and the handler of job
  requests is a step relation in which every call on the manager is one step, so all interleavings
  of the tasks are runs.
\<close>

section \<open>Records\<close>

datatype JobStatus = Queued | Running | Transferred | Completed | Failed

fun JobStatus_as_str :: "JobStatus \<Rightarrow> string" where
  "JobStatus_as_str Queued = ''queued''"
| "JobStatus_as_str Running = ''running''"
| "JobStatus_as_str Transferred = ''transferred''"
| "JobStatus_as_str Completed = ''completed''"
| "JobStatus_as_str Failed = ''failed''"

record ResourceSnapshot =
  rs_cpu_usage :: f32
  rs_memory_total :: u64
  rs_memory_used :: u64
  rs_running_jobs :: u64
  rs_queued_jobs :: u64
  rs_uptime_secs :: u64
  rs_capabilities :: "string list"

record LocalState =
  ls_cpu_usage :: f32
  ls_memory_total :: u64
  ls_memory_used :: u64
  ls_running_jobs :: u64
  ls_queued_jobs :: u64
  ls_uptime_secs :: u64
  ls_capabilities :: "string list"

definition LocalState_new :: "string list \<Rightarrow> LocalState" where
  "LocalState_new capabilities =
     \<lparr>ls_cpu_usage = f32_of_int 0, ls_memory_total = 0, ls_memory_used = 0, ls_running_jobs = 0,
      ls_queued_jobs = 0, ls_uptime_secs = 0, ls_capabilities = capabilities\<rparr>"

definition apply_snapshot :: "ResourceSnapshot \<Rightarrow> LocalState \<Rightarrow> LocalState" where
  "apply_snapshot snapshot s =
     s\<lparr>ls_cpu_usage := rs_cpu_usage snapshot, ls_memory_total := rs_memory_total snapshot,
       ls_memory_used := rs_memory_used snapshot, ls_running_jobs := rs_running_jobs snapshot,
       ls_queued_jobs := rs_queued_jobs snapshot, ls_uptime_secs := rs_uptime_secs snapshot,
       ls_capabilities := rs_capabilities snapshot\<rparr>"

record LocalJob =
  lj_id :: string
  lj_command :: string
  lj_status :: JobStatus
  lj_started_at :: "u64 option"
  lj_finished_at :: "u64 option"
  lj_result_output :: "string option"
  lj_creator :: u64
  lj_creator_addr :: "string option"
  lj_authorization :: "CommandAuthorization option"

definition LocalJob_new :: "string \<Rightarrow> string \<Rightarrow> LocalJob" where
  "LocalJob_new i command =
     \<lparr>lj_id = i, lj_command = command, lj_status = Queued, lj_started_at = None, lj_finished_at = None,
      lj_result_output = None, lj_creator = 0, lj_creator_addr = None, lj_authorization = None\<rparr>"

section \<open>The queue\<close>

type_synonym JobQueue = "LocalJob list"

definition queue_push :: "LocalJob \<Rightarrow> JobQueue \<Rightarrow> JobQueue" where
  "queue_push job q = q @ [job]"

fun queue_pop :: "JobQueue \<Rightarrow> LocalJob option \<times> JobQueue" where
  "queue_pop [] = (None, [])"
| "queue_pop (job # q) = (Some job, q)"

fun position :: "('a \<Rightarrow> bool) \<Rightarrow> 'a list \<Rightarrow> nat option" where
  "position P [] = None"
| "position P (x # xs) = (if P x then Some 0 else map_option Suc (position P xs))"

definition pop_where :: "(LocalJob \<Rightarrow> bool) \<Rightarrow> JobQueue \<Rightarrow> LocalJob option \<times> JobQueue" where
  "pop_where predicate q =
     (case position predicate q of
        None \<Rightarrow> (None, q)
      | Some i \<Rightarrow> (Some (q ! i), take i q @ drop (Suc i) q))"

lemma position_Some:
  "position P xs = Some i \<Longrightarrow> i < length xs \<and> P (xs ! i) \<and> (\<forall>x\<in>set (take i xs). \<not> P x)"
  by (induction xs arbitrary: i) (auto split: if_splits)

lemma position_None: "position P xs = None \<longleftrightarrow> (\<forall>x\<in>set xs. \<not> P x)"
  by (induction xs) auto

lemma pop_where_Some:
  assumes "pop_where P q = (Some job, q')"
  shows "\<exists>xs ys. q = xs @ job # ys \<and> q' = xs @ ys \<and> P job \<and> (\<forall>x\<in>set xs. \<not> P x)"
proof -
  from assms obtain i where i: "position P q = Some i" "job = q ! i" "q' = take i q @ drop (Suc i) q"
    by (auto simp: pop_where_def split: option.splits)
  with position_Some [of P q i] have "i < length q" "P job" "\<forall>x\<in>set (take i q). \<not> P x" by auto
  with i id_take_nth_drop [of i q] show ?thesis by blast
qed

lemma pop_where_None: "pop_where P q = (None, q') \<longleftrightarrow> q' = q \<and> (\<forall>x\<in>set q. \<not> P x)"
  by (auto simp: pop_where_def position_None [symmetric] split: option.splits)

lemma queue_pop_Some: "queue_pop q = (Some job, q') \<longleftrightarrow> q = job # q'"
  by (cases q) auto

section \<open>The manager\<close>

record JobManager =
  jm_queue :: JobQueue
  jm_jobs :: "(string, LocalJob) hashmap"
  jm_pending :: "(string, nat) hashmap"

definition JobManager_new :: JobManager where
  "JobManager_new = \<lparr>jm_queue = [], jm_jobs = [], jm_pending = []\<rparr>"

definition enqueue :: "LocalJob \<Rightarrow> JobManager \<Rightarrow> JobManager" where
  "enqueue job m = m\<lparr>jm_jobs := hm_insert (lj_id job) job (jm_jobs m), jm_queue := queue_push job (jm_queue m)\<rparr>"

definition start_inline :: "LocalJob \<Rightarrow> u64 \<Rightarrow> JobManager \<Rightarrow> JobManager" where
  "start_inline job started_at m =
     m\<lparr>jm_jobs := hm_insert (lj_id job) (job\<lparr>lj_status := Running, lj_started_at := Some started_at\<rparr>) (jm_jobs m)\<rparr>"

definition job_pop :: "JobManager \<Rightarrow> LocalJob option \<times> JobManager" where
  "job_pop m = (let (job, q) = queue_pop (jm_queue m) in (job, m\<lparr>jm_queue := q\<rparr>))"

definition job_transferable :: "LocalJob \<Rightarrow> u64 \<Rightarrow> bool \<Rightarrow> bool" where
  "job_transferable job requester allow_unauthenticated =
     (case lj_authorization job of
        Some authorization \<Rightarrow>
          (case ca_target authorization of Some (Principal_Sister i) \<Rightarrow> i = requester | _ \<Rightarrow> False)
      | None \<Rightarrow> allow_unauthenticated)"

definition pop_transferable :: "u64 \<Rightarrow> bool \<Rightarrow> JobManager \<Rightarrow> LocalJob option \<times> JobManager" where
  "pop_transferable requester allow_unauthenticated m =
     (let (job, q) = pop_where (\<lambda>job. job_transferable job requester allow_unauthenticated) (jm_queue m)
      in (job, m\<lparr>jm_queue := q\<rparr>))"

definition push_back :: "LocalJob \<Rightarrow> JobManager \<Rightarrow> JobManager" where
  "push_back job m = m\<lparr>jm_queue := queue_push job (jm_queue m)\<rparr>"

definition is_busy :: "JobManager \<Rightarrow> bool" where
  "is_busy m \<longleftrightarrow> jm_queue m \<noteq> [] \<or> (\<exists>job\<in>set (hm_values (jm_jobs m)). lj_status job = Queued \<or> lj_status job = Running)"

definition get_mut :: "string \<Rightarrow> (LocalJob \<Rightarrow> LocalJob) \<Rightarrow> JobManager \<Rightarrow> JobManager" where
  "get_mut i f m =
     (case hm_get (jm_jobs m) i of None \<Rightarrow> m | Some job \<Rightarrow> m\<lparr>jm_jobs := hm_insert i (f job) (jm_jobs m)\<rparr>)"

definition mark_running :: "string \<Rightarrow> u64 \<Rightarrow> JobManager \<Rightarrow> JobManager" where
  "mark_running i started_at = get_mut i (\<lambda>job. job\<lparr>lj_status := Running, lj_started_at := Some started_at\<rparr>)"

definition mark_transferred :: "string \<Rightarrow> JobManager \<Rightarrow> JobManager" where
  "mark_transferred i = get_mut i (\<lambda>job. job\<lparr>lj_status := Transferred\<rparr>)"

definition mark_finished :: "string \<Rightarrow> JobResultData \<Rightarrow> JobManager \<Rightarrow> JobManager" where
  "mark_finished i result = get_mut i (\<lambda>job. job\<lparr>lj_status := (if jr_success result then Completed else Failed),
     lj_finished_at := Some (jr_finished_at result), lj_result_output := Some (jr_output result)\<rparr>)"

definition reserve_pending :: "string \<Rightarrow> nat \<Rightarrow> JobManager \<Rightarrow> JobManager" where
  "reserve_pending i tx m = m\<lparr>jm_pending := hm_insert i tx (jm_pending m)\<rparr>"

definition resolve_pending :: "string \<Rightarrow> JobManager \<Rightarrow> nat option \<times> JobManager" where
  "resolve_pending i m = (hm_get (jm_pending m) i, m\<lparr>jm_pending := hm_remove i (jm_pending m)\<rparr>)"

definition cancel_pending :: "string \<Rightarrow> JobManager \<Rightarrow> JobManager" where
  "cancel_pending i m = m\<lparr>jm_pending := hm_remove i (jm_pending m)\<rparr>"

definition count_status :: "JobStatus \<Rightarrow> JobManager \<Rightarrow> nat" where
  "count_status s m = length (filter (\<lambda>job. lj_status job = s) (hm_values (jm_jobs m)))"

definition count_queued :: "JobManager \<Rightarrow> nat" where
  "count_queued = count_status Queued"

definition count_running :: "JobManager \<Rightarrow> nat" where
  "count_running = count_status Running"

record JobSnapshot =
  js_id :: string
  js_command :: string
  js_status :: string
  js_creator :: u64
  js_started_at :: "u64 option"
  js_finished_at :: "u64 option"

definition job_snapshots :: "JobManager \<Rightarrow> JobSnapshot list" where
  "job_snapshots m = map (\<lambda>job.
     \<lparr>js_id = lj_id job, js_command = lj_command job, js_status = JobStatus_as_str (lj_status job),
      js_creator = lj_creator job, js_started_at = lj_started_at job, js_finished_at = lj_finished_at job\<rparr>)
     (hm_values (jm_jobs m))"

lemmas manager_defs = enqueue_def start_inline_def push_back_def mark_running_def mark_transferred_def
  mark_finished_def get_mut_def queue_push_def

section \<open>Scheduling\<close>

text \<open>\<open>Iterator::min_by\<close>: a later element replaces the current one only when that compares greater.\<close>

definition min_by :: "('a \<Rightarrow> 'a \<Rightarrow> ordering) \<Rightarrow> 'a list \<Rightarrow> 'a option" where
  "min_by compare xs =
     (case xs of [] \<Rightarrow> None | x # xs \<Rightarrow> Some (fold (\<lambda>y m. if compare m y = Greater then y else m) xs x))"

definition u64_cmp :: "u64 \<Rightarrow> u64 \<Rightarrow> ordering" where
  "u64_cmp a b = (if a < b then Less else if a = b then Equal else Greater)"

definition then_with :: "ordering \<Rightarrow> ordering \<Rightarrow> ordering" where
  "then_with a b = (if a = Equal then b else a)"

definition unwrap_or_equal :: "ordering option \<Rightarrow> ordering" where
  "unwrap_or_equal c = (case c of None \<Rightarrow> Equal | Some a \<Rightarrow> a)"

definition load_cmp :: "PeerState \<Rightarrow> PeerState \<Rightarrow> ordering" where
  "load_cmp a b = then_with (unwrap_or_equal (f32_partial_cmp (ps_cpu_usage a) (ps_cpu_usage b))) (u64_cmp (ps_id a) (ps_id b))"

definition eligible :: "PeerState \<Rightarrow> bool" where
  "eligible p \<longleftrightarrow> f32_le (f32_of_int 0) (ps_cpu_usage p) \<and> f32_less (ps_cpu_usage p) (f32_of_int 85)"

definition Scheduler_choose :: "PeerState list \<Rightarrow> LocalState \<Rightarrow> u64 option" where
  "Scheduler_choose peers local =
     (if peers = [] then None
      else case min_by load_cmp (filter eligible peers) of
        Some p \<Rightarrow>
          if f32_less (ps_cpu_usage p) (f32_sub (ls_cpu_usage local) (f32_of_int 15)) then Some (ps_id p)
          else if ls_queued_jobs local \<ge> 2 \<and> f32_less (ps_cpu_usage p) (f32_of_int 50) then Some (ps_id p)
          else None
      | None \<Rightarrow> None)"

definition steal_cmp :: "PeerState \<Rightarrow> PeerState \<Rightarrow> ordering" where
  "steal_cmp a b = unwrap_or_equal (f32_partial_cmp (ps_cpu_usage a) (ps_cpu_usage b))"

definition steal_target :: "nat \<Rightarrow> JobManager \<Rightarrow> PeerState list \<Rightarrow> PeerState option" where
  "steal_target steal_when_lt m peers =
     (if is_busy m \<or> length (jm_queue m) \<ge> steal_when_lt then None
      else min_by steal_cmp (filter (\<lambda>peer. ps_queued_jobs peer > 0) peers))"

definition choose_executor :: "u64 \<Rightarrow> PeerState list \<Rightarrow> LocalState \<Rightarrow> u64" where
  "choose_executor creator peers local =
     (case Scheduler_choose peers local of Some i \<Rightarrow> if i \<noteq> creator then i else creator | None \<Rightarrow> creator)"

text \<open>A comparator that agrees with a linear order makes \<open>min_by\<close> return a least element, the first one.\<close>

locale comparator =
  fixes compare :: "'a \<Rightarrow> 'a \<Rightarrow> ordering"
    and key :: "'a \<Rightarrow> 'k :: linorder"
    and ok :: "'a \<Rightarrow> bool"
  assumes greater: "ok a \<Longrightarrow> ok b \<Longrightarrow> compare a b = Greater \<longleftrightarrow> key b < key a"
begin

lemma fold_least:
  "\<lbrakk>ok x; \<forall>y\<in>set xs. ok y\<rbrakk> \<Longrightarrow>
     fold (\<lambda>y m. if compare m y = Greater then y else m) xs x \<in> insert x (set xs)
     \<and> (\<forall>y\<in>insert x (set xs). key (fold (\<lambda>y m. if compare m y = Greater then y else m) xs x) \<le> key y)"
proof (induction xs arbitrary: x)
  case (Cons y xs)
  show ?case
  proof (cases "key y < key x")
    case True
    with Cons.prems Cons.IH [of y] show ?thesis by (auto simp: greater)
  next
    case False
    with Cons.prems Cons.IH [of x] show ?thesis by (auto simp: greater)
  qed
qed simp

lemma min_by_least:
  "\<forall>x\<in>set xs. ok x \<Longrightarrow> min_by compare xs = Some m \<Longrightarrow> m \<in> set xs \<and> (\<forall>x\<in>set xs. key m \<le> key x)"
  using fold_least by (cases xs) (auto simp: min_by_def)

lemma min_by_None: "min_by compare xs = None \<longleftrightarrow> xs = []"
  by (cases xs) (auto simp: min_by_def)

lemma min_by_key:
  assumes "\<forall>x\<in>set xs. ok x" "set xs = set ys"
  shows "map_option key (min_by compare xs) = map_option key (min_by compare ys)"
proof (cases "xs = []")
  case True
  with assms show ?thesis by (simp add: min_by_def)
next
  case False
  with assms(2) have "ys \<noteq> []" by auto
  with False obtain a b where ab: "min_by compare xs = Some a" "min_by compare ys = Some b"
    using min_by_None by fastforce
  with min_by_least [of xs a] min_by_least [of ys b] assms have "key a = key b" by (auto intro: antisym)
  with ab show ?thesis by simp
qed

end

text \<open>Numbers that are not NaN are linearly ordered; the rank makes this a library order.\<close>

fun f32_rank :: "f32 \<Rightarrow> int \<times> int" where
  "f32_rank NegInf = (-1, 0)"
| "f32_rank (Fin a) = (0, a)"
| "f32_rank PosInf = (1, 0)"
| "f32_rank NaN = (2, 0)"

lemma f32_less_rank: "a \<noteq> NaN \<Longrightarrow> b \<noteq> NaN \<Longrightarrow> f32_less a b \<longleftrightarrow> f32_rank a < f32_rank b"
  by (cases a; cases b) auto

lemma f32_rank_inj: "f32_rank a = f32_rank b \<longleftrightarrow> a = b"
  by (cases a; cases b) auto

lemma cmp_greater: "a \<noteq> NaN \<Longrightarrow> b \<noteq> NaN \<Longrightarrow> unwrap_or_equal (f32_partial_cmp a b) =
    (if f32_rank a < f32_rank b then Less else if f32_rank b < f32_rank a then Greater else Equal)"
  by (simp add: f32_partial_cmp_def unwrap_or_equal_def f32_less_rank)

interpretation by_load: comparator load_cmp "\<lambda>p. (f32_rank (ps_cpu_usage p), ps_id p)" "\<lambda>p. ps_cpu_usage p \<noteq> NaN"
  by unfold_locales (auto simp: load_cmp_def cmp_greater then_with_def u64_cmp_def not_less dest: order.strict_implies_not_eq less_le_not_le [THEN iffD1])

interpretation by_cpu: comparator steal_cmp "\<lambda>p. f32_rank (ps_cpu_usage p)" "\<lambda>p. ps_cpu_usage p \<noteq> NaN"
  by unfold_locales (auto simp: steal_cmp_def cmp_greater dest: less_asym)

lemma eligible_finite: "eligible p \<longleftrightarrow> (\<exists>c. ps_cpu_usage p = Fin c \<and> 0 \<le> c \<and> c < 85 * 2 ^ 149)"
  by (cases "ps_cpu_usage p") (auto simp: eligible_def f32_of_int_def)

lemma Scheduler_choose_cases:
  assumes "Scheduler_choose peers local = Some i"
  obtains p where "p \<in> set peers" "eligible p" "ps_id p = i"
    "\<And>q. q \<in> set peers \<Longrightarrow> eligible q \<Longrightarrow> (f32_rank (ps_cpu_usage p), ps_id p) \<le> (f32_rank (ps_cpu_usage q), ps_id q)"
    "f32_less (ps_cpu_usage p) (f32_sub (ls_cpu_usage local) (f32_of_int 15))
       \<or> 2 \<le> ls_queued_jobs local \<and> f32_less (ps_cpu_usage p) (f32_of_int 50)"
proof -
  from assms obtain p where p: "min_by load_cmp (filter eligible peers) = Some p" "ps_id p = i"
    "f32_less (ps_cpu_usage p) (f32_sub (ls_cpu_usage local) (f32_of_int 15))
       \<or> 2 \<le> ls_queued_jobs local \<and> f32_less (ps_cpu_usage p) (f32_of_int 50)"
    by (auto simp: Scheduler_choose_def split: if_splits option.splits)
  have "\<forall>q\<in>set (filter eligible peers). ps_cpu_usage q \<noteq> NaN" by (auto simp: eligible_finite)
  from by_load.min_by_least [OF this p(1)] p(2,3) that show thesis by auto
qed

text \<open>The scheduler's decision depends on the set of peers only, and when it delegates, the target
  is an eligible peer (a valid load below 85) with the least load, the least id among equals.\<close>

theorem Scheduler_choose_deterministic:
  assumes "set peers = set peers'" "Scheduler_choose peers local = r"
  shows "Scheduler_choose peers' local = r
    \<and> (\<forall>i. r = Some i \<longrightarrow> (\<exists>p c. p \<in> set peers \<and> ps_id p = i \<and> ps_cpu_usage p = Fin c \<and> 0 \<le> c \<and> c < 85 * 2 ^ 149
         \<and> (\<forall>q d. q \<in> set peers \<longrightarrow> ps_cpu_usage q = Fin d \<longrightarrow> 0 \<le> d \<longrightarrow> c \<le> d \<and> (c = d \<longrightarrow> ps_id p \<le> ps_id q))))"
proof -
  have ok: "\<forall>q\<in>set (filter eligible peers). ps_cpu_usage q \<noteq> NaN" by (auto simp: eligible_finite)
  have "map_option (\<lambda>p. (f32_rank (ps_cpu_usage p), ps_id p)) (min_by load_cmp (filter eligible peers))
      = map_option (\<lambda>p. (f32_rank (ps_cpu_usage p), ps_id p)) (min_by load_cmp (filter eligible peers'))"
    by (rule by_load.min_by_key [OF ok]) (use assms(1) in auto)
  then have "Scheduler_choose peers' local = Scheduler_choose peers local"
    using assms(1) by (auto simp: Scheduler_choose_def f32_rank_inj split: option.splits)
  moreover have "\<exists>p c. p \<in> set peers \<and> ps_id p = i \<and> ps_cpu_usage p = Fin c \<and> 0 \<le> c \<and> c < 85 * 2 ^ 149
      \<and> (\<forall>q d. q \<in> set peers \<longrightarrow> ps_cpu_usage q = Fin d \<longrightarrow> 0 \<le> d \<longrightarrow> c \<le> d \<and> (c = d \<longrightarrow> ps_id p \<le> ps_id q))"
    if i: "Scheduler_choose peers local = Some i" for i
  proof -
    from i obtain p where p: "p \<in> set peers" "eligible p" "ps_id p = i"
      and least: "\<And>q. q \<in> set peers \<Longrightarrow> eligible q \<Longrightarrow> (f32_rank (ps_cpu_usage p), ps_id p) \<le> (f32_rank (ps_cpu_usage q), ps_id q)"
      by (rule Scheduler_choose_cases) blast
    from p(2) obtain c where c: "ps_cpu_usage p = Fin c" "0 \<le> c" "c < 85 * 2 ^ 149" by (auto simp: eligible_finite)
    have "c \<le> d \<and> (c = d \<longrightarrow> ps_id p \<le> ps_id q)" if q: "q \<in> set peers" "ps_cpu_usage q = Fin d" "0 \<le> d" for q d
    proof (cases "d < 85 * 2 ^ 149")
      case True
      with least [of q] q c show ?thesis by (auto simp: eligible_finite less_eq_prod_def)
    qed (use c in simp)
    with p c show ?thesis by blast
  qed
  ultimately show ?thesis using assms(2) by blast
qed

lemma round_24_exact: "m < 2 ^ 24 \<Longrightarrow> round_24 (m * 2 ^ s) = m * 2 ^ s"
proof (cases "bit_length (m * 2 ^ s) \<le> 24")
  case False
  assume "m < 2 ^ 24"
  then have "m * 2 ^ s < 2 ^ (24 + s)" by (simp add: power_add)
  then have "bit_length (m * 2 ^ s) \<le> 24 + s" by (simp only: bit_length_le)
  then have "bit_length (m * 2 ^ s) - 24 \<le> s" by simp
  then have "(2 :: nat) ^ (bit_length (m * 2 ^ s) - 24) dvd m * 2 ^ s" by (simp add: le_imp_power_dvd)
  with False show ?thesis by (simp add: round_24_def round_half_even_def Let_def)
qed (simp add: round_24_def)

lemma f32_sub_of_int:
  assumes "b \<le> a" "a - b < 2 ^ 24"
  shows "f32_sub (f32_of_int a) (f32_of_int b) = f32_of_int (a - b)"
proof -
  define m where "m = nat (a - b)"
  have m: "a - b = int m" "m < 2 ^ 24" using assms by (auto simp: m_def nat_less_iff)
  then have diff: "a * 2 ^ 149 - b * 2 ^ 149 = int (m * 2 ^ 149)" by (simp add: left_diff_distrib [symmetric])
  have "m * 2 ^ 149 < 2 ^ 24 * 2 ^ 149" by (rule mult_strict_right_mono [OF m(2)]) simp
  then have "m * 2 ^ 149 < 2 ^ 277" by simp
  then have "\<not> (2 :: nat) ^ 277 \<le> m * 2 ^ 149" by linarith
  with round_24_exact [OF m(2), of 149] diff m(1) show ?thesis
    by (simp only: f32_of_int_def f32_sub.simps f32_round_def Let_def nat_int abs_of_nat) simp
qed

definition sample_local :: LocalState where
  "sample_local = (LocalState_new [])\<lparr>ls_cpu_usage := f32_of_int 50\<rparr>"

lemmas sample_choice = Scheduler_choose_def min_by_def eligible_def load_cmp_def f32_partial_cmp_def unwrap_or_equal_def
  then_with_def u64_cmp_def sample_peer_def sample_local_def LocalState_new_def f32_sub_of_int
  f32_of_int_def [of 0] f32_of_int_def [of 10] f32_of_int_def [of 35] f32_of_int_def [of 85]

theorem Scheduler_choose_deterministic_witness:
  "Scheduler_choose [sample_peer, sample_peer\<lparr>ps_id := 1\<rparr>] sample_local = Some 1
   \<and> Scheduler_choose [sample_peer\<lparr>ps_id := 1\<rparr>, sample_peer] sample_local = Some 1"
proof -
  have "Scheduler_choose [sample_peer, sample_peer\<lparr>ps_id := 1\<rparr>] sample_local = Some 1"
    by (simp add: sample_choice)
  with Scheduler_choose_deterministic [of "[sample_peer, sample_peer\<lparr>ps_id := 1\<rparr>]"
      "[sample_peer\<lparr>ps_id := 1\<rparr>, sample_peer]" sample_local "Some 1"]
  show ?thesis by (simp add: insert_commute)
qed

text \<open>Without a backlog, a job leaves the Sister only for a peer that is at least 15 points less
  loaded, up to the rounding of single precision: less than \<open>2^-18\<close> of a point.\<close>

theorem Scheduler_margin:
  assumes "Scheduler_choose peers local = Some i" "ls_queued_jobs local < 2"
    and "ls_cpu_usage local = Fin l" "0 \<le> l" "l \<le> 100 * 2 ^ 149"
  shows "\<exists>p c. p \<in> set peers \<and> ps_id p = i \<and> ps_cpu_usage p = Fin c \<and> c < l - 15 * 2 ^ 149 + 2 ^ 131"
proof -
  from assms(1) obtain p where p: "p \<in> set peers" "eligible p" "ps_id p = i"
    and *: "f32_less (ps_cpu_usage p) (f32_sub (ls_cpu_usage local) (f32_of_int 15))
       \<or> 2 \<le> ls_queued_jobs local \<and> f32_less (ps_cpu_usage p) (f32_of_int 50)"
    by (rule Scheduler_choose_cases)
  define d where "d = l - 15 * 2 ^ 149"
  from * assms(2, 3) have less: "f32_less (ps_cpu_usage p) (f32_round d)"
    by (auto simp: f32_of_int_def d_def)
  from p(2) obtain c where c: "ps_cpu_usage p = Fin c" "0 \<le> c" by (auto simp: eligible_finite)
  have small: "nat \<bar>d\<bar> < 2 ^ (24 + 132)" using assms(4, 5) by (simp add: d_def)
  from round_24_close [OF small] have close: "\<bar>int (round_24 (nat \<bar>d\<bar>)) - \<bar>d\<bar>\<bar> * 2 \<le> 2 ^ 132" by simp
  have "\<bar>d\<bar> < 2 ^ 156" using assms(4, 5) by (simp add: d_def)
  with close have "int (round_24 (nat \<bar>d\<bar>)) < 2 ^ 277" by simp
  then have "round_24 (nat \<bar>d\<bar>) < 2 ^ 277" by simp
  with less c have "c < (if d < 0 then - int (round_24 (nat \<bar>d\<bar>)) else int (round_24 (nat \<bar>d\<bar>)))"
    by (simp add: f32_round_def Let_def split: if_splits)
  with close have "c < d + 2 ^ 131" by (auto split: if_splits)
  with p c show ?thesis unfolding d_def by blast
qed

theorem Scheduler_margin_witness:
  "\<exists>p c. p \<in> set [sample_peer] \<and> ps_id p = 2 \<and> ps_cpu_usage p = Fin c \<and> c < 50 * 2 ^ 149 - 15 * 2 ^ 149 + 2 ^ 131"
proof (rule Scheduler_margin [where local = sample_local])
  show "Scheduler_choose [sample_peer] sample_local = Some 2"
    by (simp add: sample_choice)
qed (simp_all add: sample_local_def LocalState_new_def f32_of_int_def)

section \<open>The tasks that share the manager\<close>

text \<open>
  The executor loop holds at most one job, popped or running. A handler of a job request holds the
  job it popped until the send has succeeded or failed. An inline execution registers its job
  directly. A handler runs in the task of its stream: when the session ends or the runtime stops, the
  task is aborted at its next \<open>await\<close>, and the job a handler of a job request holds at that moment, or
  the job an inline execution runs, is dropped with it; the same happens when the offer cannot be
  serialised and the handler returns early. The executor is not aborted: it finishes the job it runs.
  \<open>jy_accepted\<close>, \<open>jy_finished\<close> and \<open>jy_sent\<close> record what was queued, what the executor finished and
  what was transferred, \<open>jy_dropped\<close> and \<open>jy_inline_dropped\<close> what was lost in this way.
\<close>

datatype Executor = Waiting | Popped LocalJob | Executing LocalJob u64

fun held :: "Executor \<Rightarrow> LocalJob list" where
  "held Waiting = []"
| "held (Popped job) = [job]"
| "held (Executing job started) = [job]"

record JobSystem =
  jy_manager :: JobManager
  jy_executor :: Executor
  jy_offers :: "(u64 \<times> LocalJob) list"
  jy_inline :: "LocalJob list"
  jy_accepted :: "LocalJob list"
  jy_finished :: "LocalJob list"
  jy_sent :: "(u64 \<times> LocalJob) list"
  jy_inline_done :: "LocalJob list"
  jy_dropped :: "(u64 \<times> LocalJob) list"
  jy_inline_dropped :: "LocalJob list"

definition JobSystem_new :: JobSystem where
  "JobSystem_new = \<lparr>jy_manager = JobManager_new, jy_executor = Waiting, jy_offers = [], jy_inline = [],
     jy_accepted = [], jy_finished = [], jy_sent = [], jy_inline_done = [], jy_dropped = [], jy_inline_dropped = []\<rparr>"

inductive job_step :: "bool \<Rightarrow> JobSystem \<Rightarrow> JobSystem \<Rightarrow> bool" for allow :: bool where
  step_enqueue: "lj_status job = Queued \<Longrightarrow>
    job_step allow s (s\<lparr>jy_manager := enqueue job (jy_manager s), jy_accepted := job # jy_accepted s\<rparr>)"
| step_pop: "jy_executor s = Waiting \<Longrightarrow> job_pop (jy_manager s) = (Some job, m) \<Longrightarrow>
    job_step allow s (s\<lparr>jy_manager := m, jy_executor := Popped job\<rparr>)"
| step_start: "jy_executor s = Popped job \<Longrightarrow>
    job_step allow s (s\<lparr>jy_manager := mark_running (lj_id job) started (jy_manager s), jy_executor := Executing job started\<rparr>)"
| step_finish: "jy_executor s = Executing job started \<Longrightarrow>
    job_step allow s (s\<lparr>jy_manager := mark_finished (lj_id job) result (jy_manager s), jy_executor := Waiting,
                        jy_finished := job # jy_finished s\<rparr>)"
| step_offer: "pop_transferable requester allow (jy_manager s) = (Some job, m) \<Longrightarrow>
    job_step allow s (s\<lparr>jy_manager := m, jy_offers := (requester, job) # jy_offers s\<rparr>)"
| step_sent: "(requester, job) \<in> set (jy_offers s) \<Longrightarrow>
    job_step allow s (s\<lparr>jy_manager := mark_transferred (lj_id job) (jy_manager s),
                        jy_offers := remove1 (requester, job) (jy_offers s), jy_sent := (requester, job) # jy_sent s\<rparr>)"
| step_unsent: "(requester, job) \<in> set (jy_offers s) \<Longrightarrow>
    job_step allow s (s\<lparr>jy_manager := push_back job (jy_manager s), jy_offers := remove1 (requester, job) (jy_offers s)\<rparr>)"
| step_dropped: "(requester, job) \<in> set (jy_offers s) \<Longrightarrow>
    job_step allow s (s\<lparr>jy_offers := remove1 (requester, job) (jy_offers s), jy_dropped := (requester, job) # jy_dropped s\<rparr>)"
| step_inline: "job_step allow s (s\<lparr>jy_manager := start_inline job started (jy_manager s), jy_inline := job # jy_inline s\<rparr>)"
| step_inline_done: "job \<in> set (jy_inline s) \<Longrightarrow>
    job_step allow s (s\<lparr>jy_manager := mark_finished (lj_id job) result (jy_manager s),
                        jy_inline := remove1 job (jy_inline s), jy_inline_done := job # jy_inline_done s\<rparr>)"
| step_inline_dropped: "job \<in> set (jy_inline s) \<Longrightarrow>
    job_step allow s (s\<lparr>jy_inline := remove1 job (jy_inline s), jy_inline_dropped := job # jy_inline_dropped s\<rparr>)"

inductive job_run :: "bool \<Rightarrow> JobSystem \<Rightarrow> bool" for allow :: bool where
  run_new: "job_run allow JobSystem_new"
| run_step: "job_run allow s \<Longrightarrow> job_step allow s t \<Longrightarrow> job_run allow t"

definition waiting_jobs :: "JobSystem \<Rightarrow> LocalJob list" where
  "waiting_jobs s = jm_queue (jy_manager s) @ held (jy_executor s) @ map snd (jy_offers s)"

definition all_jobs :: "JobSystem \<Rightarrow> LocalJob multiset" where
  "all_jobs s = mset (waiting_jobs s) + mset (jy_finished s) + mset (map snd (jy_sent s)) + mset (map snd (jy_dropped s))"

lemma get_mut_queue [simp]: "jm_queue (get_mut i f m) = jm_queue m"
  by (simp add: get_mut_def split: option.splits)

lemma manager_queues [simp]:
  "jm_queue (enqueue job m) = jm_queue m @ [job]" "jm_queue (start_inline job t m) = jm_queue m"
  "jm_queue (push_back job m) = jm_queue m @ [job]" "jm_queue (mark_running i t m) = jm_queue m"
  "jm_queue (mark_transferred i m) = jm_queue m" "jm_queue (mark_finished i r m) = jm_queue m"
  by (simp_all add: enqueue_def start_inline_def push_back_def mark_running_def mark_transferred_def
      mark_finished_def queue_push_def)

lemma job_pop_Some: "job_pop m = (Some job, m') \<longleftrightarrow> jm_queue m = job # jm_queue m' \<and> m' = m\<lparr>jm_queue := jm_queue m'\<rparr>"
  by (cases m; cases "jm_queue m") (auto simp: job_pop_def)

lemma pop_transferable_Some:
  assumes "pop_transferable requester allow m = (Some job, m')"
  shows "mset (jm_queue m) = add_mset job (mset (jm_queue m')) \<and> job_transferable job requester allow \<and> jm_jobs m' = jm_jobs m"
proof -
  from assms obtain q where q: "pop_where (\<lambda>job. job_transferable job requester allow) (jm_queue m) = (Some job, q)"
    "m' = m\<lparr>jm_queue := q\<rparr>"
    by (auto simp: pop_transferable_def split: prod.splits)
  from pop_where_Some [OF q(1)] q(2) show ?thesis by auto
qed

text \<open>The jobs in the system are the accepted ones, and only permitted transfers are made.\<close>

lemma mset_remove1_map: "x \<in> set xs \<Longrightarrow> mset (map f xs) = add_mset (f x) (mset (map f (remove1 x xs)))"
  by (induction xs) auto

lemma job_run_conserves: "job_run allow s \<Longrightarrow>
   mset (jy_accepted s) = all_jobs s
   \<and> (\<forall>requester job. (requester, job) \<in> set (jy_offers s) \<union> set (jy_sent s) \<union> set (jy_dropped s) \<longrightarrow> job_transferable job requester allow)"
proof (induction rule: job_run.induct)
  case run_new
  then show ?case by (simp add: JobSystem_new_def all_jobs_def waiting_jobs_def JobManager_new_def)
next
  case (run_step s t)
  from run_step.hyps(2) run_step.IH show ?case
  proof (cases rule: job_step.cases)
    case (step_sent requester job)
    with run_step.IH mset_remove1_map [of "(requester, job)" "jy_offers s" snd] show ?thesis
      by (auto simp: all_jobs_def waiting_jobs_def dest: set_remove1_subset [THEN subsetD])
  next
    case (step_unsent requester job)
    with run_step.IH mset_remove1_map [of "(requester, job)" "jy_offers s" snd] show ?thesis
      by (auto simp: all_jobs_def waiting_jobs_def dest: set_remove1_subset [THEN subsetD])
  next
    case (step_dropped requester job)
    with run_step.IH mset_remove1_map [of "(requester, job)" "jy_offers s" snd] show ?thesis
      by (auto simp: all_jobs_def waiting_jobs_def dest: set_remove1_subset [THEN subsetD])
  qed (auto simp: all_jobs_def waiting_jobs_def job_pop_Some dest!: pop_transferable_Some)
qed

text \<open>C23: No job is duplicated or handed to a Sister that must not run it, and a job is lost only with
  the handler that holds it: in every run, however the tasks interleave, the accepted jobs are exactly
  (with multiplicity) those still queued, held by the executor, being offered, finished, sent, or
  dropped with the handler of a job request that was aborted or returned early while it held them;
  and each job sent or dropped in this way was taken for a requester it was authorized for, or was
  unauthorized on a Sister that allows such operations. In particular no local or delegated job is ever
  lost on a Sister whose job-request handlers are not aborted.\<close>

theorem job_conservation:
  assumes "job_run allow s"
  shows "mset (jy_accepted s) = mset (jm_queue (jy_manager s)) + mset (held (jy_executor s))
      + mset (map snd (jy_offers s)) + mset (jy_finished s) + mset (map snd (jy_sent s)) + mset (map snd (jy_dropped s))
    \<and> (\<forall>requester job. (requester, job) \<in> set (jy_sent s) \<union> set (jy_dropped s) \<longrightarrow>
         (case lj_authorization job of Some a \<Rightarrow> ca_target a = Some (Principal_Sister requester) | None \<Rightarrow> allow))"
proof -
  have "case lj_authorization job of Some a \<Rightarrow> ca_target a = Some (Principal_Sister requester) | None \<Rightarrow> allow"
    if "job_transferable job requester allow" for job requester
    using that by (auto simp: job_transferable_def split: option.splits Principal.splits)
  moreover have "job_transferable job requester allow" if "(requester, job) \<in> set (jy_sent s) \<union> set (jy_dropped s)" for requester job
    using job_run_conserves [OF assms] that by blast
  moreover have "mset (jy_accepted s) = all_jobs s" using job_run_conserves [OF assms] by blast
  ultimately show ?thesis by (simp add: all_jobs_def waiting_jobs_def)
qed

definition sample_job :: LocalJob where
  "sample_job = LocalJob_new ''j'' ''true''"

definition sample_system :: JobSystem where
  "sample_system = JobSystem_new\<lparr>jy_manager := enqueue sample_job JobManager_new, jy_accepted := [sample_job]\<rparr>"

lemma sample_system_run: "job_run allow sample_system"
proof -
  have "job_step allow JobSystem_new (JobSystem_new\<lparr>jy_manager := enqueue sample_job (jy_manager JobSystem_new),
      jy_accepted := sample_job # jy_accepted JobSystem_new\<rparr>)"
    by (rule step_enqueue) (simp add: sample_job_def LocalJob_new_def)
  from run_step [OF run_new this] show ?thesis by (simp add: sample_system_def JobSystem_new_def)
qed

theorem job_conservation_witness: "mset (jm_queue (jy_manager sample_system)) = {#sample_job#}"
  using job_conservation [OF sample_system_run]
  by (simp add: sample_system_def JobSystem_new_def JobManager_new_def)

text \<open>A Sister is seen as busy as long as any of its tasks has work.\<close>

definition live_jobs :: "JobSystem \<Rightarrow> LocalJob list" where
  "live_jobs s = waiting_jobs s @ jy_inline s"

definition known_jobs :: "JobSystem \<Rightarrow> LocalJob list" where
  "known_jobs s = live_jobs s @ jy_finished s @ map snd (jy_sent s) @ jy_inline_done s
     @ map snd (jy_dropped s) @ jy_inline_dropped s"

definition active :: "JobManager \<Rightarrow> LocalJob \<Rightarrow> bool" where
  "active m job \<longleftrightarrow> (\<exists>entry. hm_get (jm_jobs m) (lj_id job) = Some entry \<and> (lj_status entry = Queued \<or> lj_status entry = Running))"

lemma distinct_part:
  assumes "mset ys = mset xs + A" "distinct (map f ys)"
  shows "distinct (map f xs)"
proof -
  obtain as where "A = mset as" by (metis ex_mset)
  with assms(1) have "mset (map f ys) = mset (map f (xs @ as))" by simp
  then have "distinct (map f ys) \<longleftrightarrow> distinct (map f (xs @ as))" by (rule mset_eq_imp_distinct_iff)
  with assms(2) show ?thesis by simp
qed

lemma mset_remove1_in: "x \<in> set xs \<Longrightarrow> mset xs = add_mset x (mset (remove1 x xs))"
  using mset_remove1_map [of x xs id] by simp

lemmas known_defs = known_jobs_def live_jobs_def waiting_jobs_def

lemma job_step_known:
  assumes "job_step allow s t"
  shows "\<exists>A. mset (known_jobs t) = mset (known_jobs s) + A"
  using assms
proof (cases rule: job_step.cases)
  case (step_sent requester job)
  with mset_remove1_map [of "(requester, job)" "jy_offers s" snd] show ?thesis
    by (intro exI [of _ "{#}"]) (auto simp: known_defs)
next
  case (step_unsent requester job)
  with mset_remove1_map [of "(requester, job)" "jy_offers s" snd] show ?thesis
    by (intro exI [of _ "{#}"]) (auto simp: known_defs)
next
  case (step_dropped requester job)
  with mset_remove1_map [of "(requester, job)" "jy_offers s" snd] show ?thesis
    by (intro exI [of _ "{#}"]) (auto simp: known_defs)
next
  case (step_inline_done job result)
  with mset_remove1_in [of job "jy_inline s"] show ?thesis
    by (intro exI [of _ "{#}"]) (auto simp: known_defs)
next
  case (step_inline_dropped job)
  with mset_remove1_in [of job "jy_inline s"] show ?thesis
    by (intro exI [of _ "{#}"]) (auto simp: known_defs)
qed (force simp: known_defs job_pop_Some dest!: pop_transferable_Some)+

lemma get_mut_get:
  "hm_get (jm_jobs (get_mut i f m)) k = (if k = i then map_option f (hm_get (jm_jobs m) k) else hm_get (jm_jobs m) k)"
  by (simp add: get_mut_def hm_simps split: option.splits)

lemma active_simps:
  "lj_status job = Queued \<Longrightarrow> active (enqueue job m) j \<longleftrightarrow> lj_id j = lj_id job \<or> active m j"
  "active (start_inline job t m) j \<longleftrightarrow> lj_id j = lj_id job \<or> active m j"
  "active (push_back job m) j \<longleftrightarrow> active m j"
  "lj_id j \<noteq> i \<Longrightarrow> active (mark_finished i r m) j \<longleftrightarrow> active m j"
  "lj_id j \<noteq> i \<Longrightarrow> active (mark_transferred i m) j \<longleftrightarrow> active m j"
  "active m j \<Longrightarrow> active (mark_running i t m) j"
  by (auto simp: active_def enqueue_def start_inline_def push_back_def mark_finished_def mark_transferred_def
      mark_running_def get_mut_get hm_simps)

lemma live_not_done:
  assumes "distinct (map lj_id (known_jobs s))" "j \<in> set (live_jobs s)"
    and "k \<in> set (jy_finished s) \<union> snd ` set (jy_sent s) \<union> set (jy_inline_done s)"
  shows "lj_id j \<noteq> lj_id k"
proof -
  have "lj_id ` set (live_jobs s) \<inter> lj_id ` set (jy_finished s @ map snd (jy_sent s) @ jy_inline_done s
      @ map snd (jy_dropped s) @ jy_inline_dropped s) = {}"
    using assms(1) unfolding known_jobs_def map_append [of _ "live_jobs s"] distinct_append set_map by (elim conjE)
  with assms(2, 3) show ?thesis by auto
qed

lemma job_run_active:
  "job_run allow s \<Longrightarrow> distinct (map lj_id (known_jobs s)) \<Longrightarrow> \<forall>j\<in>set (live_jobs s). active (jy_manager s) j"
proof (induction rule: job_run.induct)
  case run_new
  then show ?case by (simp add: JobSystem_new_def known_defs JobManager_new_def)
next
  case (run_step s t)
  from job_step_known [OF run_step.hyps(2)] distinct_part run_step.prems
  have "distinct (map lj_id (known_jobs s))" by blast
  with run_step.IH have IH: "j \<in> set (live_jobs s) \<Longrightarrow> active (jy_manager s) j" for j by blast
  from run_step.hyps(2) show ?case
  proof (cases rule: job_step.cases)
    case (step_offer requester job m)
    from pop_transferable_Some [OF step_offer(2)] have q: "set (jm_queue (jy_manager s)) = insert job (set (jm_queue m))"
      by (metis set_mset_add_mset_insert set_mset_mset)
    from pop_transferable_Some [OF step_offer(2)] have jobs: "jm_jobs m = jm_jobs (jy_manager s)" by simp
    from step_offer q IH jobs show ?thesis by (auto simp: known_defs active_def)
  next
    case (step_finish job started result)
    have "lj_id j \<noteq> lj_id job" if "j \<in> set (live_jobs t)" for j
      by (rule live_not_done [OF run_step.prems that]) (simp add: step_finish)
    with step_finish IH show ?thesis by (auto simp: known_defs active_simps)
  next
    case (step_sent requester job)
    have "lj_id j \<noteq> lj_id job" if "j \<in> set (live_jobs t)" for j
      by (rule live_not_done [OF run_step.prems that]) (simp add: step_sent)
    with step_sent IH show ?thesis by (auto simp: known_defs active_simps dest: set_remove1_subset [THEN subsetD])
  next
    case (step_inline_done job result)
    have "lj_id j \<noteq> lj_id job" if "j \<in> set (live_jobs t)" for j
      by (rule live_not_done [OF run_step.prems that]) (simp add: step_inline_done)
    with step_inline_done IH show ?thesis by (auto simp: known_defs active_simps dest: set_remove1_subset [THEN subsetD])
  next
    case (step_unsent requester job)
    then have "job \<in> set (live_jobs s)" by (force simp: known_defs)
    with step_unsent IH [of job] IH show ?thesis by (auto simp: known_defs active_simps dest: set_remove1_subset [THEN subsetD])
  next
    case (step_pop job m)
    then have "jm_queue (jy_manager s) = job # jm_queue m" "jm_jobs m = jm_jobs (jy_manager s)"
      by (simp_all add: job_pop_Some) (metis JobManager.select_convs(2) JobManager.surjective JobManager.update_convs(1))
    with step_pop IH show ?thesis by (auto simp: known_defs active_def)
  next
    case (step_dropped requester job)
    with IH show ?thesis by (auto simp: known_defs dest: set_remove1_subset [THEN subsetD])
  next
    case (step_inline_dropped job)
    with IH show ?thesis by (auto simp: known_defs dest: set_remove1_subset [THEN subsetD])
  qed (use IH in \<open>auto simp: known_defs active_simps\<close>)
qed

text \<open>A Sister never reports itself idle (and so never starts stealing) while it has work: as long
  as job ids are not reused, \<open>is_busy\<close> holds whenever a job is queued, held by the executor, being
  offered to a requester, or running inline, at every point of every interleaving.\<close>

theorem busy_while_working:
  assumes "job_run allow s" "distinct (map lj_id (known_jobs s))"
    and "jm_queue (jy_manager s) \<noteq> [] \<or> jy_executor s \<noteq> Waiting \<or> jy_offers s \<noteq> [] \<or> jy_inline s \<noteq> []"
  shows "is_busy (jy_manager s) \<and> steal_target steal_when_lt (jy_manager s) peers = None"
proof -
  have "live_jobs s \<noteq> []" using assms(3) by (cases "jy_executor s") (auto simp: known_defs)
  then obtain j where "j \<in> set (live_jobs s)" by (cases "live_jobs s") auto
  with job_run_active [OF assms(1, 2)] have "active (jy_manager s) j" by blast
  then have "is_busy (jy_manager s)" by (force simp: active_def is_busy_def dest: map_of_SomeD)
  then show ?thesis by (simp add: steal_target_def)
qed

theorem busy_while_working_witness: "is_busy (jy_manager sample_system)"
proof -
  have "distinct (map lj_id (known_jobs sample_system))"
    by (simp add: known_defs sample_system_def JobSystem_new_def JobManager_new_def)
  moreover have "jm_queue (jy_manager sample_system) \<noteq> []" by (simp add: sample_system_def)
  ultimately show ?thesis using busy_while_working [OF sample_system_run] by blast
qed

end
