(* ===== verification/Misaka_Node.thy ===== *)
theory Misaka_Node
  imports Misaka_Jobs Misaka_Stores
begin

text \<open>
  The control plane of one Sister: the message handler (\<^verbatim>\<open>misaka-runtime/src/handler.rs\<close>), the executor
  (\<^verbatim>\<open>executor.rs\<close>) and the submission and discovery operations of \<^verbatim>\<open>node.rs\<close>, over the peer
  service, the job manager and the trust stores. The wire codecs and the endpoint parsers of the
  packages are parameters; the clock, the outcome of writes and sends, and random values are inputs
  of each operation. What an operation sends is a list of effects.
\<close>

section \<open>Endpoints\<close>

record endpoint_parsers =
  ep_socket :: "string \<Rightarrow> string option"
  ep_iroh :: "string \<Rightarrow> IrohEndpointId option"

datatype NetworkEndpoint = Endpoint_Tcp string | Endpoint_Iroh IrohEndpointId

definition NetworkEndpoint_from_str :: "endpoint_parsers \<Rightarrow> string \<Rightarrow> NetworkEndpoint option" where
  "NetworkEndpoint_from_str E v =
     (case strip_prefix ''tcp://'' v of
        Some v' \<Rightarrow> map_option Endpoint_Tcp (ep_socket E v')
      | None \<Rightarrow>
          (case strip_prefix ''iroh://'' v of
             Some v' \<Rightarrow> map_option Endpoint_Iroh (ep_iroh E v')
           | None \<Rightarrow> None))"

section \<open>The node\<close>

record codec =
  dec_hello :: "bytes \<Rightarrow> HelloData option"
  dec_state :: "bytes \<Rightarrow> StateData option"
  dec_job :: "bytes \<Rightarrow> JobData option"
  dec_result :: "bytes \<Rightarrow> JobResultData option"
  dec_records :: "bytes \<Rightarrow> PeerRecordsData option"
  enc_hello :: "HelloData \<Rightarrow> bytes"
  enc_state :: "StateData \<Rightarrow> bytes"
  enc_job :: "JobData \<Rightarrow> bytes"
  enc_result :: "JobResultData \<Rightarrow> bytes"
  enc_records :: "PeerRecordsData \<Rightarrow> bytes"

record SisterNode =
  sn_identity :: SisterIdentity
  sn_network_id :: NetworkId
  sn_allow_unauthenticated :: bool
  sn_iroh :: bool
  sn_listen_addr :: string
  sn_stream_endpoint :: "string option"
  sn_stream_certificate :: "bytes option"
  sn_peer_record :: "PeerRecord option"
  sn_peers :: PeerService
  sn_jobs :: JobManager
  sn_local_state :: LocalState
  sn_authority :: "NetworkAuthority disk"
  sn_human :: HumanFiles
  sn_revocations :: "RevocationRecord list disk"
  sn_nonces :: "NonceEntry list disk"

abbreviation sn_id :: "SisterNode \<Rightarrow> u64" where
  "sn_id node \<equiv> si_id (sn_identity node)"

datatype NodeError = WrongNetwork | SpoofedSender | SpoofedIdentity | Unauthorized | NoAuthority
  | StoreFailed | AuthorizationInvalid | MembershipRevoked | NonceRejected | Decode | Unreachable
  | HumanMaterialIncomplete | HumanMaterialInvalid | RecordRejected | EndpointInvalid | EndpointMismatch
  | UnexpectedReply

datatype effect = Fire u64 Envelope | Push_records u64 | Callback "string option" Envelope | Deliver nat JobResultData

record ambient =
  am_now :: u64
  am_now_nonce :: u64
  am_instant :: nat
  am_write_peers :: write_outcome
  am_write_record :: "PeerRecord \<Rightarrow> write_outcome"
  am_write_nonce :: write_outcome
  am_send_ok :: bool

type_synonym outcome' = "(NodeError + Envelope option) \<times> effect list \<times> SisterNode"

section \<open>The message handler\<close>

definition require_side_effect_authorization :: "CommandAuthorization option \<Rightarrow> bool \<Rightarrow> NodeError + unit" where
  "require_side_effect_authorization authorization allow =
     (if authorization = None \<and> \<not> allow then Err Unauthorized else Ok ())"

definition sender_matches_peer :: "u64 option \<Rightarrow> u64 \<Rightarrow> bool" where
  "sender_matches_peer peer claimed = (case peer of None \<Rightarrow> True | Some p \<Rightarrow> p = claimed)"

definition job_forward_envelope :: "NetworkId \<Rightarrow> u64 \<Rightarrow> u64 \<Rightarrow> bytes \<Rightarrow> Envelope" where
  "job_forward_envelope network_id sender_id executor data = Envelope_new network_id Job sender_id executor data"

definition hello_of :: "SisterNode \<Rightarrow> HelloData" where
  "hello_of node = \<lparr>hd_network_id = sn_network_id node, hd_identity = sn_identity node,
     hd_listen_addr = sn_listen_addr node, hd_stream_addr = sn_stream_endpoint node,
     hd_stream_certificate = sn_stream_certificate node\<rparr>"

definition node_remember_peer :: "ambient \<Rightarrow> HelloData \<Rightarrow> SisterNode \<Rightarrow> SisterNode" where
  "node_remember_peer A hello node =
     node\<lparr>sn_peers := remember_peer (am_instant A) (am_write_peers A) (hd_identity hello) (hd_network_id hello)
       (hd_listen_addr hello) (hd_stream_addr hello) (hd_stream_certificate hello) (sn_peers node)\<rparr>"

definition handle_hello :: "codec \<Rightarrow> ambient \<Rightarrow> SisterNode \<Rightarrow> Envelope \<Rightarrow> u64 option \<Rightarrow> outcome'" where
  "handle_hello C A node env peer =
     (case dec_hello C (env_data env) of
        None \<Rightarrow> (Err Decode, [], node)
      | Some hello \<Rightarrow>
          if hd_network_id hello \<noteq> sn_network_id node then (Err WrongNetwork, [], node)
          else if \<not> sender_matches_peer peer (si_id (hd_identity hello)) then (Err SpoofedIdentity, [], node)
          else (Ok (Some (Envelope_new (sn_network_id node) Hello (sn_id node) (env_from env) (enc_hello C (hello_of node)))),
                [Push_records (env_from env)], node_remember_peer A hello node))"

definition peer_of_state :: "StateData \<Rightarrow> PeerState" where
  "peer_of_state s =
     \<lparr>ps_network_id = sd_network_id s, ps_id = si_id (sd_identity s), ps_nickname = si_nickname (sd_identity s),
      ps_hostname = si_hostname (sd_identity s), ps_platform = si_platform (sd_identity s),
      ps_version = si_version (sd_identity s),
      ps_stream_endpoints = (case sd_stream_addr s of None \<Rightarrow> [] | Some a \<Rightarrow> [a]),
      ps_stream_certificate = sd_stream_certificate s, ps_addr = sd_listen_addr s,
      ps_cpu_usage = sd_cpu_usage s, ps_memory_total = sd_memory_total s, ps_memory_used = sd_memory_used s,
      ps_running_jobs = sd_running_jobs s, ps_queued_jobs = sd_queued_jobs s, ps_uptime_secs = sd_uptime_secs s,
      ps_capabilities = sd_capabilities s\<rparr>"

definition handle_state :: "codec \<Rightarrow> ambient \<Rightarrow> SisterNode \<Rightarrow> Envelope \<Rightarrow> u64 option \<Rightarrow> outcome'" where
  "handle_state C A node env peer =
     (case dec_state C (env_data env) of
        None \<Rightarrow> (Err Decode, [], node)
      | Some state \<Rightarrow>
          if sd_network_id state \<noteq> sn_network_id node then (Ok None, [], node)
          else if \<not> sender_matches_peer peer (si_id (sd_identity state)) then (Err SpoofedIdentity, [], node)
          else (Ok None, [], node\<lparr>sn_peers := PeerService_upsert (am_instant A) (peer_of_state state) (sn_peers node)\<rparr>))"

definition constraint_holds :: "string \<Rightarrow> string \<Rightarrow> bool" where
  "constraint_holds command c = (case strip_prefix ''command='' c of None \<Rightarrow> False | Some expected \<Rightarrow> expected = command)"

text \<open>The checks a human authorization has to pass at this hop, up to the nonce.\<close>

definition check_job_authorization :: "lib \<Rightarrow> ambient \<Rightarrow> SisterNode \<Rightarrow> JobData \<Rightarrow> u64 \<Rightarrow> CommandAuthorization \<Rightarrow> NodeError + unit" where
  "check_job_authorization L A node job expected_target authorization =
     (case NetworkAuthorityStore_load (sn_authority node) of
        Inl _ \<Rightarrow> Err StoreFailed
      | Inr None \<Rightarrow> Err NoAuthority
      | Inr (Some authority) \<Rightarrow>
          if ca_permission authorization \<noteq> JobSubmit
             \<or> ca_network_id authorization \<noteq> sn_network_id node
             \<or> \<not> CommandAuthorization_verify L authorization authority (am_now A)
             \<or> ca_target authorization \<noteq> Some (Principal_Sister expected_target)
             \<or> \<not> list_all (constraint_holds (full_command job)) (ca_constraints authorization)
          then Err AuthorizationInvalid
          else (case RevocationStore_is_revoked L authority (ca_network_id authorization) MembershipKind_Human
                       (hmc_serial (ca_membership authorization)) (sn_revocations node) of
                  Inl _ \<Rightarrow> Err StoreFailed
                | Inr True \<Rightarrow> Err MembershipRevoked
                | Inr False \<Rightarrow> Ok ()))"

definition will_forward :: "SisterNode \<Rightarrow> JobData \<Rightarrow> bool" where
  "will_forward node job \<longleftrightarrow> jd_executor job \<noteq> 0 \<and> jd_executor job \<noteq> sn_id node
     \<and> hm_get (pt_peers (svc_registry (sn_peers node))) (jd_executor job) \<noteq> None"

definition authorize_job :: "lib \<Rightarrow> ambient \<Rightarrow> SisterNode \<Rightarrow> JobData \<Rightarrow> (NodeError + unit) \<times> SisterNode" where
  "authorize_job L A node job =
     (case require_side_effect_authorization (jd_authorization job) (sn_allow_unauthenticated node) of
        Inl e \<Rightarrow> (Err e, node)
      | Inr _ \<Rightarrow>
          (case jd_authorization job of
             None \<Rightarrow> (Ok (), node)
           | Some authorization \<Rightarrow>
               (case check_job_authorization L A node job (if will_forward node job then jd_executor job else sn_id node) authorization of
                  Inl e \<Rightarrow> (Err e, node)
                | Inr _ \<Rightarrow>
                    if will_forward node job then (Ok (), node)
                    else (case AuthorizationNonceStore_record (am_write_nonce A) authorization (am_now_nonce A) (sn_nonces node) of
                            (Inl _, f) \<Rightarrow> (Err NonceRejected, node\<lparr>sn_nonces := f\<rparr>)
                          | (Inr _, f) \<Rightarrow> (Ok (), node\<lparr>sn_nonces := f\<rparr>)))))"

definition local_job_of :: "JobData \<Rightarrow> LocalJob" where
  "local_job_of job = (LocalJob_new (jd_id job) (full_command job))
     \<lparr>lj_creator := jd_creator job, lj_creator_addr := Some (jd_creator_addr job), lj_authorization := jd_authorization job\<rparr>"

definition handle_job :: "lib \<Rightarrow> codec \<Rightarrow> ambient \<Rightarrow> SisterNode \<Rightarrow> Envelope \<Rightarrow> outcome'" where
  "handle_job L C A node env =
     (case dec_job C (env_data env) of
        None \<Rightarrow> (Err Decode, [], node)
      | Some job \<Rightarrow>
          (case authorize_job L A node job of
             (Inl e, node') \<Rightarrow> (Err e, [], node')
           | (Inr _, node') \<Rightarrow>
               if will_forward node job
               then (if am_send_ok A then Ok None else Err Unreachable,
                     [Fire (jd_executor job) (job_forward_envelope (sn_network_id node) (sn_id node) (jd_executor job) (env_data env))],
                     node')
               else (Ok None, [], node'\<lparr>sn_jobs := enqueue (local_job_of job) (sn_jobs node')\<rparr>)))"

definition handle_job_response :: "codec \<Rightarrow> SisterNode \<Rightarrow> Envelope \<Rightarrow> outcome'" where
  "handle_job_response C node env =
     (case dec_result C (env_data env) of
        None \<Rightarrow> (Err Decode, [], node)
      | Some result \<Rightarrow>
          if jr_creator result \<noteq> sn_id node then (Ok None, [], node)
          else (case resolve_pending (jr_job_id result) (sn_jobs node) of
                  (Some tx, m) \<Rightarrow> (Ok None, [Deliver tx result], node\<lparr>sn_jobs := m\<rparr>)
                | (None, m) \<Rightarrow> (Ok None, [], node\<lparr>sn_jobs := m\<rparr>)))"

definition stolen_job_data :: "SisterNode \<Rightarrow> u64 \<Rightarrow> u64 \<Rightarrow> LocalJob \<Rightarrow> JobData" where
  "stolen_job_data node requester now job =
     \<lparr>jd_id = lj_id job, jd_creator = lj_creator job, jd_executor = requester,
      jd_creator_addr = (case lj_creator_addr job of Some a \<Rightarrow> a | None \<Rightarrow> sn_listen_addr node),
      jd_command = lj_command job, jd_arguments = [], jd_created_at = now, jd_authorization = lj_authorization job\<rparr>"

definition handle_job_request :: "codec \<Rightarrow> ambient \<Rightarrow> SisterNode \<Rightarrow> Envelope \<Rightarrow> outcome'" where
  "handle_job_request C A node env =
     (let requester = env_from env;
          peer_known = (hm_get (pt_peers (svc_registry (sn_peers node))) requester \<noteq> None)
      in case pop_transferable requester (sn_allow_unauthenticated node) (sn_jobs node) of
           (Some job, m) \<Rightarrow>
             if peer_known
             then let envelope = Envelope_new (sn_network_id node) Job (sn_id node) requester
                        (enc_job C (stolen_job_data node requester (am_now A) job))
                  in if am_send_ok A
                     then (Ok None, [Fire requester envelope], node\<lparr>sn_jobs := mark_transferred (lj_id job) m\<rparr>)
                     else (Ok None, [Fire requester envelope], node\<lparr>sn_jobs := push_back job m\<rparr>)
             else (Ok None, [], node\<lparr>sn_jobs := push_back job m\<rparr>)
         | (None, m) \<Rightarrow>
             if peer_known
             then (Ok None, [Fire requester (Envelope_new (sn_network_id node) Ack (sn_id node) requester [])], node\<lparr>sn_jobs := m\<rparr>)
             else (Ok None, [], node\<lparr>sn_jobs := m\<rparr>))"

definition endpoint_matches :: "endpoint_parsers \<Rightarrow> PeerRecord \<Rightarrow> bool" where
  "endpoint_matches E r =
     (case NetworkEndpoint_from_str E (pr_endpoint_addr r) of
        Some (Endpoint_Iroh i) \<Rightarrow> i = tb_iroh_endpoint_id (pr_transport_binding r)
      | _ \<Rightarrow> False)"

definition remember_peer_record :: "lib \<Rightarrow> endpoint_parsers \<Rightarrow> ambient \<Rightarrow> PeerRecord \<Rightarrow> SisterNode \<Rightarrow> SisterNode" where
  "remember_peer_record L E A r node =
     (if pr_network_id r \<noteq> sn_network_id node \<or> \<not> PeerRecord_verify L r then node
      else if \<not> endpoint_matches E r then node
      else node\<lparr>sn_peers := snd (upsert_peer_record L (am_write_record A r) r (sn_peers node))\<rparr>)"

definition handle_peer_records :: "lib \<Rightarrow> endpoint_parsers \<Rightarrow> codec \<Rightarrow> ambient \<Rightarrow> SisterNode \<Rightarrow> Envelope \<Rightarrow> outcome'" where
  "handle_peer_records L E C A node env =
     (case dec_records C (env_data env) of
        None \<Rightarrow> (Err Decode, [], node)
      | Some records \<Rightarrow>
          if prd_network_id records \<noteq> sn_network_id node then (Ok None, [], node)
          else (Ok None, [], fold (remember_peer_record L E A) (prd_records records) node))"

definition dispatch_envelope ::
    "lib \<Rightarrow> endpoint_parsers \<Rightarrow> codec \<Rightarrow> ambient \<Rightarrow> SisterNode \<Rightarrow> Envelope \<Rightarrow> u64 option \<Rightarrow> outcome'" where
  "dispatch_envelope L E C A node env peer =
     (if env_network_id env \<noteq> sn_network_id node then (Err WrongNetwork, [], node)
      else if \<not> sender_matches_peer peer (env_from env) then (Err SpoofedSender, [], node)
      else case env_msg_type env of
        Ping \<Rightarrow> (Ok (Some (Envelope_new (sn_network_id node) Pong (sn_id node) (env_from env) [])), [], node)
      | Hello \<Rightarrow> handle_hello C A node env peer
      | State \<Rightarrow> handle_state C A node env peer
      | Job \<Rightarrow> handle_job L C A node env
      | JobResponse \<Rightarrow> handle_job_response C node env
      | JobRequest \<Rightarrow> handle_job_request C A node env
      | PeerRecords \<Rightarrow> handle_peer_records L E C A node env
      | _ \<Rightarrow> (Ok None, [], node))"

section \<open>Submission and execution\<close>

record CommandResult =
  cr_stdout :: string
  cr_stderr :: string
  cr_exit_code :: int

definition full_output :: "CommandResult \<Rightarrow> string" where
  "full_output r = (if cr_stderr r = [] then cr_stdout r else cr_stdout r @ [CHR 0x0A] @ cr_stderr r)"

definition command_success :: "CommandResult \<Rightarrow> bool" where
  "command_success r \<longleftrightarrow> cr_exit_code r = 0"

definition result_of :: "SisterNode \<Rightarrow> string \<Rightarrow> u64 \<Rightarrow> u64 \<Rightarrow> u64 \<Rightarrow> CommandResult \<Rightarrow> JobResultData" where
  "result_of node job_id creator started finished result =
     \<lparr>jr_job_id = job_id, jr_creator = creator, jr_executor = sn_id node, jr_output = full_output result,
      jr_exit_code = cr_exit_code result, jr_success = command_success result, jr_started_at = started,
      jr_finished_at = finished\<rparr>"

text \<open>One turn of the executor loop; \<open>shell\<close> is what running a command gives.\<close>

definition executor_step :: "codec \<Rightarrow> (string \<Rightarrow> CommandResult) \<Rightarrow> u64 \<Rightarrow> u64 \<Rightarrow> SisterNode \<Rightarrow> effect list \<times> SisterNode" where
  "executor_step C shell started finished node =
     (case job_pop (sn_jobs node) of
        (None, m) \<Rightarrow> ([], node\<lparr>sn_jobs := m\<rparr>)
      | (Some job, m) \<Rightarrow>
          let m1 = mark_running (lj_id job) started m;
              result = result_of node (lj_id job) (lj_creator job)
                (case lj_started_at job of Some s \<Rightarrow> s | None \<Rightarrow> started) finished (shell (lj_command job));
              m2 = mark_finished (lj_id job) result m1;
              node' = node\<lparr>sn_jobs := m2\<rparr>
          in if lj_creator job \<noteq> sn_id node
             then let env = Envelope_new (sn_network_id node) JobResponse (sn_id node) (lj_creator job) (enc_result C result)
                  in ([if sn_iroh node then Fire (lj_creator job) env else Callback (lj_creator_addr job) env], node')
             else ([], node'))"

text \<open>Several turns in a row, each with the times at which its job starts and finishes\<close>

fun executor_turns :: "codec \<Rightarrow> (string \<Rightarrow> CommandResult) \<Rightarrow> (u64 \<times> u64) list \<Rightarrow> SisterNode \<Rightarrow> effect list \<times> SisterNode" where
  "executor_turns C shell [] node = ([], node)"
| "executor_turns C shell ((started, finished) # turns) node =
     (let (fx, node') = executor_step C shell started finished node; (fx', node'') = executor_turns C shell turns node'
      in (fx @ fx', node''))"

definition execute_and_record :: "(string \<Rightarrow> CommandResult) \<Rightarrow> u64 \<Rightarrow> u64 \<Rightarrow> string \<Rightarrow> string \<Rightarrow> SisterNode \<Rightarrow> JobResultData \<times> SisterNode" where
  "execute_and_record shell started finished job_id command node =
     (let job = (LocalJob_new job_id command)\<lparr>lj_creator := sn_id node\<rparr>;
          m1 = start_inline job started (sn_jobs node);
          result = result_of node job_id (sn_id node) started finished (shell command)
      in (result, node\<lparr>sn_jobs := mark_finished job_id result m1\<rparr>))"

definition submit_local :: "string \<Rightarrow> string \<Rightarrow> SisterNode \<Rightarrow> SisterNode" where
  "submit_local job_id command node =
     node\<lparr>sn_jobs := enqueue ((LocalJob_new job_id command)\<lparr>lj_creator := sn_id node\<rparr>) (sn_jobs node)\<rparr>"

definition node_choose_executor :: "SisterNode \<Rightarrow> u64" where
  "node_choose_executor node =
     choose_executor (sn_id node) (PeerStateTable_all (svc_registry (sn_peers node))) (sn_local_state node)"

definition build_job_submit_authorization ::
    "lib \<Rightarrow> u64 \<Rightarrow> arr16 \<Rightarrow> SisterNode \<Rightarrow> u64 \<Rightarrow> string \<Rightarrow> NodeError + CommandAuthorization option" where
  "build_job_submit_authorization L now nonce node target command =
     (case (HumanIdentityStore_load (sn_human node), HumanIdentityStore_load_key (sn_human node),
            HumanIdentityStore_load_membership (sn_human node)) of
        (Inr None, Inr None, Inr None) \<Rightarrow> Ok None
      | (Inr (Some human), Inr (Some human_key), Inr (Some membership)) \<Rightarrow>
          (case NetworkAuthorityStore_load (sn_authority node) of
             Inl _ \<Rightarrow> Err StoreFailed
           | Inr None \<Rightarrow> Err NoAuthority
           | Inr (Some authority) \<Rightarrow>
               if na_network_id authority \<noteq> sn_network_id node \<or> hmc_human membership \<noteq> human
                  \<or> \<not> HumanMembershipCertificate_verify L membership authority now
                  \<or> HumanKeyPair_public_key L human_key \<noteq> hi_public_key human
               then Err HumanMaterialInvalid
               else (case RevocationStore_is_revoked L authority (sn_network_id node) MembershipKind_Human
                            (hmc_serial membership) (sn_revocations node) of
                       Inl _ \<Rightarrow> Err StoreFailed
                     | Inr True \<Rightarrow> Err MembershipRevoked
                     | Inr False \<Rightarrow>
                         Ok (Some (CommandAuthorization_issue L (sn_network_id node) human membership (hmc_role membership)
                           JobSubmit (Some (Principal_Sister target)) [''command='' @ command] now (saturating_add now 300)
                           nonce human_key))))
      | (Inr _, Inr _, Inr _) \<Rightarrow> Err HumanMaterialIncomplete
      | _ \<Rightarrow> Err StoreFailed)"

text \<open>Sending a job to another Sister over the authenticated control channel, up to the wait for the
  result: the reserved channel \<open>tx\<close> is what the result is delivered to.\<close>

definition submitted_job :: "SisterNode \<Rightarrow> string \<Rightarrow> u64 \<Rightarrow> u64 \<Rightarrow> string \<Rightarrow> CommandAuthorization option \<Rightarrow> JobData" where
  "submitted_job node job_id now executor command authorization =
     \<lparr>jd_id = job_id, jd_creator = sn_id node, jd_executor = executor, jd_creator_addr = sn_listen_addr node,
      jd_command = command, jd_arguments = [], jd_created_at = now, jd_authorization = authorization\<rparr>"

definition submit_to_sister_authorized ::
    "codec \<Rightarrow> bool \<Rightarrow> string \<Rightarrow> nat \<Rightarrow> u64 \<Rightarrow> u64 \<Rightarrow> string \<Rightarrow> CommandAuthorization option \<Rightarrow> SisterNode
      \<Rightarrow> (NodeError + unit) \<times> effect list \<times> SisterNode" where
  "submit_to_sister_authorized C send_ok job_id tx now executor command authorization node =
     (let job = submitted_job node job_id now executor command authorization;
          m = reserve_pending job_id tx (sn_jobs node);
          env = Envelope_new (sn_network_id node) Job (sn_id node) executor (enc_job C job)
      in if send_ok then (Ok (), [Fire executor env], node\<lparr>sn_jobs := m\<rparr>)
         else (Err Unreachable, [Fire executor env], node\<lparr>sn_jobs := cancel_pending job_id m\<rparr>))"

definition request_work_from :: "SisterNode \<Rightarrow> u64 \<Rightarrow> effect list" where
  "request_work_from node peer_id = [Fire peer_id (Envelope_new (sn_network_id node) JobRequest (sn_id node) peer_id [])]"

definition send_peer_records :: "codec \<Rightarrow> SisterNode \<Rightarrow> u64 \<Rightarrow> effect list" where
  "send_peer_records C node peer_id =
     (let records = PeerService_peer_records (sn_peers node);
          all = (case sn_peer_record node of
                   None \<Rightarrow> records
                 | Some local \<Rightarrow> filter (\<lambda>r. pr_sister_id r \<noteq> pr_sister_id local) records @ [local])
      in if all = [] then []
         else [Fire peer_id (Envelope_new (sn_network_id node) PeerRecords (sn_id node) peer_id
                 (enc_records C \<lparr>prd_network_id = sn_network_id node, prd_records = all\<rparr>))])"

definition record_hello_reply :: "codec \<Rightarrow> ambient \<Rightarrow> Envelope \<Rightarrow> SisterNode \<Rightarrow> (NodeError + unit) \<times> SisterNode" where
  "record_hello_reply C A reply node =
     (if env_msg_type reply \<noteq> Hello then (Err UnexpectedReply, node)
      else case dec_hello C (env_data reply) of
        None \<Rightarrow> (Err Decode, node)
      | Some hello \<Rightarrow>
          if hd_network_id hello \<noteq> sn_network_id node then (Err WrongNetwork, node)
          else (Ok (), node_remember_peer A hello node))"

definition broadcast_state :: "codec \<Rightarrow> ResourceSnapshot \<Rightarrow> SisterNode \<Rightarrow> effect list \<times> SisterNode" where
  "broadcast_state C snapshot node =
     (let ls = (apply_snapshot snapshot (sn_local_state node))
                 \<lparr>ls_queued_jobs := of_nat (count_queued (sn_jobs node)), ls_running_jobs := of_nat (count_running (sn_jobs node))\<rparr>;
          peers = map ps_id (PeerStateTable_all (svc_registry (sn_peers node)));
          state = \<lparr>sd_network_id = sn_network_id node, sd_identity = sn_identity node, sd_listen_addr = sn_listen_addr node,
                   sd_stream_addr = sn_stream_endpoint node, sd_stream_certificate = sn_stream_certificate node,
                   sd_cpu_usage = ls_cpu_usage ls, sd_memory_total = ls_memory_total ls, sd_memory_used = ls_memory_used ls,
                   sd_running_jobs = ls_running_jobs ls, sd_queued_jobs = ls_queued_jobs ls,
                   sd_uptime_secs = ls_uptime_secs ls, sd_capabilities = ls_capabilities ls\<rparr>
      in (map (\<lambda>p. Fire p (Envelope_new (sn_network_id node) State (sn_id node) 0 (enc_state C state))) peers,
          node\<lparr>sn_local_state := ls\<rparr>))"

section \<open>Discovery through gateways\<close>

definition peer_record_usable :: "lib \<Rightarrow> endpoint_parsers \<Rightarrow> NetworkId \<Rightarrow> PeerRecord \<Rightarrow> bool" where
  "peer_record_usable L E network_id r \<longleftrightarrow> pr_network_id r = network_id \<and> PeerRecord_verify L r \<and> endpoint_matches E r"

definition merge_gateway_candidate :: "PeerRecord \<Rightarrow> (u64, PeerRecord) hashmap \<Rightarrow> (u64, PeerRecord) hashmap" where
  "merge_gateway_candidate r merged =
     (case hm_get merged (pr_sister_id r) of
        Some current \<Rightarrow> if pr_sequence r > pr_sequence current then hm_insert (pr_sister_id r) r merged else merged
      | None \<Rightarrow> hm_insert (pr_sister_id r) r merged)"

definition merge_gateway_records :: "lib \<Rightarrow> endpoint_parsers \<Rightarrow> NetworkId \<Rightarrow> PeerRecord \<Rightarrow> (u64, PeerRecord) hashmap \<Rightarrow> (u64, PeerRecord) hashmap" where
  "merge_gateway_records L E network_id r merged =
     (if peer_record_usable L E network_id r then merge_gateway_candidate r merged else merged)"

definition should_rebootstrap :: "u64 option \<Rightarrow> u64 \<Rightarrow> bool \<Rightarrow> bool" where
  "should_rebootstrap known sequence live = (case known of None \<Rightarrow> True | Some previous \<Rightarrow> sequence > previous \<or> \<not> live)"

text \<open>\<open>dial\<close> is what the pinned authenticated connection and its Hello give.\<close>

definition bootstrap_peer_record ::
    "lib \<Rightarrow> endpoint_parsers \<Rightarrow> ambient \<Rightarrow> (NetworkEndpoint \<Rightarrow> u64 \<Rightarrow> SisterPublicKey \<Rightarrow> SisterNode \<Rightarrow> (NodeError + unit) \<times> SisterNode)
      \<Rightarrow> PeerRecord \<Rightarrow> SisterNode \<Rightarrow> (NodeError + unit) \<times> SisterNode" where
  "bootstrap_peer_record L E A dial r node =
     (if pr_network_id r \<noteq> sn_network_id node \<or> \<not> PeerRecord_verify L r then (Err RecordRejected, node)
      else case NetworkEndpoint_from_str E (pr_endpoint_addr r) of
        None \<Rightarrow> (Err EndpointInvalid, node)
      | Some endpoint \<Rightarrow>
          if (case endpoint of Endpoint_Iroh i \<Rightarrow> i \<noteq> tb_iroh_endpoint_id (pr_transport_binding r) | Endpoint_Tcp _ \<Rightarrow> True)
          then (Err EndpointMismatch, node)
          else (case dial endpoint (pr_sister_id r) (pr_sister_public_key r) node of
                  (Inl e, node') \<Rightarrow> (Err e, node')
                | (Inr _, node') \<Rightarrow> (Ok (), remember_peer_record L E A r node')))"

section \<open>What the handler does to the node\<close>

lemmas handler_defs = dispatch_envelope_def handle_hello_def handle_state_def handle_job_def handle_job_response_def
  handle_job_request_def handle_peer_records_def node_remember_peer_def

lemma remember_peer_record_sel [simp]:
  "sn_nonces (remember_peer_record L E A r node) = sn_nonces node" "sn_jobs (remember_peer_record L E A r node) = sn_jobs node"
  "sn_identity (remember_peer_record L E A r node) = sn_identity node"
  "sn_network_id (remember_peer_record L E A r node) = sn_network_id node"
  "sn_allow_unauthenticated (remember_peer_record L E A r node) = sn_allow_unauthenticated node"
  "svc_registry (sn_peers (remember_peer_record L E A r node)) = svc_registry (sn_peers node)"
  by (simp_all add: remember_peer_record_def upsert_peer_record_def Let_def)

lemma fold_remember_sel [simp]:
  "sn_nonces (fold (remember_peer_record L E A) rs node) = sn_nonces node"
  "sn_jobs (fold (remember_peer_record L E A) rs node) = sn_jobs node"
  "sn_identity (fold (remember_peer_record L E A) rs node) = sn_identity node"
  "sn_network_id (fold (remember_peer_record L E A) rs node) = sn_network_id node"
  "sn_allow_unauthenticated (fold (remember_peer_record L E A) rs node) = sn_allow_unauthenticated node"
  "svc_registry (sn_peers (fold (remember_peer_record L E A) rs node)) = svc_registry (sn_peers node)"
  by (induction rs arbitrary: node) simp_all

text \<open>The authorization that a message makes the node record, if it comes that far.\<close>

definition job_authorization :: "lib \<Rightarrow> codec \<Rightarrow> ambient \<Rightarrow> SisterNode \<Rightarrow> Envelope \<Rightarrow> u64 option \<Rightarrow> CommandAuthorization option" where
  "job_authorization L C A node env peer =
     (if env_network_id env = sn_network_id node \<and> sender_matches_peer peer (env_from env) \<and> env_msg_type env = Job
      then case dec_job C (env_data env) of
             None \<Rightarrow> None
           | Some job \<Rightarrow>
               (case jd_authorization job of
                  None \<Rightarrow> None
                | Some a \<Rightarrow> if \<not> will_forward node job \<and> is_ok (check_job_authorization L A node job (sn_id node) a) then Some a else None)
      else None)"

lemma authorize_job_cases:
  "authorize_job L A node job =
     (case jd_authorization job of
        None \<Rightarrow> (if sn_allow_unauthenticated node then (Ok (), node) else (Err Unauthorized, node))
      | Some a \<Rightarrow>
          (case check_job_authorization L A node job (if will_forward node job then jd_executor job else sn_id node) a of
             Inl e \<Rightarrow> (Err e, node)
           | Inr _ \<Rightarrow>
               if will_forward node job then (Ok (), node)
               else (case AuthorizationNonceStore_record (am_write_nonce A) a (am_now_nonce A) (sn_nonces node) of
                       (Inl _, f) \<Rightarrow> (Err NonceRejected, node\<lparr>sn_nonces := f\<rparr>)
                     | (Inr _, f) \<Rightarrow> (Ok (), node\<lparr>sn_nonces := f\<rparr>))))"
  by (auto simp: authorize_job_def require_side_effect_authorization_def split: option.splits)

lemma authorize_job_sel:
  "sn_jobs (snd (authorize_job L A node job)) = sn_jobs node" "sn_identity (snd (authorize_job L A node job)) = sn_identity node"
  "sn_network_id (snd (authorize_job L A node job)) = sn_network_id node"
  "sn_allow_unauthenticated (snd (authorize_job L A node job)) = sn_allow_unauthenticated node"
  "sn_peers (snd (authorize_job L A node job)) = sn_peers node"
  by (simp_all add: authorize_job_cases split: option.splits sum.splits prod.splits)

lemma dispatch_nonces:
  "sn_nonces (snd (snd (dispatch_envelope L E C A node env peer))) =
     (case job_authorization L C A node env peer of
        None \<Rightarrow> sn_nonces node
      | Some a \<Rightarrow> snd (AuthorizationNonceStore_record (am_write_nonce A) a (am_now_nonce A) (sn_nonces node)))"
proof (cases "env_msg_type env = Job")
  case True
  then show ?thesis
    by (auto simp: dispatch_envelope_def handle_job_def job_authorization_def authorize_job_cases is_ok_def
        split: option.splits sum.splits prod.splits)
next
  case False
  then have "job_authorization L C A node env peer = None" by (simp add: job_authorization_def)
  moreover have "sn_nonces (snd (snd (dispatch_envelope L E C A node env peer))) = sn_nonces node"
    using False by (cases "env_msg_type env")
      (auto simp: handler_defs Let_def split: option.splits prod.splits)
  ultimately show ?thesis by simp
qed

text \<open>A message that carries an authorization starts a job when it is accepted and not forwarded.\<close>

definition starts_job :: "lib \<Rightarrow> codec \<Rightarrow> ambient \<Rightarrow> SisterNode \<Rightarrow> Envelope \<Rightarrow> u64 option \<Rightarrow> bool" where
  "starts_job L C A node env peer =
     (case job_authorization L C A node env peer of
        None \<Rightarrow> False
      | Some a \<Rightarrow> is_ok (fst (AuthorizationNonceStore_record (am_write_nonce A) a (am_now_nonce A) (sn_nonces node))))"

lemma dispatch_queue_job:
  assumes "env_msg_type env = Job"
  shows "jm_queue (sn_jobs (snd (snd (dispatch_envelope L E C A node env peer)))) = jm_queue (sn_jobs node)
   \<or> (\<exists>job. dec_job C (env_data env) = Some job
       \<and> (starts_job L C A node env peer \<or> jd_authorization job = None \<and> sn_allow_unauthenticated node)
       \<and> jm_queue (sn_jobs (snd (snd (dispatch_envelope L E C A node env peer)))) = jm_queue (sn_jobs node) @ [local_job_of job])"
  using assms
  by (auto simp: dispatch_envelope_def handle_job_def job_authorization_def starts_job_def authorize_job_cases is_ok_def
      split: option.splits sum.splits prod.splits if_splits)

lemma pop_transferable_queue:
  "pop_transferable requester allow m = (r, m') \<Longrightarrow>
     mset (jm_queue m) = mset (jm_queue m') + (case r of None \<Rightarrow> {#} | Some job \<Rightarrow> {#job#})"
proof (cases r)
  case None
  assume "pop_transferable requester allow m = (r, m')"
  with None show ?thesis by (auto simp: pop_transferable_def pop_where_None split: prod.splits)
next
  case (Some job)
  assume "pop_transferable requester allow m = (r, m')"
  with Some pop_transferable_Some [of requester allow m job m'] show ?thesis by simp
qed

lemma dispatch_queue_other:
  assumes "env_msg_type env \<noteq> Job"
  shows "mset (jm_queue (sn_jobs (snd (snd (dispatch_envelope L E C A node env peer))))) \<subseteq># mset (jm_queue (sn_jobs node))"
  using assms
  by (cases "env_msg_type env")
    (auto simp: handler_defs Let_def resolve_pending_def dest: pop_transferable_queue split: option.splits prod.splits)

text \<open>The queue of a node holds a job once more than before.\<close>

definition gains_job :: "SisterNode \<Rightarrow> SisterNode \<Rightarrow> LocalJob \<Rightarrow> bool" where
  "gains_job node node' j \<longleftrightarrow> count (mset (jm_queue (sn_jobs node))) j < count (mset (jm_queue (sn_jobs node'))) j"

lemma dispatch_gains:
  assumes "gains_job node (snd (snd (dispatch_envelope L E C A node env peer))) j"
  shows "env_msg_type env = Job \<and> (\<exists>job. dec_job C (env_data env) = Some job \<and> j = local_job_of job
    \<and> (starts_job L C A node env peer \<or> jd_authorization job = None \<and> sn_allow_unauthenticated node))"
proof -
  have isjob: "env_msg_type env = Job"
    using dispatch_queue_other [of env L E C A node peer] assms mset_subset_eq_count
    unfolding gains_job_def by (metis leD)
  from dispatch_queue_job [OF isjob, of L E C A node peer] assms isjob show ?thesis
    by (auto simp: gains_job_def split: if_splits)
qed

text \<open>What an accepted message proves about its authorization\<close>

lemma starts_job_recorded:
  assumes "starts_job L C A node env peer"
  obtains a job where "job_authorization L C A node env peer = Some a" "dec_job C (env_data env) = Some job"
    "jd_authorization job = Some a" "is_ok (check_job_authorization L A node job (sn_id node) a)"
    "is_ok (fst (AuthorizationNonceStore_record (am_write_nonce A) a (am_now_nonce A) (sn_nonces node)))"
  using assms by (auto simp: starts_job_def job_authorization_def split: option.splits if_splits)

lemma check_job_authorization_ok:
  assumes "is_ok (check_job_authorization L A node job i a)"
  obtains authority where "NetworkAuthorityStore_load (sn_authority node) = Ok (Some authority)"
    "ca_permission a = JobSubmit" "ca_network_id a = sn_network_id node"
    "CommandAuthorization_verify L a authority (am_now A)" "ca_target a = Some (Principal_Sister i)"
    "list_all (constraint_holds (full_command job)) (ca_constraints a)"
    "RevocationStore_is_revoked L authority (ca_network_id a) MembershipKind_Human (hmc_serial (ca_membership a)) (sn_revocations node) = Ok False"
  using assms by (auto simp: check_job_authorization_def split: sum.splits option.splits if_splits bool.splits)

lemma constraint_holds_eq: "constraint_holds command c \<longleftrightarrow> c = ''command='' @ command"
proof
  assume "constraint_holds command c"
  then have "strip_prefix ''command='' c = Some command" by (simp add: constraint_holds_def split: option.splits)
  then show "c = ''command='' @ command" by (rule strip_prefix_SomeD)
next
  assume "c = ''command='' @ command"
  then have "strip_prefix ''command='' c = Some command" by (simp only: strip_prefix_append)
  then show "constraint_holds command c" by (simp add: constraint_holds_def)
qed


lemma issued_authorization_verifies:
  assumes "ed25519_correct L" "HumanMembershipCertificate_verify L membership authority now" "hmc_human membership = human"
    and "HumanKeyPair_public_key L key = hi_public_key human" "na_network_id authority = network"
    and "Role_allows (hmc_role membership) permission" "issued \<le> now" "now \<le> expires"
  shows "CommandAuthorization_verify L
     (CommandAuthorization_issue L network human membership (hmc_role membership) permission target constraints issued expires nonce key)
     authority now"
proof -
  have "hmc_network_id membership = na_network_id authority"
    using assms(2) by (simp add: HumanMembershipCertificate_verify_def)
  moreover have "issued \<le> expires" using assms(7, 8) by (rule order_trans)
  moreover have "ed_public L key = hi_public_key human" using assms(4) by (simp add: key_defs)
  ultimately show ?thesis
    using assms CommandAuthorization_issue_signature [OF assms(1), of key network human membership "hmc_role membership"
      permission target constraints issued expires nonce]
    by (simp add: CommandAuthorization_verify_def)
qed

definition sample_identity :: SisterIdentity where
  "sample_identity = \<lparr>si_id = 2, si_nickname = ''b'', si_hostname = ''h'', si_platform = ''p'', si_version = ''1'', si_listen_port = 1\<rparr>"

definition sample_node :: SisterNode where
  "sample_node = \<lparr>sn_identity = sample_identity, sn_network_id = 7, sn_allow_unauthenticated = False, sn_iroh = True,
     sn_listen_addr = ''b:1'', sn_stream_endpoint = None, sn_stream_certificate = None, sn_peer_record = None,
     sn_peers = PeerService_new lib0 PeerStateTable_new 7 Absent Absent, sn_jobs = JobManager_new,
     sn_local_state = LocalState_new [], sn_authority = Holds sample_authority,
     sn_human = \<lparr>hf_identity = Absent, hf_key = Absent, hf_membership = Absent\<rparr>,
     sn_revocations = Absent, sn_nonces = Absent\<rparr>"

definition sample_job_data :: JobData where
  "sample_job_data = \<lparr>jd_id = ''j'', jd_creator = 1, jd_executor = 2, jd_creator_addr = ''a:1'', jd_command = ''true'',
     jd_arguments = [], jd_created_at = 40, jd_authorization = Some sample_authorization\<rparr>"

definition sample_codec :: codec where
  "sample_codec = \<lparr>dec_hello = \<lambda>_. None, dec_state = \<lambda>_. None, dec_job = \<lambda>_. Some sample_job_data, dec_result = \<lambda>_. None,
     dec_records = \<lambda>_. None, enc_hello = \<lambda>_. [], enc_state = \<lambda>_. [], enc_job = \<lambda>_. [], enc_result = \<lambda>_. [], enc_records = \<lambda>_. []\<rparr>"

definition sample_ambient :: "u64 \<Rightarrow> u64 \<Rightarrow> ambient" where
  "sample_ambient t t' = \<lparr>am_now = t, am_now_nonce = t', am_instant = 0, am_write_peers = Written, am_write_record = \<lambda>_. Written,
     am_write_nonce = Written, am_send_ok = True\<rparr>"

definition sample_parsers :: endpoint_parsers where
  "sample_parsers = \<lparr>ep_socket = \<lambda>_. None, ep_iroh = \<lambda>_. None\<rparr>"

definition sample_envelope :: Envelope where
  "sample_envelope = Envelope_new 7 Job 1 2 []"

lemma sample_authorization_verifies: "20 \<le> t \<Longrightarrow> t \<le> 300 \<Longrightarrow> CommandAuthorization_verify lib0 sample_authorization sample_authority t"
proof -
  assume t: "20 \<le> t" "t \<le> 300"
  have role: "hmc_role sample_human_membership = Operator" "hmc_human sample_human_membership = sample_human"
    by (simp_all add: sample_human_membership_def HumanMembershipCertificate_issue_def Let_def)
  have "HumanMembershipCertificate_verify lib0 sample_human_membership sample_authority t \<longleftrightarrow> 10 \<le> t \<and> True"
    unfolding sample_human_membership_def
    by (subst HumanMembershipCertificate_issue_verify) (simp_all add: sample_authority_def)
  moreover have "(10 :: u64) \<le> 20" by simp
  then have "10 \<le> t" using t(1) by (rule order_trans)
  ultimately have "HumanMembershipCertificate_verify lib0 sample_human_membership sample_authority t" by simp
  from issued_authorization_verifies [OF lib0_ed25519 this role(2), of 6 7 JobSubmit 20 300 "Some (Principal_Sister 2)" "[]" 77] t role
  show ?thesis by (simp add: sample_authorization_def Role_allows_def sample_facts sample_human_def key_defs lib0_def)
qed

lemma sample_check: "20 \<le> t \<Longrightarrow> t \<le> 300 \<Longrightarrow>
    check_job_authorization lib0 (sample_ambient t t') (sample_node\<lparr>sn_nonces := f\<rparr>) sample_job_data 2 sample_authorization = Ok ()"
  by (simp add: check_job_authorization_def sample_node_def NetworkAuthorityStore_load_def sample_ambient_def
      sample_authorization_verifies RevocationStore_is_revoked_def RevocationStore_load_def)

lemma sample_authorized: "20 \<le> t \<Longrightarrow> t \<le> 300 \<Longrightarrow>
    job_authorization lib0 sample_codec (sample_ambient t t') (sample_node\<lparr>sn_nonces := f\<rparr>) sample_envelope None = Some sample_authorization"
  using sample_check [of t t' f]
  by (simp add: job_authorization_def sample_envelope_def Envelope_new_def sender_matches_peer_def sample_codec_def
      will_forward_def sample_job_data_def sample_identity_def sample_node_def)

lemma sample_starts: "20 \<le> t \<Longrightarrow> t \<le> 300 \<Longrightarrow> unspent f 7 77 t' \<Longrightarrow>
    starts_job lib0 sample_codec (sample_ambient t t') (sample_node\<lparr>sn_nonces := f\<rparr>) sample_envelope None"
  using sample_authorized [of t t' f]
  by (simp add: starts_job_def nonce_record_ok sample_ambient_def)

lemma sample_node_nonces: "sample_node\<lparr>sn_nonces := Absent\<rparr> = sample_node"
  by (simp add: sample_node_def)

lemma dispatch_starts:
  assumes "starts_job L C A node env peer"
  shows "\<exists>job a. dec_job C (env_data env) = Some job \<and> jd_authorization job = Some a \<and> job_authorization L C A node env peer = Some a
    \<and> dispatch_envelope L E C A node env peer
        = (Ok None, [], node\<lparr>sn_nonces := Holds (kept_nonces (am_now_nonce A) (sn_nonces node)
             @ [\<lparr>ne_network_id = ca_network_id a, ne_nonce = ca_nonce a, ne_expires_at = ca_expires_at a\<rparr>]),
             sn_jobs := enqueue (local_job_of job) (sn_jobs node)\<rparr>)"
proof -
  obtain a job where a: "job_authorization L C A node env peer = Some a"
    "dec_job C (env_data env) = Some job" "jd_authorization job = Some a"
    and rec: "is_ok (fst (AuthorizationNonceStore_record (am_write_nonce A) a (am_now_nonce A) (sn_nonces node)))"
    by (rule starts_job_recorded [OF assms])
  with nonce_record_file [OF rec] show ?thesis
    by (auto simp: dispatch_envelope_def handle_job_def job_authorization_def authorize_job_cases is_ok_def
        split: sum.splits if_splits)
qed

lemma sample_gains:
  assumes "starts_job lib0 sample_codec A node sample_envelope None"
  shows "gains_job node (snd (snd (dispatch_envelope lib0 sample_parsers sample_codec A node sample_envelope None))) (local_job_of sample_job_data)"
  using dispatch_starts [OF assms, of sample_parsers] by (auto simp: gains_job_def sample_codec_def)


section \<open>An authorization runs once\<close>

text \<open>What happens to a node, at a given time (for a message, the time of the nonce check): a message
  arrives, the executor takes a turn, or a job is submitted locally.\<close>

datatype node_event = Arrives ambient Envelope "u64 option" | Executes "string \<Rightarrow> CommandResult" u64 u64 | Submits string string

fun node_step :: "lib \<Rightarrow> endpoint_parsers \<Rightarrow> codec \<Rightarrow> node_event \<Rightarrow> u64 \<Rightarrow> SisterNode \<Rightarrow> SisterNode" where
  "node_step L E C (Arrives A env peer) now node = snd (snd (dispatch_envelope L E C (A\<lparr>am_now_nonce := now\<rparr>) node env peer))"
| "node_step L E C (Executes shell started finished) now node = snd (executor_step C shell started finished node)"
| "node_step L E C (Submits i command) now node = submit_local i command node"

definition node_run :: "lib \<Rightarrow> endpoint_parsers \<Rightarrow> codec \<Rightarrow> (u64 \<times> node_event) list \<Rightarrow> SisterNode \<Rightarrow> SisterNode" where
  "node_run L E C es node = fold (\<lambda>(now, q) node. node_step L E C q now node) es node"

fun arrival_authorization :: "codec \<Rightarrow> node_event \<Rightarrow> CommandAuthorization option" where
  "arrival_authorization C (Arrives A env peer) =
     (case dec_job C (env_data env) of None \<Rightarrow> None | Some job \<Rightarrow> jd_authorization job)"
| "arrival_authorization C _ = None"

definition node_spend :: "lib \<Rightarrow> endpoint_parsers \<Rightarrow> codec \<Rightarrow> node_event \<Rightarrow> u64 \<Rightarrow> SisterNode \<Rightarrow> SisterNode \<times> bool" where
  "node_spend L E C q now node =
     (node_step L E C q now node, arrival_authorization C q \<noteq> None \<and> (\<exists>j. gains_job node (node_step L E C q now node) j))"

lemma node_run_guard: "guard_run (node_spend L E C) es node = node_run L E C es node"
  by (simp add: guard_run_def node_run_def node_spend_def)

definition node_blocks :: "SisterNode \<Rightarrow> (NetworkId \<times> arr16) option \<Rightarrow> nat \<Rightarrow> bool" where
  "node_blocks node k t = (case k of None \<Rightarrow> False | Some k' \<Rightarrow> nonce_file_blocks (sn_nonces node) k' t)"

lemma job_authorization_arrival:
  "job_authorization L C A node env peer = Some a \<Longrightarrow> arrival_authorization C (Arrives A' env peer) = Some a"
  by (auto simp: job_authorization_def split: if_splits option.splits)

text \<open>An event that is counted is a message whose authorization was recorded.\<close>

lemma node_spend_recorded:
  assumes "snd (node_spend L E C q now s)"
  obtains A env peer a where "q = Arrives A env peer" "arrival_authorization C q = Some a"
    "job_authorization L C (A\<lparr>am_now_nonce := now\<rparr>) s env peer = Some a"
    "snd (record_nonce (a, am_write_nonce A) now (sn_nonces s))"
    "sn_nonces (node_step L E C q now s) = fst (record_nonce (a, am_write_nonce A) now (sn_nonces s))"
proof -
  from assms obtain A env peer j where q: "q = Arrives A env peer" and auth: "arrival_authorization C q \<noteq> None"
    and j: "gains_job s (snd (snd (dispatch_envelope L E C (A\<lparr>am_now_nonce := now\<rparr>) s env peer))) j"
    by (cases q) (auto simp: node_spend_def)
  have "starts_job L C (A\<lparr>am_now_nonce := now\<rparr>) s env peer" using dispatch_gains [OF j] auth q by auto
  then obtain a where a: "job_authorization L C (A\<lparr>am_now_nonce := now\<rparr>) s env peer = Some a"
    "is_ok (fst (AuthorizationNonceStore_record (am_write_nonce A) a now (sn_nonces s)))"
    by (auto simp: starts_job_def split: option.splits)
  have "sn_nonces (node_step L E C q now s) = fst (record_nonce (a, am_write_nonce A) now (sn_nonces s))"
    using dispatch_nonces [of L E C "A\<lparr>am_now_nonce := now\<rparr>" s env peer] a(1) q
    by (simp add: record_nonce_def case_prod_unfold Let_def)
  with a q job_authorization_arrival [OF a(1)] show ?thesis
    by (intro that) (auto simp: record_nonce_def case_prod_unfold Let_def)
qed

lemma executor_nonces [simp]: "sn_nonces (snd (executor_step C shell t t' node)) = sn_nonces node"
  by (simp add: executor_step_def Let_def split: prod.splits option.splits)

lemma submit_nonces [simp]: "sn_nonces (submit_local i command node) = sn_nonces node"
  by (simp add: submit_local_def)

interpretation node_guard: replay_guard "node_spend L E C" "\<lambda>q. map_option nonce_key (arrival_authorization C q)"
  "\<lambda>q now. case arrival_authorization C q of None \<Rightarrow> 0 | Some a \<Rightarrow> Suc (unat (ca_expires_at a))"
  node_blocks "\<lambda>_ _. True" "\<lambda>_. True" for L E C
proof unfold_locales
  fix now :: u64 and s q
  assume "node_blocks s (map_option nonce_key (arrival_authorization C q)) (unat now)"
  then obtain a where a: "arrival_authorization C q = Some a" "nonce_file_blocks (sn_nonces s) (nonce_key a) (unat now)"
    by (auto simp: node_blocks_def split: option.splits)
  show "\<not> snd (node_spend L E C q now s)"
  proof
    assume acc: "snd (node_spend L E C q now s)"
    show False by (rule node_spend_recorded [OF acc]) (use a record_nonce_refuse in auto)
  qed
next
  fix now :: u64 and s t q
  assume acc: "snd (node_spend L E C q now s)"
    and t: "t < (case arrival_authorization C q of None \<Rightarrow> 0 | Some a \<Rightarrow> Suc (unat (ca_expires_at a)))"
  obtain A env peer a where "q = Arrives A env peer" and a: "arrival_authorization C q = Some a"
    and "job_authorization L C (A\<lparr>am_now_nonce := now\<rparr>) s env peer = Some a"
    and rec: "snd (record_nonce (a, am_write_nonce A) now (sn_nonces s))"
      "sn_nonces (node_step L E C q now s) = fst (record_nonce (a, am_write_nonce A) now (sn_nonces s))"
    by (rule node_spend_recorded [OF acc])
  from record_nonce_True [OF rec(1)] t a rec(2)
  show "node_blocks (fst (node_spend L E C q now s)) (map_option nonce_key (arrival_authorization C q)) t"
    by (auto simp: node_blocks_def node_spend_def nonce_file_blocks_def nonce_key_def)
next
  fix now :: u64 and s k t q
  assume "node_blocks s k t" "unat now \<le> t"
  then obtain k' where k: "k = Some k'" "nonce_file_blocks (sn_nonces s) k' t" by (auto simp: node_blocks_def split: option.splits)
  have "nonce_file_blocks (sn_nonces (node_step L E C q now s)) k' t"
  proof (cases q)
    case (Arrives A env peer)
    with k(2) record_nonce_keep [OF k(2) \<open>unat now \<le> t\<close>] dispatch_nonces [of L E C "A\<lparr>am_now_nonce := now\<rparr>" s env peer]
    show ?thesis by (auto simp: record_nonce_def case_prod_unfold Let_def split: option.splits)
  qed (use k(2) in simp_all)
  with k(1) show "node_blocks (fst (node_spend L E C q now s)) k t" by (simp add: node_blocks_def node_spend_def)
qed auto

text \<open>C2: A captured job message cannot make a Sister queue the job again before its authorization
  expires: in any run of messages, executor turns and local submissions with a clock that does not go
  back, if a message with an authorization puts a job into the queue, then a later message with the
  same network and nonce, whose nonce is checked no later than the first authorization expires, puts
  no job into the queue. Failed and interrupted writes of the nonce file and restarts are covered.\<close>

theorem job_runs_once:
  assumes "sorted (map fst (before @ (t1, q1) # between @ [(t2, q2)]))"
    and "arrival_authorization C q1 = Some a" "arrival_authorization C q2 = Some b"
    and "ca_network_id b = ca_network_id a" "ca_nonce b = ca_nonce a" "t2 \<le> ca_expires_at a"
    and "s1 = node_run L E C before node" "gains_job s1 (node_step L E C q1 t1 s1) j1"
    and "s2 = node_run L E C (before @ (t1, q1) # between) node"
  shows "\<not> gains_job s2 (node_step L E C q2 t2 s2) j2"
proof
  assume "gains_job s2 (node_step L E C q2 t2 s2) j2"
  with assms(3, 9) have "snd (node_spend L E C q2 t2 (guard_run (node_spend L E C) (before @ (t1, q1) # between) node))"
    unfolding node_run_guard by (auto simp: node_spend_def)
  moreover from assms(2, 7, 8) have "snd (node_spend L E C q1 t1 (guard_run (node_spend L E C) before node))"
    unfolding node_run_guard by (auto simp: node_spend_def)
  ultimately have "(case arrival_authorization C q1 of None \<Rightarrow> 0 | Some a \<Rightarrow> Suc (unat (ca_expires_at a))) \<le> unat t2"
    using assms(1-5)
    by (intro node_guard.no_reuse [where t = 0 and s = node and before = before and between = between and L = L and E = E])
      (auto simp: nonce_key_def)
  with assms(2, 6) show False by (simp add: word_le_nat_alt)
qed

theorem job_runs_once_witness:
  "let q = Arrives (sample_ambient 50 0) sample_envelope None;
       node1 = node_step lib0 sample_parsers sample_codec q 50 sample_node;
       node2 = node_step lib0 sample_parsers sample_codec (Executes (\<lambda>_. \<lparr>cr_stdout = [], cr_stderr = [], cr_exit_code = 0\<rparr>) 51 52) 52 node1
   in \<not> gains_job node2 (node_step lib0 sample_parsers sample_codec q 60 node2) (local_job_of sample_job_data)"
proof -
  let ?q = "Arrives (sample_ambient 50 0) sample_envelope None"
  have "starts_job lib0 sample_codec (sample_ambient 50 50) sample_node sample_envelope None"
    using sample_starts [of 50 Absent 50] by (simp add: sample_node_nonces unspent_def)
  from sample_gains [OF this]
  have first: "gains_job sample_node (node_step lib0 sample_parsers sample_codec ?q 50 sample_node) (local_job_of sample_job_data)"
    by (simp add: sample_ambient_def)
  have auth: "arrival_authorization sample_codec ?q = Some sample_authorization"
    by (simp add: sample_codec_def sample_job_data_def)
  show ?thesis unfolding Let_def
    by (rule job_runs_once [where before = "[]" and ?t1.0 = 50 and ?q1.0 = ?q and ?t2.0 = 60
          and between = "[(52, Executes (\<lambda>_. \<lparr>cr_stdout = [], cr_stderr = [], cr_exit_code = 0\<rparr>) 51 52)]" and node = sample_node
          and a = sample_authorization, OF _ auth auth refl refl _ refl])
      (use first in \<open>simp_all add: node_run_def\<close>)
qed

text \<open>The checks before the nonce look at neither the queue nor the nonce file.\<close>

lemma job_check_frame [simp]:
  "check_job_authorization L A (node\<lparr>sn_nonces := f, sn_jobs := m\<rparr>) job i a = check_job_authorization L A node job i a"
  "will_forward (node\<lparr>sn_nonces := f, sn_jobs := m\<rparr>) job = will_forward node job"
  by (simp_all add: check_job_authorization_def will_forward_def split: sum.split option.split)

lemma job_authorization_frame:
  "job_authorization L C A (node\<lparr>sn_nonces := f, sn_jobs := m\<rparr>) env peer = job_authorization L C A node env peer"
  by (simp add: job_authorization_def split: option.split)

lemma job_authorization_clock:
  assumes "am_now A' = am_now A"
  shows "job_authorization L C A' node env peer = job_authorization L C A node env peer"
proof -
  have same: "check_job_authorization L A' = check_job_authorization L A"
    unfolding check_job_authorization_def assms by (rule refl)
  show ?thesis unfolding job_authorization_def same by (rule refl)
qed

lemma unspent_recorded:
  "unspent f network nonce now \<Longrightarrow> e < later \<Longrightarrow>
     unspent (Holds (kept_nonces now f @ [\<lparr>ne_network_id = network, ne_nonce = nonce, ne_expires_at = e\<rparr>])) network nonce later"
  by (cases f) (auto simp: unspent_def kept_nonces_def)

text \<open>C32: The margin of that theorem is real, on every node and for every authorized job message. The
  signature check and the nonce check read the clock separately, and a used nonce is forgotten as soon
  as it has expired: when a message whose job was queued arrives again, its signature is checked in
  the same second as before and the nonce only after the authorization has expired, the same job is
  queued a second time.\<close>

theorem job_replay_at_expiry:
  assumes "dispatch_envelope L E C A node env peer = (r, fx, node')" "gains_job node node' j" "lj_authorization j = Some a"
    and "am_now A' = am_now A" "ca_expires_at a < am_now_nonce A'" "am_write_nonce A' = Written"
  shows "\<exists>node''. dispatch_envelope L E C A' node' env peer = (Ok None, [], node'')
    \<and> jm_queue (sn_jobs node'') = jm_queue (sn_jobs node) @ [j, j]"
proof -
  have "gains_job node (snd (snd (dispatch_envelope L E C A node env peer))) j" using assms(1, 2) by simp
  from dispatch_gains [OF this] assms(3) have starts: "starts_job L C A node env peer"
    and j: "j = local_job_of (the (dec_job C (env_data env)))" by (auto simp: local_job_of_def)
  from dispatch_starts [OF starts, of E] assms(1, 3) j
  have node': "node' = node\<lparr>sn_nonces := Holds (kept_nonces (am_now_nonce A) (sn_nonces node)
      @ [\<lparr>ne_network_id = ca_network_id a, ne_nonce = ca_nonce a, ne_expires_at = ca_expires_at a\<rparr>]), sn_jobs := enqueue j (sn_jobs node)\<rparr>"
    and auth: "job_authorization L C A node env peer = Some a"
    by (auto simp: local_job_of_def)
  from starts auth have rec: "unspent (sn_nonces node) (ca_network_id a) (ca_nonce a) (am_now_nonce A)"
      "ca_network_id a = hmc_network_id (ca_membership a)"
    unfolding starts_job_def nonce_record_ok by (auto simp only: option.case)
  have again: "starts_job L C A' node' env peer"
    unfolding starts_job_def node' job_authorization_frame job_authorization_clock [OF assms(4)] auth
    using unspent_recorded [OF rec(1) assms(5)] rec(2) assms(6) by (simp add: nonce_record_ok)
  from dispatch_starts [OF again, of E] j show ?thesis by (auto simp: node')
qed

theorem job_replay_at_expiry_witness:
  "\<exists>node' node''. snd (snd (dispatch_envelope lib0 sample_parsers sample_codec (sample_ambient 300 300) sample_node sample_envelope None)) = node'
   \<and> dispatch_envelope lib0 sample_parsers sample_codec (sample_ambient 300 301) node' sample_envelope None = (Ok None, [], node'')
   \<and> jm_queue (sn_jobs node'') = [local_job_of sample_job_data, local_job_of sample_job_data]"
proof -
  let ?d = "dispatch_envelope lib0 sample_parsers sample_codec (sample_ambient 300 300) sample_node sample_envelope None"
  obtain r fx node' where d: "?d = (r, fx, node')" by (cases ?d)
  have "starts_job lib0 sample_codec (sample_ambient 300 300) sample_node sample_envelope None"
    using sample_starts [of 300 Absent 300] by (simp add: sample_node_nonces unspent_def)
  from sample_gains [OF this] d have gains: "gains_job sample_node node' (local_job_of sample_job_data)" by simp
  have "\<exists>node''. dispatch_envelope lib0 sample_parsers sample_codec (sample_ambient 300 301) node' sample_envelope None = (Ok None, [], node'')
    \<and> jm_queue (sn_jobs node'') = jm_queue (sn_jobs sample_node) @ [local_job_of sample_job_data, local_job_of sample_job_data]"
    by (rule job_replay_at_expiry [OF d gains, where a = sample_authorization])
      (simp_all add: sample_ambient_def local_job_of_def sample_job_data_def)
  with d show ?thesis by (simp add: sample_node_def JobManager_new_def)
qed

section \<open>Sender pinning\<close>

text \<open>What is known of the Sisters after handling something that arrived from \<open>p\<close>: the row and the
  sign of life of every other Sister are as before, and the stored locator of any Sister is as before
  or is a newer one, or one as new, that this Sister itself has signed for this network and that is bound
  to the endpoint it names.\<close>

definition locator_follows :: "lib \<Rightarrow> endpoint_parsers \<Rightarrow> NetworkId \<Rightarrow> u64 \<Rightarrow> PeerRecord option \<Rightarrow> PeerRecord option \<Rightarrow> bool" where
  "locator_follows L E network i old new \<longleftrightarrow> new = old
     \<or> (case new of None \<Rightarrow> False
        | Some r \<Rightarrow> pr_sister_id r = i \<and> pr_network_id r = network \<and> PeerRecord_verify L r \<and> endpoint_matches E r
            \<and> (case old of None \<Rightarrow> True | Some c \<Rightarrow> pr_sequence c \<le> pr_sequence r))"

definition speaks_only_for :: "lib \<Rightarrow> endpoint_parsers \<Rightarrow> u64 \<Rightarrow> SisterNode \<Rightarrow> SisterNode \<Rightarrow> bool" where
  "speaks_only_for L E p node node' \<longleftrightarrow>
     (\<forall>i. i \<noteq> p \<longrightarrow>
        hm_get (pt_peers (svc_registry (sn_peers node'))) i = hm_get (pt_peers (svc_registry (sn_peers node))) i
        \<and> hm_get (pt_last_seen (svc_registry (sn_peers node'))) i = hm_get (pt_last_seen (svc_registry (sn_peers node))) i)
     \<and> (\<forall>i. locator_follows L E (sn_network_id node) i
          (hm_get (svc_records (sn_peers node)) i) (hm_get (svc_records (sn_peers node')) i))"

lemma locator_follows_refl [simp]: "locator_follows L E n i r r"
  by (simp add: locator_follows_def)

lemma locator_follows_trans: "locator_follows L E n i a b \<Longrightarrow> locator_follows L E n i b c \<Longrightarrow> locator_follows L E n i a c"
  by (auto simp: locator_follows_def split: option.splits)

lemma speaks_only_for_same: "sn_peers node' = sn_peers node \<Longrightarrow> speaks_only_for L E p node node'"
  by (simp add: speaks_only_for_def)

lemma upsert_other_row:
  "ps_id p \<noteq> i \<Longrightarrow> hm_get (pt_peers (PeerStateTable_upsert now p t)) i = hm_get (pt_peers t) i"
  "ps_id p \<noteq> i \<Longrightarrow> hm_get (pt_last_seen (PeerStateTable_upsert now p t)) i = hm_get (pt_last_seen t) i"
  by (simp add: upsert_get) (simp add: PeerStateTable_upsert_def hm_simps)

lemma service_upsert_row:
  "ps_id p \<noteq> i \<Longrightarrow> hm_get (pt_peers (svc_registry (PeerService_upsert now p svc))) i = hm_get (pt_peers (svc_registry svc)) i"
  "ps_id p \<noteq> i \<Longrightarrow> hm_get (pt_last_seen (svc_registry (PeerService_upsert now p svc))) i = hm_get (pt_last_seen (svc_registry svc)) i"
  "svc_records (PeerService_upsert now p svc) = svc_records svc"
  by (simp_all add: PeerService_upsert_def upsert_other_row)

lemma remember_row:
  "si_id identity \<noteq> i \<Longrightarrow> hm_get (pt_peers (svc_registry (remember_peer now w identity n a s c svc))) i = hm_get (pt_peers (svc_registry svc)) i"
  "si_id identity \<noteq> i \<Longrightarrow> hm_get (pt_last_seen (svc_registry (remember_peer now w identity n a s c svc))) i = hm_get (pt_last_seen (svc_registry svc)) i"
  "svc_records (remember_peer now w identity n a s c svc) = svc_records svc"
  by (simp_all add: remember_peer_def PeerService_persist_def service_upsert_row)

lemma remember_peer_record_speaks: "speaks_only_for L E p node (remember_peer_record L E A r node)"
  unfolding speaks_only_for_def
  by (auto simp: remember_peer_record_def upsert_peer_record_def Let_def hm_simps locator_follows_def split: option.splits)

lemma speaks_only_for_trans:
  assumes "speaks_only_for L E p a b" "speaks_only_for L E p b c" "sn_network_id b = sn_network_id a"
  shows "speaks_only_for L E p a c"
  using assms unfolding speaks_only_for_def by (auto intro: locator_follows_trans)

lemma fold_remember_speaks: "speaks_only_for L E p node (fold (remember_peer_record L E A) rs node)"
proof (induction rs arbitrary: node)
  case (Cons r rs)
  have "sn_network_id (remember_peer_record L E A r node) = sn_network_id node" by simp
  with speaks_only_for_trans [OF remember_peer_record_speaks Cons.IH] show ?case by simp
qed (simp add: speaks_only_for_same)

lemma handler_speaks:
  "sender_matches_peer (Some p) (env_from env) \<Longrightarrow> speaks_only_for L E p node (snd (snd (handle_hello C A node env (Some p))))"
  "speaks_only_for L E p node (snd (snd (handle_state C A node env (Some p))))"
  "speaks_only_for L E p node (snd (snd (handle_job L C A node env)))"
  "speaks_only_for L E p node (snd (snd (handle_peer_records L E C A node env)))"
proof -
  show "sender_matches_peer (Some p) (env_from env) \<Longrightarrow> speaks_only_for L E p node (snd (snd (handle_hello C A node env (Some p))))"
    by (auto simp: handle_hello_def node_remember_peer_def sender_matches_peer_def remember_row speaks_only_for_def
        split: option.splits)
  show "speaks_only_for L E p node (snd (snd (handle_state C A node env (Some p))))"
    by (auto simp: handle_state_def sender_matches_peer_def service_upsert_row peer_of_state_def speaks_only_for_def
        split: option.splits)
  show "speaks_only_for L E p node (snd (snd (handle_peer_records L E C A node env)))"
    by (auto simp: handle_peer_records_def intro: fold_remember_speaks speaks_only_for_same split: option.splits)
  have "sn_peers (snd (snd (handle_job L C A node env))) = sn_peers node"
    using authorize_job_sel(5) [of L A node]
    by (auto simp: handle_job_def split: option.splits sum.splits prod.splits) (metis snd_conv)+
  then show "speaks_only_for L E p node (snd (snd (handle_job L C A node env)))" by (rule speaks_only_for_same)
qed

lemma dispatch_speaks: "speaks_only_for L E p node (snd (snd (dispatch_envelope L E C A node env (Some p))))"
proof -
  have "sn_peers (snd (snd (handle_job_response C node env))) = sn_peers node"
    "sn_peers (snd (snd (handle_job_request C A node env))) = sn_peers node"
    by (auto simp: handle_job_response_def handle_job_request_def Let_def split: option.splits prod.splits)
  then show ?thesis
    by (auto simp: dispatch_envelope_def handler_speaks intro: speaks_only_for_same split: MessageType.splits)
qed

text \<open>C3: A Sister cannot speak for another one. On a stream authenticated as \<open>p\<close>, no message changes
  the peer-table row or the last sign of life of a Sister other than \<open>p\<close>; the stored locator of another
  Sister can change, because locators are gossiped, but only to one that this other Sister has signed
  itself, for this network, and whose sequence number is not lower; and a message whose sender field
  is not \<open>p\<close>, or which belongs to another network, is refused without any effect.\<close>

theorem sender_pinned:
  assumes "dispatch_envelope L E C A node env (Some p) = (r, fx, node')"
  shows "speaks_only_for L E p node node'
    \<and> (env_from env \<noteq> p \<or> env_network_id env \<noteq> sn_network_id node \<longrightarrow> node' = node \<and> fx = [] \<and> (\<exists>e. r = Err e))"
proof -
  have "speaks_only_for L E p node node'"
    using dispatch_speaks [of L E p node C A env] assms by simp
  moreover have "env_from env \<noteq> p \<or> env_network_id env \<noteq> sn_network_id node \<longrightarrow> node' = node \<and> fx = [] \<and> (\<exists>e. r = Err e)"
  proof (cases "env_network_id env = sn_network_id node \<and> sender_matches_peer (Some p) (env_from env)")
    case False
    with assms show ?thesis by (cases "env_network_id env = sn_network_id node") (auto simp: dispatch_envelope_def)
  qed (simp add: sender_matches_peer_def)
  ultimately show ?thesis by simp
qed

theorem sender_pinned_witness:
  "snd (snd (dispatch_envelope lib0 sample_parsers sample_codec (sample_ambient 50 50) sample_node sample_envelope (Some 3))) = sample_node"
proof -
  obtain r fx node' where d: "dispatch_envelope lib0 sample_parsers sample_codec (sample_ambient 50 50) sample_node sample_envelope (Some 3) = (r, fx, node')"
    using prod_cases3 by blast
  from sender_pinned [OF d] d show ?thesis by (simp add: sample_envelope_def Envelope_new_def)
qed

section \<open>Work stealing in production\<close>

text \<open>Everything that changes the queue of a node: messages, local submission, the executor and inline runs.\<close>

inductive node_reachable :: "lib \<Rightarrow> endpoint_parsers \<Rightarrow> codec \<Rightarrow> SisterNode \<Rightarrow> SisterNode \<Rightarrow> bool" for L E C start where
  reach_start: "node_reachable L E C start start"
| reach_message: "node_reachable L E C start node \<Longrightarrow> node_reachable L E C start (snd (snd (dispatch_envelope L E C A node env peer)))"
| reach_submit: "node_reachable L E C start node \<Longrightarrow> node_reachable L E C start (submit_local i command node)"
| reach_execute: "node_reachable L E C start node \<Longrightarrow> node_reachable L E C start (snd (executor_step C shell t t' node))"
| reach_inline: "node_reachable L E C start node \<Longrightarrow> node_reachable L E C start (snd (execute_and_record shell t t' i command node))"

definition queue_local :: "SisterNode \<Rightarrow> bool" where
  "queue_local node \<longleftrightarrow> (\<forall>j\<in>set (jm_queue (sn_jobs node)). \<forall>a. lj_authorization j = Some a \<longrightarrow>
     ca_target a = Some (Principal_Sister (sn_id node)))"

lemma dispatch_config:
  "sn_identity (snd (snd (dispatch_envelope L E C A node env peer))) = sn_identity node"
  "sn_allow_unauthenticated (snd (snd (dispatch_envelope L E C A node env peer))) = sn_allow_unauthenticated node"
  using authorize_job_sel [of L A node]
  by (cases "env_msg_type env";
      auto simp: handler_defs Let_def split: option.splits sum.splits prod.splits; metis snd_conv)+

lemma job_pop_queue: "set (jm_queue (snd (job_pop m))) \<subseteq> set (jm_queue m)"
  by (cases "jm_queue m") (auto simp: job_pop_def)

lemma executor_config:
  "sn_identity (snd (executor_step C shell t t' node)) = sn_identity node"
  "sn_allow_unauthenticated (snd (executor_step C shell t t' node)) = sn_allow_unauthenticated node"
  "set (jm_queue (sn_jobs (snd (executor_step C shell t t' node)))) \<subseteq> set (jm_queue (sn_jobs node))"
  using job_pop_queue [of "sn_jobs node"]
  by (auto simp: executor_step_def Let_def split: prod.splits option.splits)

lemma local_job_authorization [simp]: "lj_authorization (local_job_of job) = jd_authorization job"
  by (simp add: local_job_of_def)

lemma node_reachable_local:
  assumes "node_reachable L E C start node" "\<not> sn_allow_unauthenticated start" "jm_queue (sn_jobs start) = []"
  shows "sn_identity node = sn_identity start \<and> \<not> sn_allow_unauthenticated node \<and> queue_local node"
  using assms(1)
proof (induction rule: node_reachable.induct)
  case reach_start
  then show ?case using assms(2, 3) by (simp add: queue_local_def)
next
  case (reach_message node A env peer)
  let ?node' = "snd (snd (dispatch_envelope L E C A node env peer))"
  have "queue_local ?node'"
  proof (cases "env_msg_type env = Job")
    case True
    show ?thesis
    proof (cases "starts_job L C A node env peer")
      case start: True
      obtain a job where a: "dec_job C (env_data env) = Some job" "jd_authorization job = Some a"
          and ok: "is_ok (check_job_authorization L A node job (sn_id node) a)"
        by (rule starts_job_recorded [OF start])
      have "ca_target a = Some (Principal_Sister (sn_id node))" by (rule check_job_authorization_ok [OF ok])
      with a dispatch_queue_job [OF True, of L E C A node peer] reach_message.IH show ?thesis
        by (auto simp: queue_local_def dispatch_config)
    next
      case False
      with dispatch_queue_job [OF True, of L E C A node peer] reach_message.IH show ?thesis
        by (auto simp: queue_local_def dispatch_config)
    qed
  next
    case False
    with dispatch_queue_other [of env L E C A node peer] reach_message.IH show ?thesis
      by (auto simp: queue_local_def dispatch_config dest!: set_mset_mono)
  qed
  with reach_message.IH show ?case by (simp add: dispatch_config)
next
  case (reach_submit node i command)
  then show ?case by (auto simp: submit_local_def queue_local_def LocalJob_new_def)
next
  case (reach_execute node shell t t')
  with executor_config [of C shell t t' node] show ?case by (auto simp: queue_local_def)
next
  case (reach_inline node shell t t' i command)
  then show ?case by (auto simp: execute_and_record_def Let_def queue_local_def)
qed

lemma not_transferable_other:
  assumes "queue_local node" "requester \<noteq> sn_id node" "\<not> allow"
  shows "pop_transferable requester allow (sn_jobs node) = (None, sn_jobs node)"
proof -
  have "\<forall>j\<in>set (jm_queue (sn_jobs node)). \<not> job_transferable j requester allow"
    using assms by (auto simp: queue_local_def job_transferable_def split: option.splits Principal.splits)
  then have "pop_where (\<lambda>j. job_transferable j requester allow) (jm_queue (sn_jobs node)) = (None, jm_queue (sn_jobs node))"
    by (simp add: pop_where_None)
  then show ?thesis by (simp add: pop_transferable_def)
qed

text \<open>On a Sister that requires authorization, work stealing never moves a job: whatever was
  submitted or received before, a job request of another Sister leaves the queue as it is and is
  answered, if at all, with an empty acknowledgement. (Accepted jobs are bound to this Sister and
  local jobs are not authorized for anyone else.)\<close>

theorem production_never_transfers:
  assumes "node_reachable L E C start node" "\<not> sn_allow_unauthenticated start" "jm_queue (sn_jobs start) = []"
    and "env_msg_type env = JobRequest" "env_from env \<noteq> sn_id node"
    and "dispatch_envelope L E C A node env peer = (r, fx, node')"
  shows "sn_jobs node' = sn_jobs node \<and> (\<forall>to e. Fire to e \<in> set fx \<longrightarrow> env_msg_type e = Ack)"
proof -
  from node_reachable_local [OF assms(1-3)]
  have "pop_transferable (env_from env) (sn_allow_unauthenticated node) (sn_jobs node) = (None, sn_jobs node)"
    using assms(5) by (intro not_transferable_other) auto
  with assms(4, 6) show ?thesis
    by (auto simp: dispatch_envelope_def handle_job_request_def Let_def Envelope_new_def split: if_splits)
qed

theorem production_never_transfers_witness:
  "sn_jobs (snd (snd (dispatch_envelope lib0 sample_parsers sample_codec (sample_ambient 50 50)
     (submit_local ''x'' ''true'' sample_node) (Envelope_new 7 JobRequest 3 2 []) None))) = sn_jobs (submit_local ''x'' ''true'' sample_node)"
proof -
  have reach: "node_reachable lib0 sample_parsers sample_codec sample_node (submit_local ''x'' ''true'' sample_node)"
    by (intro reach_submit reach_start)
  obtain r fx node' where d: "dispatch_envelope lib0 sample_parsers sample_codec (sample_ambient 50 50)
     (submit_local ''x'' ''true'' sample_node) (Envelope_new 7 JobRequest 3 2 []) None = (r, fx, node')"
    using prod_cases3 by blast
  have "sn_jobs node' = sn_jobs (submit_local ''x'' ''true'' sample_node)"
    using production_never_transfers [OF reach _ _ _ _ d]
    by (simp add: sample_node_def JobManager_new_def Envelope_new_def submit_local_def sample_identity_def)
  with d show ?thesis by simp
qed

section \<open>A remote job, end to end\<close>

lemma build_authorization_checks:
  assumes "ed25519_correct L" "build_job_submit_authorization L now nonce a target command = Ok (Some auth)"
    and "sn_network_id b = sn_network_id a" "sn_authority b = sn_authority a" "sn_revocations b = sn_revocations a" "sn_id b = target"
    and "now \<le> am_now A" "am_now A \<le> saturating_add now 300" "hf_membership (sn_human a) = Holds membership"
    and "\<And>authority. HumanMembershipCertificate_verify L membership authority now \<Longrightarrow> HumanMembershipCertificate_verify L membership authority (am_now A)"
    and "Role_allows (hmc_role membership) JobSubmit" "full_command job = command"
  shows "check_job_authorization L A b job target auth = Ok ()" "ca_network_id auth = hmc_network_id (ca_membership auth)"
    "ca_nonce auth = nonce" "ca_network_id auth = sn_network_id a"
proof -
  from assms(2) obtain human key where files: "HumanIdentityStore_load (sn_human a) = Ok (Some human)"
      "HumanIdentityStore_load_key (sn_human a) = Ok (Some key)"
    by (auto simp: build_job_submit_authorization_def split: sum.splits option.splits)
  from assms(9) have member: "HumanIdentityStore_load_membership (sn_human a) = Ok (Some membership)"
    by (simp add: HumanIdentityStore_load_membership_def)
  from assms(2) files member obtain authority where authority: "NetworkAuthorityStore_load (sn_authority a) = Ok (Some authority)"
    and valid: "na_network_id authority = sn_network_id a" "hmc_human membership = human"
      "HumanMembershipCertificate_verify L membership authority now" "HumanKeyPair_public_key L key = hi_public_key human"
      "RevocationStore_is_revoked L authority (sn_network_id a) MembershipKind_Human (hmc_serial membership) (sn_revocations a) = Ok False"
    and auth: "auth = CommandAuthorization_issue L (sn_network_id a) human membership (hmc_role membership) JobSubmit
      (Some (Principal_Sister target)) [''command='' @ command] now (saturating_add now 300) nonce key"
    by (auto simp: build_job_submit_authorization_def split: sum.splits option.splits if_splits bool.splits)
  have "CommandAuthorization_verify L auth authority (am_now A)"
    unfolding auth by (rule issued_authorization_verifies) (use assms valid in auto)
  with authority valid assms(3-6, 12) auth
  show "check_job_authorization L A b job target auth = Ok ()"
    by (simp add: check_job_authorization_def constraint_holds_eq)
  show "ca_network_id auth = hmc_network_id (ca_membership auth)" "ca_nonce auth = nonce" "ca_network_id auth = sn_network_id a"
    using valid(1, 3) by (simp_all add: auth HumanMembershipCertificate_verify_def)
qed

text \<open>The executor takes the queued jobs in order.\<close>

lemma executor_step_frame:
  "sn_identity (snd (executor_step C shell t t' node)) = sn_identity node"
  "sn_network_id (snd (executor_step C shell t t' node)) = sn_network_id node"
  "sn_iroh (snd (executor_step C shell t t' node)) = sn_iroh node"
  "jm_queue (sn_jobs (snd (executor_step C shell t t' node))) = tl (jm_queue (sn_jobs node))"
  by (cases "jm_queue (sn_jobs node)"; simp add: executor_step_def job_pop_def Let_def)+

lemma executor_turns_frame:
  assumes "executor_turns C shell turns node = (fx, node')"
  shows "sn_identity node' = sn_identity node \<and> sn_network_id node' = sn_network_id node \<and> sn_iroh node' = sn_iroh node
    \<and> jm_queue (sn_jobs node') = drop (length turns) (jm_queue (sn_jobs node))"
  using assms
proof (induction turns arbitrary: node fx)
  case (Cons turn turns)
  obtain started finished where turn: "turn = (started, finished)" by (cases turn)
  obtain fx1 node1 where step: "executor_step C shell started finished node = (fx1, node1)" by force
  with Cons.prems turn obtain fx2 where "executor_turns C shell turns node1 = (fx2, node')" by (auto split: prod.splits)
  from Cons.IH [OF this] executor_step_frame [of C shell started finished node] step show ?case by (simp add: drop_Suc)
qed simp


definition sample_submitter :: SisterNode where
  "sample_submitter = sample_node\<lparr>sn_identity := sample_identity\<lparr>si_id := 1\<rparr>,
     sn_human := \<lparr>hf_identity = Holds sample_human, hf_key = Holds 6, hf_membership = Holds sample_human_membership\<rparr>\<rparr>"

lemma sample_membership_valid:
  "hmc_role sample_human_membership = Operator" "hmc_human sample_human_membership = sample_human"
  "hmc_expires_at sample_human_membership = None" "HumanMembershipCertificate_verify lib0 sample_human_membership sample_authority 50"
proof -
  show "hmc_role sample_human_membership = Operator" "hmc_human sample_human_membership = sample_human"
    "hmc_expires_at sample_human_membership = None"
    by (simp_all add: sample_human_membership_def HumanMembershipCertificate_issue_def Let_def)
  show "HumanMembershipCertificate_verify lib0 sample_human_membership sample_authority 50"
    unfolding sample_human_membership_def
    by (subst HumanMembershipCertificate_issue_verify) (simp_all add: sample_authority_def)
qed


section \<open>Merging the answers of gateways\<close>

interpretation gateway_merge: latest_wins "merge_gateway_records L E network" hm_get pr_sister_id pr_sequence
  "peer_record_usable L E network" "\<lambda>_. True" "(<)" for L E network
  by unfold_locales (auto simp: merge_gateway_records_def merge_gateway_candidate_def hm_simps split: option.splits)

text \<open>Discovery takes the newest usable record of a Sister from all gateways together: no malformed,
  foreign or older record can displace it, and every record merged is usable and was sent by some gateway.\<close>

theorem gateway_merge_newest:
  "(\<forall>r\<in>set rs. peer_record_usable L E network r \<longrightarrow>
      (\<exists>c\<in>set rs. hm_get (fold (merge_gateway_records L E network) rs []) (pr_sister_id r) = Some c \<and> pr_sequence r \<le> pr_sequence c))
   \<and> (\<forall>i c. hm_get (fold (merge_gateway_records L E network) rs []) i = Some c \<longrightarrow>
        c \<in> set rs \<and> peer_record_usable L E network c \<and> pr_sister_id c = i)"
  using gateway_merge.put_all_newest [OF TrueI, of _ rs L E network _ "[]"] gateway_merge.put_all_origin [OF TrueI, of L E network rs "[]"]
  by fastforce

theorem gateway_merge_newest_witness:
  "\<exists>c\<in>set [sample_record]. hm_get (fold (merge_gateway_records lib0 (sample_parsers\<lparr>ep_iroh := \<lambda>_. Some 11\<rparr>) 7) [sample_record] []) 2 = Some c"
proof -
  have "tb_iroh_endpoint_id (pr_transport_binding sample_record) = 11" by (simp add: sample_record_def PeerRecord_issue_def Let_def)
  then have "peer_record_usable lib0 (sample_parsers\<lparr>ep_iroh := \<lambda>_. Some 11\<rparr>) 7 sample_record"
    by (simp add: peer_record_usable_def sample_facts endpoint_matches_def NetworkEndpoint_from_str_def strip_prefix_def)
  then show ?thesis
    using gateway_merge_newest [of "[sample_record]" lib0 "sample_parsers\<lparr>ep_iroh := \<lambda>_. Some 11\<rparr>" 7] by (auto simp: sample_facts)
qed

end
