(* ===== verification/Misaka_Framing.thy ===== *)
theory Misaka_Framing
  imports Misaka_Prelude
begin

text \<open>
  Length-prefixed frames: four bytes of length, most significant first, then the payload. The control
  channel, the authenticated session, enrollment, the transfers and the legacy TCP transport of
  \<^verbatim>\<open>misaka-runtime/src\<close> all use them, each with its own limit. A stream is the list of bytes still to
  be read; running out of bytes is the end of the stream.
\<close>

datatype FrameError = Unexpected_eof | Frame_too_large

definition write_frame :: "nat \<Rightarrow> bytes \<Rightarrow> FrameError + bytes" where
  "write_frame limit payload =
     (if length payload > limit then Err Frame_too_large
      else Ok (word_bytes 4 (of_nat (length payload) :: u32) @ payload))"

text \<open>The transfer protocol writes without a limit of its own.\<close>

definition write_bincode_frame :: "bytes \<Rightarrow> bytes" where
  "write_bincode_frame payload = word_bytes 4 (of_nat (length payload) :: u32) @ payload"

definition read_exact :: "nat \<Rightarrow> bytes \<Rightarrow> FrameError + bytes \<times> bytes" where
  "read_exact n s = (if length s < n then Err Unexpected_eof else Ok (take n s, drop n s))"

definition read_frame :: "nat \<Rightarrow> bytes \<Rightarrow> FrameError + bytes \<times> bytes" where
  "read_frame limit s =
     (case read_exact 4 s of
        Inl e \<Rightarrow> Err e
      | Inr (len_buf, s') \<Rightarrow>
          let n = unat (bytes_word len_buf :: u32)
          in if n > limit then Err Frame_too_large else read_exact n s')"

definition MAX_FRAME_LENGTH :: nat where
  "MAX_FRAME_LENGTH = 4 * 1024 * 1024"

definition MAX_CONTROL_FRAME_LENGTH :: nat where
  "MAX_CONTROL_FRAME_LENGTH = 4 * 1024 * 1024"

definition MAX_AUTH_FRAME_LENGTH :: nat where
  "MAX_AUTH_FRAME_LENGTH = 1024 * 1024"

definition MAX_ENROLLMENT_FRAME_LENGTH :: nat where
  "MAX_ENROLLMENT_FRAME_LENGTH = 512 * 1024"

lemma read_exact_length: "read_exact n s = Ok (p, s') \<Longrightarrow> length p = n \<and> length s = n + length s' \<and> s = p @ s'"
  by (auto simp: read_exact_def split: if_splits)

lemma read_frame_shorter: "read_frame limit s = Ok (p, s') \<Longrightarrow> length s' + 4 \<le> length s \<and> length p \<le> limit"
  by (auto simp: read_frame_def Let_def split: sum.splits if_splits dest!: read_exact_length)

text \<open>Reading frames until the stream is used up.\<close>

function read_frames :: "nat \<Rightarrow> bytes \<Rightarrow> FrameError + bytes list" where
  "read_frames limit s =
     (if s = [] then Ok []
      else case read_frame limit s of
        Inl e \<Rightarrow> Err e
      | Inr (p, s') \<Rightarrow> (case read_frames limit s' of Inl e \<Rightarrow> Err e | Inr ps \<Rightarrow> Ok (p # ps)))"
  by pat_completeness auto

termination
  by (relation "measure (\<lambda>(limit, s). length s)") (auto dest!: read_frame_shorter)

declare read_frames.simps [simp del]

lemma frame_header: "length payload < 2 ^ 32 \<Longrightarrow> unat (bytes_word (word_bytes 4 (of_nat (length payload) :: u32)) :: u32) = length payload"
  by (simp add: bytes_word_full unsigned_of_nat take_bit_nat_eq_self)

lemma read_written_frame:
  assumes "write_frame limit payload = Ok frame" "limit < 2 ^ 32"
  shows "read_frame limit (frame @ rest) = Ok (payload, rest)"
proof -
  have len: "length payload \<le> limit" "frame = word_bytes 4 (of_nat (length payload) :: u32) @ payload"
    using assms(1) by (auto simp: write_frame_def split: if_splits)
  then have "length payload < 2 ^ 32" using assms(2) by simp
  from frame_header [OF this] len show ?thesis by (simp add: read_frame_def read_exact_def Let_def)
qed

text \<open>A stream of frames is read back exactly: for every limit below \<open>2^32\<close>, in particular those of the
  control channel, the session, enrollment and the TCP transport, what the writer accepted the reader
  returns, frame by frame and with nothing left over, whatever the payloads contain.\<close>

theorem frames_round_trip:
  assumes "limit < 2 ^ 32" "list_all2 (\<lambda>p f. write_frame limit p = Ok f) payloads frames"
  shows "read_frames limit (concat frames) = Ok payloads"
  using assms(2)
proof (induction rule: list_all2_induct)
  case Nil
  then show ?case by (simp add: read_frames.simps)
next
  case (Cons p ps f fs)
  from Cons.hyps(1) have "f \<noteq> []" by (auto simp: write_frame_def split: if_splits dest: arg_cong [of _ _ length])
  with read_written_frame [OF Cons.hyps(1) assms(1), of "concat fs"] Cons.IH show ?case
    by (subst read_frames.simps) simp
qed

theorem frames_round_trip_witness:
  "\<exists>f g. read_frames MAX_AUTH_FRAME_LENGTH (concat [f, g]) = Ok [[1, 2], []]"
proof -
  obtain f g where "write_frame MAX_AUTH_FRAME_LENGTH [1, 2] = Ok f" "write_frame MAX_AUTH_FRAME_LENGTH [] = Ok g"
    by (simp add: write_frame_def MAX_AUTH_FRAME_LENGTH_def)
  then have "list_all2 (\<lambda>p f. write_frame MAX_AUTH_FRAME_LENGTH p = Ok f) [[1, 2], []] [f, g]" by simp
  from frames_round_trip [OF _ this] show ?thesis by (auto simp: MAX_AUTH_FRAME_LENGTH_def)
qed

text \<open>Whatever arrives, reading ends, and no buffer larger than the limit is filled.\<close>

lemma read_frames_bounded: "read_frames limit s = Ok ps \<Longrightarrow> \<forall>p\<in>set ps. length p \<le> limit"
proof (induction limit s arbitrary: ps rule: read_frames.induct)
  case (1 limit s)
  show ?case
  proof (cases "s = []")
    case True
    with "1.prems" show ?thesis by (simp add: read_frames.simps)
  next
    case False
    with "1.prems" obtain p s' qs where step: "read_frame limit s = Ok (p, s')" "read_frames limit s' = Ok qs" "ps = p # qs"
      by (subst (asm) read_frames.simps) (auto split: sum.splits prod.splits)
    with "1.IH" [OF False step(1) refl step(2)] read_frame_shorter [OF step(1)] show ?thesis by auto
  qed
qed

end
