(* ===== verification/Misaka_Files.thy ===== *)
theory Misaka_Files
  imports Misaka_Framing
begin

text \<open>
  The file operations and stream reads the transfer code awaits one after the other
  (\<^verbatim>\<open>misaka-runtime/src/runtime.rs\<close>, \<^verbatim>\<open>content_store.rs\<close>). A world holds the files by path, the bytes
  still to be read from the stream, the bytes written to it, and what goes wrong: every operation that
  can fail takes the next entry of \<open>w_faults\<close>, and an exhausted list means that nothing fails any more.
  A process that dies in the middle is the list that fails from there on. A write that fails may leave
  any prefix of its data behind. Directories are not modelled (a path is its text, and a missing or
  unwritable directory is a fault of the operation).
\<close>

datatype io_error = NotFound | AlreadyExists | InvalidData | InvalidInput | PermissionDenied | UnexpectedEof | OtherError

datatype fault = Fine | Fails | Occupied | Cut nat

record world =
  w_files :: "string \<rightharpoonup> bytes"
  w_faults :: "fault list"
  w_in :: bytes
  w_out :: bytes

type_synonym 'a io = "world \<Rightarrow> (io_error + 'a) \<times> world"

definition io_return :: "'a \<Rightarrow> 'a io" where
  "io_return v w = (Ok v, w)"

definition io_fail :: "io_error \<Rightarrow> 'a io" where
  "io_fail e w = (Err e, w)"

definition io_bind :: "'a io \<Rightarrow> ('a \<Rightarrow> 'b io) \<Rightarrow> 'b io" where
  "io_bind m k w = (case m w of (Inl e, w') \<Rightarrow> (Err e, w') | (Inr v, w') \<Rightarrow> k v w')"

abbreviation io_then :: "'a io \<Rightarrow> 'b io \<Rightarrow> 'b io" where
  "io_then m n \<equiv> io_bind m (\<lambda>_. n)"

text \<open>\<open>let _ = operation.await;\<close>\<close>

definition io_ignore :: "'a io \<Rightarrow> unit io" where
  "io_ignore m w = (Ok (), snd (m w))"

text \<open>An outcome that is inspected instead of propagated with \<open>?\<close>.\<close>

definition io_attempt :: "'a io \<Rightarrow> (io_error + 'a) io" where
  "io_attempt m w = (case m w of (r, w') \<Rightarrow> (Ok r, w'))"

definition next_fault :: "world \<Rightarrow> fault \<times> world" where
  "next_fault w = (case w_faults w of [] \<Rightarrow> (Fine, w) | f # fs \<Rightarrow> (f, w\<lparr>w_faults := fs\<rparr>))"

text \<open>An operation that either fails without effect or happens.\<close>

definition io_op :: "'a io \<Rightarrow> 'a io" where
  "io_op m w = (case next_fault w of (Fine, w') \<Rightarrow> m w' | (_, w') \<Rightarrow> (Err OtherError, w'))"

definition set_file :: "string \<Rightarrow> bytes option \<Rightarrow> world \<Rightarrow> world" where
  "set_file p b w = w\<lparr>w_files := (w_files w)(p := b)\<rparr>"

section \<open>Operations\<close>

definition create_dir_all :: "unit io" where
  "create_dir_all = io_op (io_return ())"

definition try_exists :: "string \<Rightarrow> bool io" where
  "try_exists p = io_op (\<lambda>w. (Ok (w_files w p \<noteq> None), w))"

definition read_file :: "string \<Rightarrow> bytes io" where
  "read_file p = io_op (\<lambda>w. (case w_files w p of None \<Rightarrow> Err NotFound | Some b \<Rightarrow> Ok b, w))"

definition remove_file :: "string \<Rightarrow> unit io" where
  "remove_file p = io_op (\<lambda>w. if w_files w p = None then (Err NotFound, w) else (Ok (), set_file p None w))"

text \<open>\<open>File::create\<close>, or opening with \<open>create\<close> and \<open>truncate\<close>\<close>

definition create_file :: "string \<Rightarrow> unit io" where
  "create_file p = io_op (\<lambda>w. (Ok (), set_file p (Some []) w))"

definition set_len :: "string \<Rightarrow> nat \<Rightarrow> unit io" where
  "set_len p n = io_op (\<lambda>w. case w_files w p of None \<Rightarrow> (Err NotFound, w)
     | Some b \<Rightarrow> (Ok (), set_file p (Some (take n b @ replicate (n - length b) 0)) w))"

text \<open>Writing at an offset of an existing file: what lies beyond the end is filled with zeros.\<close>

definition splice_bytes :: "nat \<Rightarrow> bytes \<Rightarrow> bytes \<Rightarrow> bytes" where
  "splice_bytes off new old = take off old @ replicate (off - length old) 0 @ new @ drop (off + length new) old"

definition write_at :: "string \<Rightarrow> nat \<Rightarrow> bytes \<Rightarrow> unit io" where
  "write_at p off new w =
     (case next_fault w of
        (Fine, w') \<Rightarrow> (case w_files w' p of None \<Rightarrow> (Err NotFound, w') | Some old \<Rightarrow> (Ok (), set_file p (Some (splice_bytes off new old)) w'))
      | (Cut n, w') \<Rightarrow> (Err OtherError, case w_files w' p of None \<Rightarrow> w' | Some old \<Rightarrow> if n = 0 then w' else set_file p (Some (splice_bytes off (take n new) old)) w')
      | (_, w') \<Rightarrow> (Err OtherError, w'))"

definition append_file :: "string \<Rightarrow> bytes \<Rightarrow> unit io" where
  "append_file p new w = (case w_files w p of None \<Rightarrow> write_at p 0 new w | Some old \<Rightarrow> write_at p (length old) new w)"

text \<open>\<open>tokio::fs::write\<close>: open with truncation, then write\<close>

definition write_file :: "string \<Rightarrow> bytes \<Rightarrow> unit io" where
  "write_file p new w =
     (case next_fault w of
        (Fine, w') \<Rightarrow> (Ok (), set_file p (Some new) w')
      | (Cut n, w') \<Rightarrow> (Err OtherError, set_file p (Some (take n new)) w')
      | (_, w') \<Rightarrow> (Err OtherError, w'))"

text \<open>\<open>rename\<close> replaces an existing target; the platforms that refuse to are the fault \<open>Occupied\<close>.\<close>

definition rename :: "string \<Rightarrow> string \<Rightarrow> unit io" where
  "rename p q w =
     (case next_fault w of
        (Fine, w') \<Rightarrow> (case w_files w' p of None \<Rightarrow> (Err NotFound, w')
           | Some b \<Rightarrow> (Ok (), set_file q (Some b) (set_file p None w')))
      | (Occupied, w') \<Rightarrow> (Err AlreadyExists, w')
      | (_, w') \<Rightarrow> (Err OtherError, w'))"

definition io_read_exact :: "nat \<Rightarrow> bytes io" where
  "io_read_exact n w =
     (case read_exact n (w_in w) of Inl _ \<Rightarrow> (Err UnexpectedEof, w) | Inr (b, s) \<Rightarrow> (Ok b, w\<lparr>w_in := s\<rparr>))"

definition io_write_all :: "bytes \<Rightarrow> unit io" where
  "io_write_all b = io_op (\<lambda>w. (Ok (), w\<lparr>w_out := w_out w @ b\<rparr>))"

named_theorems io_ok

lemma io_bind_ok [io_ok]: "io_bind m k w = (Ok v, w') \<longleftrightarrow> (\<exists>u w1. m w = (Ok u, w1) \<and> k u w1 = (Ok v, w'))"
  by (auto simp: io_bind_def split: prod.splits sum.splits)

lemma io_return_ok [io_ok]: "io_return u w = (Ok v, w') \<longleftrightarrow> v = u \<and> w' = w"
  by (auto simp: io_return_def)

lemma io_fail_ok [io_ok]: "io_fail e w = (Ok v, w') \<longleftrightarrow> False"
  by (simp add: io_fail_def)

section \<open>What holds whatever goes wrong\<close>

text \<open>
  \<open>wp m Q E f\<close>: started on the files \<open>f\<close>, with any faults, any input and any output so far, \<open>m\<close> ends
  with files that satisfy \<open>Q\<close> and its result, or, if it fails, \<open>E\<close>. The rules below compute a
  condition on \<open>f\<close> that suffices, operation by operation.
\<close>

definition wp :: "'a io \<Rightarrow> ('a \<Rightarrow> (string \<rightharpoonup> bytes) \<Rightarrow> bool) \<Rightarrow> ((string \<rightharpoonup> bytes) \<Rightarrow> bool) \<Rightarrow> (string \<rightharpoonup> bytes) \<Rightarrow> bool" where
  "wp m Q E f \<longleftrightarrow> (\<forall>w. w_files w = f \<longrightarrow> (case m w of (Inl _, w') \<Rightarrow> E (w_files w') | (Inr v, w') \<Rightarrow> Q v (w_files w')))"

lemma wp_okD: "wp m Q E (w_files w) \<Longrightarrow> m w = (Ok v, w') \<Longrightarrow> Q v (w_files w')"
  by (auto simp: wp_def split: prod.splits sum.splits)

lemma wp_files: "wp m (\<lambda>_. P) P (w_files w) \<Longrightarrow> P (w_files (snd (m w)))"
  by (cases "m w") (auto simp: wp_def split: prod.splits sum.splits)

lemma wp_mono: "wp m Q E f \<Longrightarrow> (\<And>v f. Q v f \<Longrightarrow> Q' v f) \<Longrightarrow> (\<And>f. E f \<Longrightarrow> E' f) \<Longrightarrow> wp m Q' E' f"
  unfolding wp_def by (fastforce split: prod.splits sum.splits)

lemma next_fault_files [simp]: "next_fault w = (x, w') \<Longrightarrow> w_files w' = w_files w"
  by (auto simp: next_fault_def split: list.splits)

lemma set_file_files [simp]: "w_files (set_file p b w) = (w_files w)(p := b)"
  by (simp add: set_file_def)

named_theorems wp_rules

lemma wp_return [wp_rules]: "Q v f \<Longrightarrow> wp (io_return v) Q E f"
  by (simp add: wp_def io_return_def)

lemma wp_fail [wp_rules]: "E f \<Longrightarrow> wp (io_fail e) Q E f"
  by (simp add: wp_def io_fail_def)

lemma wp_bind [wp_rules]: "wp m (\<lambda>v. wp (k v) Q E) E f \<Longrightarrow> wp (io_bind m k) Q E f"
  unfolding wp_def io_bind_def by (fastforce split: prod.splits sum.splits)

lemma wp_ignore [wp_rules]: "wp m (\<lambda>_. Q ()) (Q ()) f \<Longrightarrow> wp (io_ignore m) Q E f"
  unfolding wp_def io_ignore_def by (fastforce split: prod.splits sum.splits)

lemma wp_attempt [wp_rules]: "wp m (\<lambda>v. Q (Ok v)) (\<lambda>f. \<forall>e. Q (Err e) f) f \<Longrightarrow> wp (io_attempt m) Q E f"
  unfolding wp_def io_attempt_def by (fastforce split: prod.splits sum.splits)

lemma wp_op: "E f \<Longrightarrow> wp m Q E f \<Longrightarrow> wp (io_op m) Q E f"
  unfolding wp_def io_op_def by (simp split: prod.splits fault.splits) (metis next_fault_files)

lemma wp_create_dir_all [wp_rules]: "E f \<Longrightarrow> Q () f \<Longrightarrow> wp create_dir_all Q E f"
  unfolding create_dir_all_def by (rule wp_op) (auto intro: wp_return)

lemma wp_try_exists [wp_rules]: "E f \<Longrightarrow> Q (f p \<noteq> None) f \<Longrightarrow> wp (try_exists p) Q E f"
  unfolding try_exists_def by (rule wp_op) (auto simp: wp_def)

lemma wp_read_file [wp_rules]: "E f \<Longrightarrow> (\<And>b. f p = Some b \<Longrightarrow> Q b f) \<Longrightarrow> wp (read_file p) Q E f"
  unfolding read_file_def by (rule wp_op) (auto simp: wp_def split: option.splits)

lemma wp_remove_file [wp_rules]: "E f \<Longrightarrow> (f p \<noteq> None \<Longrightarrow> Q () (f(p := None))) \<Longrightarrow> wp (remove_file p) Q E f"
  unfolding remove_file_def by (rule wp_op) (auto simp: wp_def split: if_splits)

lemma wp_create_file [wp_rules]: "E f \<Longrightarrow> Q () (f(p \<mapsto> [])) \<Longrightarrow> wp (create_file p) Q E f"
  unfolding create_file_def by (rule wp_op) (auto simp: wp_def)

lemma wp_set_len [wp_rules]:
  "E f \<Longrightarrow> (\<And>b. f p = Some b \<Longrightarrow> Q () (f(p \<mapsto> take n b @ replicate (n - length b) 0))) \<Longrightarrow> wp (set_len p n) Q E f"
  unfolding set_len_def by (rule wp_op) (auto simp: wp_def split: option.splits)

lemma wp_write_at [wp_rules]:
  "E f \<Longrightarrow> (\<And>old n. f p = Some old \<Longrightarrow> E (f(p \<mapsto> splice_bytes off (take n new) old)))
     \<Longrightarrow> (\<And>old. f p = Some old \<Longrightarrow> Q () (f(p \<mapsto> splice_bytes off new old))) \<Longrightarrow> wp (write_at p off new) Q E f"
  unfolding wp_def write_at_def by (auto split: prod.splits fault.splits option.splits)

lemma wp_append_file [wp_rules]:
  "E f \<Longrightarrow> (\<And>old n. f p = Some old \<Longrightarrow> E (f(p \<mapsto> old @ take n new)))
     \<Longrightarrow> (\<And>old. f p = Some old \<Longrightarrow> Q () (f(p \<mapsto> old @ new))) \<Longrightarrow> wp (append_file p new) Q E f"
  unfolding wp_def append_file_def write_at_def splice_bytes_def by (auto split: prod.splits fault.splits option.splits)

lemma wp_write_file [wp_rules]:
  "E f \<Longrightarrow> (\<And>n. E (f(p \<mapsto> take n new))) \<Longrightarrow> Q () (f(p \<mapsto> new)) \<Longrightarrow> wp (write_file p new) Q E f"
  unfolding wp_def write_file_def by (auto split: prod.splits fault.splits)

lemma wp_rename [wp_rules]:
  "E f \<Longrightarrow> (\<And>b. f p = Some b \<Longrightarrow> Q () (f(p := None, q \<mapsto> b))) \<Longrightarrow> wp (rename p q) Q E f"
  unfolding wp_def rename_def by (auto split: prod.splits fault.splits option.splits)

lemma wp_read_exact [wp_rules]: "E f \<Longrightarrow> (\<And>b. length b = n \<Longrightarrow> Q b f) \<Longrightarrow> wp (io_read_exact n) Q E f"
  unfolding wp_def io_read_exact_def by (auto split: prod.splits sum.splits dest: read_exact_length)

lemma wp_write_all [wp_rules]: "E f \<Longrightarrow> Q () f \<Longrightarrow> wp (io_write_all b) Q E f"
  unfolding io_write_all_def by (rule wp_op) (auto simp: wp_def)

lemma wp_if [wp_rules]: "(b \<Longrightarrow> wp m Q E f) \<Longrightarrow> (\<not> b \<Longrightarrow> wp n Q E f) \<Longrightarrow> wp (if b then m else n) Q E f"
  by simp

lemma wp_option [wp_rules]:
  "(x = None \<Longrightarrow> wp m Q E f) \<Longrightarrow> (\<And>v. x = Some v \<Longrightarrow> wp (n v) Q E f) \<Longrightarrow> wp (case x of None \<Rightarrow> m | Some v \<Rightarrow> n v) Q E f"
  by (cases x) simp_all

lemma wp_sum [wp_rules]:
  "(\<And>e. x = Inl e \<Longrightarrow> wp (m e) Q E f) \<Longrightarrow> (\<And>v. x = Inr v \<Longrightarrow> wp (n v) Q E f) \<Longrightarrow> wp (case x of Inl e \<Rightarrow> m e | Inr v \<Rightarrow> n v) Q E f"
  by (cases x) simp_all

section \<open>The input\<close>

text \<open>File operations and writes to the stream leave the input alone; a read takes what it returns.\<close>

lemma next_fault_in: "w_in (snd (next_fault w)) = w_in w"
  by (simp add: next_fault_def split: list.splits)

lemma io_op_in: "(\<And>w. w_in (snd (m w)) = w_in w) \<Longrightarrow> w_in (snd (io_op m w)) = w_in w"
  using next_fault_in [of w] by (cases "next_fault w"; cases "fst (next_fault w)") (simp_all add: io_op_def)

lemma set_file_in [simp]: "w_in (set_file p b w) = w_in w"
  by (simp add: set_file_def)

lemma write_at_in: "w_in (snd (write_at p off new w)) = w_in w"
  using next_fault_in [of w] by (cases "next_fault w"; cases "fst (next_fault w)") (auto simp: write_at_def split: option.splits)

lemma append_file_in: "w_in (snd (append_file p new w)) = w_in w"
  by (simp add: append_file_def write_at_in split: option.splits)

lemma write_file_in: "w_in (snd (write_file p new w)) = w_in w"
  using next_fault_in [of w] by (cases "next_fault w"; cases "fst (next_fault w)") (simp_all add: write_file_def)

lemma io_write_all_in: "w_in (snd (io_write_all new w)) = w_in w"
  unfolding io_write_all_def by (rule io_op_in) simp

lemma io_read_exact_in: "io_read_exact n w = (Ok b, w') \<Longrightarrow> length (w_in w) = n + length (w_in w')"
  by (auto simp: io_read_exact_def split: sum.splits dest: read_exact_length)

definition reads_on :: "'a io \<Rightarrow> bool" where
  "reads_on m \<longleftrightarrow> (\<forall>w v w'. m w = (Ok v, w') \<longrightarrow> length (w_in w') \<le> length (w_in w))"

named_theorems reads_on_rules

lemma reads_onI: "(\<And>w. w_in (snd (m w)) = w_in w) \<Longrightarrow> reads_on m"
  unfolding reads_on_def by (metis order_refl snd_conv)

lemma reads_on_bind [reads_on_rules]: "reads_on m \<Longrightarrow> (\<And>v. reads_on (k v)) \<Longrightarrow> reads_on (io_bind m k)"
  unfolding reads_on_def io_bind_ok by (meson order_trans)

lemma reads_on_basic [reads_on_rules]: "reads_on (io_return v)" "reads_on (io_fail e)" "reads_on (io_read_exact n)"
  by (auto simp: reads_on_def io_ok dest: io_read_exact_in)

lemma reads_on_files [reads_on_rules]:
  "reads_on (append_file p new)" "reads_on (write_file p new)" "reads_on (io_write_all new)"
  by (intro reads_onI append_file_in write_file_in io_write_all_in)+

lemma reads_on_if [reads_on_rules]: "reads_on m \<Longrightarrow> reads_on n \<Longrightarrow> reads_on (if b then m else n)"
  by simp

section \<open>When nothing goes wrong\<close>

named_theorems calm

lemma next_fault_calm [calm]: "w_faults w = [] \<Longrightarrow> next_fault w = (Fine, w)"
  by (simp add: next_fault_def)

lemma io_op_calm [calm]: "w_faults w = [] \<Longrightarrow> io_op m w = m w"
  by (simp add: io_op_def calm)

lemma set_file_sel [simp]:
  "w_faults (set_file p b w) = w_faults w" "w_out (set_file p b w) = w_out w"
  by (simp_all add: set_file_def)

lemma io_basic [calm]:
  "io_return v w = (Ok v, w)" "io_fail e w = (Err e, w)"
  "io_bind m k w = (case m w of (Inl e, w') \<Rightarrow> (Err e, w') | (Inr v, w') \<Rightarrow> k v w')"
  "io_ignore m w = (Ok (), snd (m w))" "io_attempt m' w = (case m' w of (r, w') \<Rightarrow> (Ok r, w'))"
  by (simp_all add: io_return_def io_fail_def io_bind_def io_ignore_def io_attempt_def)

lemma files_calm [calm]:
  assumes "w_faults w = []"
  shows "create_dir_all w = (Ok (), w)" "try_exists p w = (Ok (w_files w p \<noteq> None), w)"
    "read_file p w = (case w_files w p of None \<Rightarrow> Err NotFound | Some b \<Rightarrow> Ok b, w)"
    "remove_file p w = (if w_files w p = None then (Err NotFound, w) else (Ok (), set_file p None w))"
    "create_file p w = (Ok (), set_file p (Some []) w)"
    "set_len p n w = (case w_files w p of None \<Rightarrow> (Err NotFound, w)
       | Some b \<Rightarrow> (Ok (), set_file p (Some (take n b @ replicate (n - length b) 0)) w))"
    "write_at p off new w = (case w_files w p of None \<Rightarrow> (Err NotFound, w) | Some old \<Rightarrow> (Ok (), set_file p (Some (splice_bytes off new old)) w))"
    "write_file p new w = (Ok (), set_file p (Some new) w)"
    "rename p q w = (case w_files w p of None \<Rightarrow> (Err NotFound, w) | Some b \<Rightarrow> (Ok (), set_file q (Some b) (set_file p None w)))"
    "io_write_all new w = (Ok (), w\<lparr>w_out := w_out w @ new\<rparr>)"
  using assms by (auto simp: create_dir_all_def try_exists_def read_file_def remove_file_def create_file_def set_len_def
      write_at_def write_file_def rename_def io_write_all_def calm split: option.splits)

lemma append_file_calm [calm]:
  "w_faults w = [] \<Longrightarrow> append_file p new w
     = (case w_files w p of None \<Rightarrow> (Err NotFound, w) | Some old \<Rightarrow> (Ok (), set_file p (Some (old @ new)) w))"
  by (simp add: append_file_def calm splice_bytes_def split: option.splits)

lemma wp_conj: "wp m Q E f \<Longrightarrow> wp m Q' E' f \<Longrightarrow> wp m (\<lambda>v f. Q v f \<and> Q' v f) (\<lambda>f. E f \<and> E' f) f"
  unfolding wp_def by (fastforce split: prod.splits sum.splits)

end
