(* ===== verification/Misaka_Content.thy ===== *)
theory Misaka_Content
  imports Misaka_Files Misaka_Identity
begin

text \<open>
  \<^verbatim>\<open>misaka-runtime/src/content_store.rs\<close>: the content-addressed store of verified payloads. An object is
  a file named by the hexadecimal SHA-256 of its content below the root. The random part of a
  temporary name is an argument. Hashing and copying a file block by block are hashing and copying
  its content; a copy that fails may leave a part of its target behind.
\<close>

definition path_join :: "string \<Rightarrow> string \<Rightarrow> string" where
  "path_join root name = (if root = [] then name else if last root = CHR ''/'' then root @ name else root @ ''/'' @ name)"

definition hex_digest :: "arr32 \<Rightarrow> string" where
  "hex_digest digest = write_hex (word_bytes 32 digest)"

definition object_path :: "string \<Rightarrow> arr32 \<Rightarrow> string" where
  "object_path root digest = path_join root (hex_digest digest)"

definition hash_file :: "lib \<Rightarrow> string \<Rightarrow> arr32 io" where
  "hash_file L path = io_bind (read_file path) (\<lambda>b. io_return (sha256 L b))"

definition copy_file :: "string \<Rightarrow> string \<Rightarrow> nat io" where
  "copy_file source destination =
     io_bind (read_file source) (\<lambda>b.
     io_then (create_file destination)
     (io_then (write_at destination 0 b) (io_return (length b))))"

definition ContentStore_contains :: "lib \<Rightarrow> string \<Rightarrow> arr32 \<Rightarrow> bool io" where
  "ContentStore_contains L root digest =
     io_bind (try_exists (object_path root digest)) (\<lambda>exists.
       if \<not> exists then io_return False
       else io_bind (hash_file L (object_path root digest)) (\<lambda>h. io_return (h = digest)))"

definition commit_temp :: "string \<Rightarrow> arr32 \<Rightarrow> string \<Rightarrow> string" where
  "commit_temp root digest tag = path_join root (''.'' @ hex_digest digest @ ''.tmp-'' @ tag)"

definition commit_place :: "lib \<Rightarrow> string \<Rightarrow> string \<Rightarrow> string \<Rightarrow> arr32 \<Rightarrow> string io" where
  "commit_place L root tag partial digest =
     (let object = object_path root digest; temp = commit_temp root digest tag
      in io_then (copy_file partial temp)
         (io_bind (io_attempt (rename temp object)) (\<lambda>renamed.
            case renamed of
              Inr _ \<Rightarrow> io_then (remove_file partial) (io_return object)
            | Inl error \<Rightarrow>
                if error = AlreadyExists
                then io_bind (hash_file L object) (\<lambda>h.
                     io_then (io_ignore (remove_file temp))
                     (if h = digest then io_then (remove_file partial) (io_return object)
                      else io_then (remove_file object) (io_fail error)))
                else io_then (io_ignore (remove_file temp)) (io_fail error))))"

definition commit_verified_file :: "lib \<Rightarrow> string \<Rightarrow> string \<Rightarrow> string \<Rightarrow> arr32 \<Rightarrow> string io" where
  "commit_verified_file L root tag partial digest =
     io_bind (hash_file L partial) (\<lambda>h.
       if h \<noteq> digest then io_fail InvalidData
       else io_then create_dir_all
         (io_bind (try_exists (object_path root digest)) (\<lambda>exists.
            if exists
            then io_bind (hash_file L (object_path root digest)) (\<lambda>h'.
                 if h' = digest then io_then (remove_file partial) (io_return (object_path root digest))
                 else io_then (remove_file (object_path root digest)) (commit_place L root tag partial digest))
            else commit_place L root tag partial digest)))"

definition materialize_temp :: "string \<Rightarrow> string \<Rightarrow> string" where
  "materialize_temp destination tag = destination @ ''.misaka-materialize-'' @ tag"

definition materialize :: "lib \<Rightarrow> string \<Rightarrow> string \<Rightarrow> arr32 \<Rightarrow> string \<Rightarrow> nat io" where
  "materialize L root tag digest destination =
     io_bind (hash_file L (object_path root digest)) (\<lambda>h.
       if h \<noteq> digest then io_fail InvalidData
       else io_then create_dir_all
         (io_bind (copy_file (object_path root digest) (materialize_temp destination tag)) (\<lambda>bytes.
          io_bind (io_attempt (rename (materialize_temp destination tag) destination)) (\<lambda>renamed.
            case renamed of
              Inr _ \<Rightarrow> io_return bytes
            | Inl error \<Rightarrow>
                if error = AlreadyExists
                then io_then (remove_file destination)
                     (io_then (rename (materialize_temp destination tag) destination) (io_return bytes))
                else io_then (io_ignore (remove_file (materialize_temp destination tag))) (io_fail error)))))"

section \<open>Paths\<close>

lemma path_join_eq [simp]: "path_join root a = path_join root b \<longleftrightarrow> a = b"
  by (simp add: path_join_def)

lemma hex_digest_chars: "length (hex_digest d) = 64 \<and> list_all (\<lambda>c. c \<in> set ''0123456789abcdef'') (hex_digest d)"
proof -
  have "hex_digit n \<in> set ''0123456789abcdef''" if "n < 16" for n
    unfolding hex_digit_def using that by (intro nth_mem) simp
  moreover have "length (write_hex bs) = 2 * length bs" for bs by (induction bs) (simp_all add: write_hex_def)
  moreover have "unat (b :: u8) div 16 < 16" for b using unat_lt_exp [of b] by (simp add: less_mult_imp_div_less)
  ultimately show ?thesis
    by (auto simp: hex_digest_def write_hex_def list_all_iff)
qed

lemma commit_temp_neq [simp]: "commit_temp root d tag \<noteq> object_path root d" "object_path root d \<noteq> commit_temp root d tag"
  by (auto simp: commit_temp_def object_path_def dest: arg_cong [of _ _ length])

lemma materialize_temp_neq [simp]: "materialize_temp destination tag \<noteq> destination" "destination \<noteq> materialize_temp destination tag"
  by (simp_all add: materialize_temp_def)

section \<open>Safety under every fault\<close>

lemma wp_hash_file [wp_rules]:
  "E f \<Longrightarrow> (\<And>b. f p = Some b \<Longrightarrow> Q (sha256 L b) f) \<Longrightarrow> wp (hash_file L p) Q E f"
  unfolding hash_file_def by (intro wp_rules)

lemma wp_copy_file [wp_rules]:
  assumes "E f" "\<And>b n. f source = Some b \<Longrightarrow> E (f(destination \<mapsto> take n b))"
    and "\<And>b. f source = Some b \<Longrightarrow> Q (length b) (f(destination \<mapsto> b))"
  shows "wp (copy_file source destination) Q E f"
proof -
  have "f source = Some b \<Longrightarrow> E (f(destination \<mapsto> []))" for b using assms(2) [of b 0] by simp
  with assms show ?thesis
    unfolding copy_file_def by (intro wp_rules) (auto simp: splice_bytes_def)
qed

definition verified_at :: "lib \<Rightarrow> (string \<rightharpoonup> bytes) \<Rightarrow> string \<Rightarrow> arr32 \<Rightarrow> bool" where
  "verified_at L f p digest \<longleftrightarrow> (\<exists>b. f p = Some b \<and> sha256 L b = digest)"

text \<open>The partial file is given up only for a verified object.\<close>

definition committed_or_kept :: "lib \<Rightarrow> string \<Rightarrow> arr32 \<Rightarrow> string \<Rightarrow> bytes \<Rightarrow> (string \<rightharpoonup> bytes) \<Rightarrow> bool" where
  "committed_or_kept L object digest partial b f \<longleftrightarrow>
     f partial = Some b \<or> f partial = None \<and> verified_at L f object digest"

lemma wp_commit_place:
  assumes "partial \<noteq> object_path root digest" "partial \<noteq> commit_temp root digest tag" "f partial = Some b" "sha256 L b = digest"
  shows "wp (commit_place L root tag partial digest)
    (\<lambda>p f. p = object_path root digest \<and> verified_at L f p digest \<and> f partial = None)
    (committed_or_kept L (object_path root digest) digest partial b) f"
  unfolding commit_place_def Let_def
  by (intro wp_rules allI; insert assms; simp add: committed_or_kept_def verified_at_def)

lemma wp_commit:
  assumes "partial \<noteq> object_path root digest" "partial \<noteq> commit_temp root digest tag" "f partial = Some b"
  shows "wp (commit_verified_file L root tag partial digest)
    (\<lambda>p f. p = object_path root digest \<and> verified_at L f p digest \<and> f partial = None)
    (committed_or_kept L (object_path root digest) digest partial b) f"
  unfolding commit_verified_file_def
  by (intro wp_rules wp_commit_place [of partial root digest tag _ b]; insert assms; simp add: committed_or_kept_def verified_at_def)

text \<open>A destination is replaced as a whole or not at all, except where the old file must be deleted first.\<close>

lemma wp_materialize:
  "wp (materialize L root tag digest destination) (\<lambda>n f'. verified_at L f' destination digest)
     (\<lambda>f'. f' destination = f destination \<or> f' destination = None) f"
  unfolding materialize_def
  by (intro wp_rules allI; simp add: verified_at_def)

section \<open>Names of objects\<close>

text \<open>An object's name ends in 64 hexadecimal digits; a generated tag is the text of a UUID.\<close>

lemma object_path_tail: "i < 64 \<Longrightarrow> rev (object_path root d) ! i \<in> set ''0123456789abcdef''"
proof -
  assume i: "i < 64"
  have hex: "length (rev (hex_digest d)) = 64" "set (hex_digest d) \<subseteq> set ''0123456789abcdef''"
    using hex_digest_chars [of d] unfolding list_all_iff by (simp, blast)
  have "rev (object_path root d) ! i = rev (hex_digest d) ! i"
    using i hex(1) by (simp add: object_path_def path_join_def nth_append)
  moreover have "rev (hex_digest d) ! i \<in> set (hex_digest d)" using nth_mem [of i "rev (hex_digest d)"] i hex(1) by (simp only: set_rev)
  ultimately show ?thesis using hex(2) by (simp only: subset_iff)
qed

lemma object_path_neqI: "i < 64 \<Longrightarrow> rev p ! i \<notin> set ''0123456789abcdef'' \<Longrightarrow> object_path root d \<noteq> p \<and> p \<noteq> object_path root d"
  using object_path_tail by blast

definition uuid_tag :: "string \<Rightarrow> bool" where
  "uuid_tag tag \<longleftrightarrow> length tag = 36 \<and> CHR ''.'' \<notin> set tag"

lemma materialize_temp_object:
  assumes "uuid_tag tag"
  shows "object_path root d \<noteq> materialize_temp destination tag \<and> materialize_temp destination tag \<noteq> object_path root d"
  using assms by (intro object_path_neqI [of 36]) (simp_all add: materialize_temp_def uuid_tag_def nth_append)

section \<open>What the store leaves alone\<close>

lemma wp_commit_frame:
  assumes "q \<noteq> partial" "q \<noteq> object_path root digest" "q \<noteq> commit_temp root digest tag"
  shows "wp (commit_verified_file L root tag partial digest) (\<lambda>_ f'. f' q = f q) (\<lambda>f'. f' q = f q) f"
  unfolding commit_verified_file_def commit_place_def Let_def
  by (intro wp_rules allI; insert assms; simp)

lemma wp_materialize_object:
  assumes "destination \<noteq> object_path root digest" "uuid_tag tag" "verified_at L f (object_path root digest) digest"
  shows "wp (materialize L root tag digest destination) (\<lambda>_ f'. verified_at L f' (object_path root digest) digest)
    (\<lambda>f'. verified_at L f' (object_path root digest) digest) f"
  unfolding materialize_def
  by (intro wp_rules allI; insert assms materialize_temp_object [OF assms(2), of root digest destination]; simp add: verified_at_def)

lemma wp_commit_object:
  assumes "partial \<noteq> object_path root digest" "verified_at L f (object_path root digest) digest"
  shows "wp (commit_verified_file L root tag partial digest) (\<lambda>_ f'. verified_at L f' (object_path root digest) digest)
    (\<lambda>f'. verified_at L f' (object_path root digest) digest) f"
  unfolding commit_verified_file_def
  by (intro wp_bind wp_hash_file wp_if wp_fail wp_create_dir_all wp_try_exists wp_remove_file wp_return; insert assms; auto simp: verified_at_def)

end
