(* ===== verification/Misaka_Transfer.thy ===== *)
theory Misaka_Transfer
  imports Misaka_Node Misaka_Content
begin

text \<open>
  The stream services of \<^verbatim>\<open>misaka-runtime/src/runtime.rs\<close> and their messages in
  \<^verbatim>\<open>misaka-core/src/protocol.rs\<close>: the authorization of a stream operation, the v0 transfer, which writes
  its destination directly, and the resumable v1 transfer, which appends chunks to a part file and
  keeps its progress in a JSON file beside it. \<open>bincode\<close> and \<open>serde_json\<close> are the functions of a codec.
\<close>

record TransferRequest =
  tr_destination :: string
  tr_size :: u64
  tr_digest :: bytes
  tr_authorization :: "CommandAuthorization option"

record TransferResult =
  ts_success :: bool
  ts_bytes_written :: u64
  ts_digest :: bytes
  ts_error :: "string option"

record TransferV1Request =
  t1_destination :: string
  t1_size :: u64
  t1_digest :: arr32
  t1_chunk_size :: u32
  t1_authorization :: "CommandAuthorization option"

record TransferV1Resume =
  r1_offset :: u64
  r1_complete :: bool
  r1_error :: "string option"

record TransferV1Chunk =
  c1_index :: u64
  c1_offset :: u64
  c1_len :: u32
  c1_digest :: bytes

record TransferV1Ack =
  a1_next_offset :: u64
  a1_complete :: bool
  a1_error :: "string option"

datatype TransferV2Operation = Prepare | Chunk | Finalize

record TransferV2Request =
  t2_operation :: TransferV2Operation
  t2_destination :: string
  t2_size :: u64
  t2_digest :: arr32
  t2_chunk_size :: u32
  t2_chunk_count :: u64
  t2_index :: u64
  t2_offset :: u64
  t2_len :: u32
  t2_chunk_digest :: bytes
  t2_authorization :: "CommandAuthorization option"

record TransferV2Resume =
  r2_completed_indices :: "u64 list"
  r2_complete :: bool
  r2_error :: "string option"

record TransferV2Ack =
  a2_index :: u64
  a2_accepted :: bool
  a2_complete :: bool
  a2_error :: "string option"

record TunnelRequest =
  tu_remote :: string
  tu_authorization :: "CommandAuthorization option"

record TransferV1State =
  s1_size :: u64
  s1_digest :: arr32
  s1_chunk_size :: u32
  s1_offset :: u64

record TransferV2State =
  s2_size :: u64
  s2_digest :: arr32
  s2_chunk_size :: u32
  s2_chunk_count :: u64
  s2_completed :: bytes

text \<open>Both directions of every message and of the two state files\<close>

record transfer_codec =
  tc_enc0 :: "TransferRequest \<Rightarrow> bytes"
  tc_dec0 :: "bytes \<Rightarrow> TransferRequest option"
  tc_enc_result :: "TransferResult \<Rightarrow> bytes"
  tc_dec_result :: "bytes \<Rightarrow> TransferResult option"
  tc_enc1 :: "TransferV1Request \<Rightarrow> bytes"
  tc_dec1 :: "bytes \<Rightarrow> TransferV1Request option"
  tc_enc_resume1 :: "TransferV1Resume \<Rightarrow> bytes"
  tc_dec_resume1 :: "bytes \<Rightarrow> TransferV1Resume option"
  tc_enc_chunk1 :: "TransferV1Chunk \<Rightarrow> bytes"
  tc_dec_chunk1 :: "bytes \<Rightarrow> TransferV1Chunk option"
  tc_enc_ack1 :: "TransferV1Ack \<Rightarrow> bytes"
  tc_dec_ack1 :: "bytes \<Rightarrow> TransferV1Ack option"
  tc_enc2 :: "TransferV2Request \<Rightarrow> bytes"
  tc_dec2 :: "bytes \<Rightarrow> TransferV2Request option"
  tc_enc_resume2 :: "TransferV2Resume \<Rightarrow> bytes"
  tc_dec_resume2 :: "bytes \<Rightarrow> TransferV2Resume option"
  tc_enc_ack2 :: "TransferV2Ack \<Rightarrow> bytes"
  tc_dec_ack2 :: "bytes \<Rightarrow> TransferV2Ack option"
  tc_enc_tunnel :: "TunnelRequest \<Rightarrow> bytes"
  tc_dec_tunnel :: "bytes \<Rightarrow> TunnelRequest option"
  tc_enc_state1 :: "TransferV1State \<Rightarrow> bytes"
  tc_dec_state1 :: "bytes \<Rightarrow> TransferV1State option"
  tc_enc_state2 :: "TransferV2State \<Rightarrow> bytes"
  tc_dec_state2 :: "bytes \<Rightarrow> TransferV2State option"

definition TRANSFER_MAGIC :: bytes where
  "TRANSFER_MAGIC = str_bytes ''MTR0''"

definition TRANSFER_V1_MAGIC :: bytes where
  "TRANSFER_V1_MAGIC = str_bytes ''MTR1''"

definition TRANSFER_V2_MAGIC :: bytes where
  "TRANSFER_V2_MAGIC = str_bytes ''MTR2''"

definition TUNNEL_MAGIC :: bytes where
  "TUNNEL_MAGIC = str_bytes ''MTN0''"

section \<open>Authorization of a stream operation\<close>

definition authorization_bound_to_local :: "CommandAuthorization \<Rightarrow> u64 \<Rightarrow> bool" where
  "authorization_bound_to_local authorization local_id \<longleftrightarrow> ca_target authorization = Some (Principal_Sister local_id)"

definition require_stream_authorization :: "CommandAuthorization option \<Rightarrow> bool \<Rightarrow> io_error + unit" where
  "require_stream_authorization authorization allow =
     (if authorization = None \<and> \<not> allow then Err PermissionDenied else Ok ())"

definition check_stream_authorization ::
    "lib \<Rightarrow> u64 \<Rightarrow> SisterNode \<Rightarrow> CommandAuthorization \<Rightarrow> Permission \<Rightarrow> string list \<Rightarrow> io_error + unit" where
  "check_stream_authorization L now node authorization permission constraints =
     (case NetworkAuthorityStore_load (sn_authority node) of
        Inl _ \<Rightarrow> Err OtherError
      | Inr None \<Rightarrow> Err PermissionDenied
      | Inr (Some authority) \<Rightarrow>
          if ca_permission authorization \<noteq> permission
             \<or> ca_permission authorization \<notin> {FileSend, TunnelOpen, ShellOpen}
             \<or> \<not> authorization_bound_to_local authorization (sn_id node)
             \<or> ca_network_id authorization \<noteq> sn_network_id node
             \<or> \<not> CommandAuthorization_verify L authorization authority now
             \<or> ca_constraints authorization \<noteq> constraints
          then Err PermissionDenied
          else (case RevocationStore_is_revoked L authority (ca_network_id authorization) MembershipKind_Human
                       (hmc_serial (ca_membership authorization)) (sn_revocations node) of
                  Inl _ \<Rightarrow> Err PermissionDenied
                | Inr True \<Rightarrow> Err PermissionDenied
                | Inr False \<Rightarrow> Ok ()))"

definition authorize_stream_operation ::
    "lib \<Rightarrow> ambient \<Rightarrow> SisterNode option \<Rightarrow> CommandAuthorization option \<Rightarrow> Permission \<Rightarrow> string list \<Rightarrow> bool
      \<Rightarrow> (io_error + unit) \<times> SisterNode option" where
  "authorize_stream_operation L A node authorization permission constraints record_nonce' =
     (case require_stream_authorization authorization (case node of None \<Rightarrow> True | Some n \<Rightarrow> sn_allow_unauthenticated n) of
        Inl e \<Rightarrow> (Err e, node)
      | Inr _ \<Rightarrow>
          (case (authorization, node) of
             (None, _) \<Rightarrow> (Ok (), node)
           | (Some a, None) \<Rightarrow> (Err PermissionDenied, node)
           | (Some a, Some n) \<Rightarrow>
               (case check_stream_authorization L (am_now A) n a permission constraints of
                  Inl e \<Rightarrow> (Err e, node)
                | Inr _ \<Rightarrow>
                    if \<not> record_nonce' then (Ok (), node)
                    else (case AuthorizationNonceStore_record (am_write_nonce A) a (am_now_nonce A) (sn_nonces n) of
                            (Inl _, f) \<Rightarrow> (Err PermissionDenied, Some (n\<lparr>sn_nonces := f\<rparr>))
                          | (Inr _, f) \<Rightarrow> (Ok (), Some (n\<lparr>sn_nonces := f\<rparr>))))))"

section \<open>Frames\<close>

definition io_read_frame :: "nat \<Rightarrow> (bytes \<Rightarrow> 'a option) \<Rightarrow> 'a io" where
  "io_read_frame max_len decode =
     io_bind (io_read_exact 4) (\<lambda>len_buf.
       let n = unat (bytes_word len_buf :: u32)
       in if n > max_len then io_fail InvalidData
          else io_bind (io_read_exact n) (\<lambda>b. case decode b of None \<Rightarrow> io_fail InvalidData | Some v \<Rightarrow> io_return v))"

definition io_write_frame :: "bytes \<Rightarrow> unit io" where
  "io_write_frame b = io_then (io_write_all (word_bytes 4 (of_nat (length b) :: u32))) (io_write_all b)"

section \<open>Transfer v0\<close>

text \<open>
  One \<open>stream.read\<close> of at most \<open>limit\<close> bytes returns at least one of the bytes that are there; how
  many is up to the transport (\<open>pick\<close>, given the bytes still to come). No byte at all is the end of
  the stream. A read that fails is not told apart from the end.
\<close>

definition stream_read :: "(bytes \<Rightarrow> nat) \<Rightarrow> nat \<Rightarrow> bytes io" where
  "stream_read pick limit w =
     (let n = max 1 (min limit (pick (w_in w))) in (Ok (take n (w_in w)), w\<lparr>w_in := drop n (w_in w)\<rparr>))"

definition v0_step :: "(bytes \<Rightarrow> nat) \<Rightarrow> string \<Rightarrow> nat \<Rightarrow> digest_state \<Rightarrow> (nat \<times> digest_state) io" where
  "v0_step pick destination remaining digest =
     io_bind (stream_read pick (min remaining (64 * 1024))) (\<lambda>b.
       if b = [] then io_fail UnexpectedEof
       else io_then (append_file destination b)
              (io_return (remaining - length b, update_transfer_digest digest b)))"

lemma v0_step_progress:
  "v0_step pick destination remaining digest w = (Ok (remaining', digest'), w') \<Longrightarrow> 0 < remaining \<Longrightarrow> remaining' < remaining"
  by (auto simp: v0_step_def io_ok stream_read_def Let_def split: if_splits)

function v0_loop :: "(bytes \<Rightarrow> nat) \<Rightarrow> string \<Rightarrow> nat \<Rightarrow> digest_state \<Rightarrow> digest_state io" where
  "v0_loop pick destination remaining digest w =
     (if remaining = 0 then (Ok digest, w)
      else case v0_step pick destination remaining digest w of
        (Inl e, w') \<Rightarrow> (Err e, w')
      | (Inr (remaining', digest'), w') \<Rightarrow> v0_loop pick destination remaining' digest' w')"
  by pat_completeness auto

termination
  by (relation "measure (\<lambda>(pick, destination, remaining, digest, w). remaining)") (auto dest: v0_step_progress [OF sym])

declare v0_loop.simps [simp del]

text \<open>
  The transfer after its authorization: create or truncate, fill, verify. The loop ends without an
  error only when all of the declared size has been written.
\<close>

definition receive_transfer_body :: "transfer_codec \<Rightarrow> (bytes \<Rightarrow> nat) \<Rightarrow> TransferRequest \<Rightarrow> unit io" where
  "receive_transfer_body C pick request =
     io_then create_dir_all
     (io_then (create_file (tr_destination request))
     (io_bind (v0_loop pick (tr_destination request) (unat (tr_size request)) transfer_digest_start) (\<lambda>state.
        let digest = finalize_transfer_digest state;
            result = \<lparr>ts_success = (digest = tr_digest request), ts_bytes_written = tr_size request, ts_digest = digest,
              ts_error = (if digest \<noteq> tr_digest request then Some ''SHA-256 digest mismatch'' else None)\<rparr>
        in io_then (if ts_success result then io_return () else io_ignore (remove_file (tr_destination request)))
           (io_write_frame (tc_enc_result C result)))))"

text \<open>
  A handler reads the request from the stream, has it authorized against the node, and goes on with
  the rest of the stream.
\<close>

definition authorized_stream ::
    "lib \<Rightarrow> ambient \<Rightarrow> 'r io \<Rightarrow> ('r \<Rightarrow> CommandAuthorization option \<times> Permission \<times> string list \<times> bool) \<Rightarrow> ('r \<Rightarrow> unit io)
      \<Rightarrow> SisterNode option \<Rightarrow> world \<Rightarrow> (io_error + unit) \<times> SisterNode option \<times> world" where
  "authorized_stream L A read_request needs body node w =
     (case read_request w of
        (Inl e, w') \<Rightarrow> (Err e, node, w')
      | (Inr request, w') \<Rightarrow>
          (case needs request of (authorization, permission, constraints, record_nonce') \<Rightarrow>
             (case authorize_stream_operation L A node authorization permission constraints record_nonce' of
                (Inl e, node') \<Rightarrow> (Err e, node', w')
              | (Inr _, node') \<Rightarrow> (case body request w' of (r, w'') \<Rightarrow> (r, node', w'')))))"

definition receive_transfer :: "lib \<Rightarrow> transfer_codec \<Rightarrow> ambient \<Rightarrow> (bytes \<Rightarrow> nat) \<Rightarrow> SisterNode option \<Rightarrow> world
      \<Rightarrow> (io_error + unit) \<times> SisterNode option \<times> world" where
  "receive_transfer L C A pick =
     authorized_stream L A (io_read_frame (1024 * 1024) (tc_dec0 C))
       (\<lambda>request. (tr_authorization request, FileSend, [''destination='' @ tr_destination request], True))
       (receive_transfer_body C pick)"

section \<open>Transfer v1\<close>

definition v1_part_path :: "string \<Rightarrow> string" where
  "v1_part_path destination = destination @ ''.misaka-part''"

definition v1_state_path :: "string \<Rightarrow> string" where
  "v1_state_path destination = destination @ ''.misaka-part.json''"

definition metadata_len :: "string \<Rightarrow> nat io" where
  "metadata_len p = io_bind (read_file p) (\<lambda>b. io_return (length b))"

definition load_transfer_v1_state :: "transfer_codec \<Rightarrow> string \<Rightarrow> TransferV1State option io" where
  "load_transfer_v1_state C path =
     io_bind (try_exists path) (\<lambda>exists.
       if \<not> exists then io_return None
       else io_bind (read_file path) (\<lambda>b. case tc_dec_state1 C b of None \<Rightarrow> io_fail InvalidData | Some s \<Rightarrow> io_return (Some s)))"

definition save_transfer_v1_state :: "transfer_codec \<Rightarrow> string \<Rightarrow> TransferV1State \<Rightarrow> unit io" where
  "save_transfer_v1_state C path state = write_file path (tc_enc_state1 C state)"

definition finalize_transfer_part :: "string \<Rightarrow> string \<Rightarrow> unit io" where
  "finalize_transfer_part part_path destination =
     io_bind (io_attempt (rename part_path destination)) (\<lambda>renamed.
       case renamed of
         Inr _ \<Rightarrow> io_return ()
       | Inl error \<Rightarrow>
           if error = AlreadyExists then io_then (remove_file destination) (rename part_path destination)
           else io_fail error)"

text \<open>The recorded progress, if it is of this very transfer and its part file is there; else it is deleted.\<close>

definition v1_recorded :: "transfer_codec \<Rightarrow> TransferV1Request \<Rightarrow> string \<Rightarrow> string \<Rightarrow> TransferV1State option io" where
  "v1_recorded C request part_path state_path =
     io_bind (load_transfer_v1_state C state_path) (\<lambda>state.
     io_bind (try_exists part_path) (\<lambda>part_exists.
       if \<not> (case state of None \<Rightarrow> False
             | Some s \<Rightarrow> s1_size s = t1_size request \<and> s1_digest s = t1_digest request \<and> s1_chunk_size s = t1_chunk_size request)
          \<or> \<not> part_exists
       then io_then (io_ignore (remove_file part_path)) (io_then (io_ignore (remove_file state_path)) (io_return None))
       else io_return state))"

text \<open>The offset to go on from: that of the record if the part file has this length, else zero.\<close>

definition v1_resume_state :: "transfer_codec \<Rightarrow> TransferV1Request \<Rightarrow> string \<Rightarrow> string \<Rightarrow> TransferV1State io" where
  "v1_resume_state C request part_path state_path =
     io_bind (v1_recorded C request part_path state_path) (\<lambda>recorded.
       let state = (case recorded of Some s \<Rightarrow> s
             | None \<Rightarrow> \<lparr>s1_size = t1_size request, s1_digest = t1_digest request, s1_chunk_size = t1_chunk_size request, s1_offset = 0\<rparr>)
       in io_bind (if s1_offset state > t1_size request then io_return True
                   else io_bind (io_attempt (metadata_len part_path)) (\<lambda>len.
                     io_return (case len of Inl _ \<Rightarrow> True | Inr n \<Rightarrow> n \<noteq> unat (s1_offset state)))) (\<lambda>restart.
          io_bind (if restart then io_then (io_ignore (remove_file part_path)) (io_return (state\<lparr>s1_offset := 0\<rparr>))
                   else io_return state) (\<lambda>state.
          io_bind (try_exists part_path) (\<lambda>exists.
          io_then (if exists then io_return () else create_file part_path) (io_return state)))))"

text \<open>One chunk of the loop: its frame, its payload, the append, the progress record and the acknowledgement.\<close>

definition v1_chunk_valid :: "TransferV1Request \<Rightarrow> TransferV1State \<Rightarrow> TransferV1Chunk \<Rightarrow> bool" where
  "v1_chunk_valid request state chunk \<longleftrightarrow>
     \<not> (c1_index chunk \<noteq> s1_offset state div ucast (t1_chunk_size request)
        \<or> c1_offset chunk \<noteq> s1_offset state \<or> c1_len chunk = 0 \<or> c1_len chunk > t1_chunk_size request
        \<or> s1_offset state + ucast (c1_len chunk) > t1_size request)"

definition v1_step :: "transfer_codec \<Rightarrow> TransferV1Request \<Rightarrow> string \<Rightarrow> string \<Rightarrow> TransferV1State \<Rightarrow> TransferV1State io" where
  "v1_step C request part_path state_path state =
     io_bind (io_read_frame (64 * 1024) (tc_dec_chunk1 C)) (\<lambda>chunk.
       if \<not> v1_chunk_valid request state chunk then io_fail InvalidData
       else io_bind (io_read_exact (unat (c1_len chunk))) (\<lambda>payload.
         if transfer_digest payload \<noteq> c1_digest chunk then io_fail InvalidData
         else io_then (append_file part_path payload)
           (let state = state\<lparr>s1_offset := s1_offset state + ucast (c1_len chunk)\<rparr>
            in io_then (save_transfer_v1_state C state_path state)
               (io_then (io_write_frame (tc_enc_ack1 C \<lparr>a1_next_offset = s1_offset state,
                   a1_complete = (s1_offset state = t1_size request), a1_error = None\<rparr>))
                 (io_return state)))))"

lemma io_read_frame_in: "io_read_frame limit decode w = (Ok v, w') \<Longrightarrow> length (w_in w') < length (w_in w)"
  by (auto simp: io_read_frame_def io_ok Let_def split: if_splits option.splits dest!: io_read_exact_in)

lemma reads_on_write_frame [reads_on_rules]: "reads_on (io_write_frame b)"
  unfolding io_write_frame_def by (intro reads_on_rules)

lemma v1_step_progress:
  assumes "v1_step C request part_path state_path state w = (Ok state', w')"
  shows "length (w_in w') < length (w_in w)"
proof -
  obtain chunk w1 k where step: "io_read_frame (64 * 1024) (tc_dec_chunk1 C) w = (Ok chunk, w1)" "k chunk w1 = (Ok state', w')" "reads_on (k chunk)"
    using assms unfolding v1_step_def save_transfer_v1_state_def Let_def
    by (subst (asm) io_bind_ok) (elim exE conjE, rule that, assumption, assumption, intro reads_on_rules)
  from io_read_frame_in [OF step(1)] step(2, 3) show ?thesis unfolding reads_on_def by (meson le_less_trans)
qed

function v1_loop :: "transfer_codec \<Rightarrow> TransferV1Request \<Rightarrow> string \<Rightarrow> string \<Rightarrow> TransferV1State \<Rightarrow> TransferV1State io" where
  "v1_loop C request part_path state_path state w =
     (case v1_step C request part_path state_path state w of
        (Inl e, w') \<Rightarrow> (Err e, w')
      | (Inr state', w') \<Rightarrow>
          if s1_offset state' = t1_size request then (Ok state', w')
          else v1_loop C request part_path state_path state' w')"
  by pat_completeness auto

termination
  by (relation "measure (\<lambda>(C, request, part_path, state_path, state, w). length (w_in w))") (auto dest: v1_step_progress [OF sym])

declare v1_loop.simps [simp del]

text \<open>The whole receiver after the authorization.\<close>

definition receive_transfer_v1_body :: "lib \<Rightarrow> transfer_codec \<Rightarrow> TransferV1Request \<Rightarrow> unit io" where
  "receive_transfer_v1_body L C request =
     (if t1_chunk_size request \<noteq> TRANSFER_V1_CHUNK_SIZE then io_fail InvalidInput
      else
        let destination = t1_destination request; part_path = v1_part_path destination; state_path = v1_state_path destination
        in io_then create_dir_all
           (io_bind (v1_resume_state C request part_path state_path) (\<lambda>state.
            io_bind (if s1_offset state = t1_size request
                     then io_bind (hash_file L part_path) (\<lambda>h. io_return (h = t1_digest request)) else io_return False) (\<lambda>complete.
            io_bind (if complete
                     then io_then (finalize_transfer_part part_path destination)
                       (io_then (io_ignore (remove_file state_path)) (io_return state))
                     else if s1_offset state = t1_size request
                     then let state = state\<lparr>s1_offset := 0\<rparr>
                          in io_then (create_file part_path) (io_then (save_transfer_v1_state C state_path state) (io_return state))
                     else io_return state) (\<lambda>state.
            io_then (io_write_frame (tc_enc_resume1 C \<lparr>r1_offset = s1_offset state, r1_complete = complete, r1_error = None\<rparr>))
            (if complete
             then io_write_frame (tc_enc_result C \<lparr>ts_success = True, ts_bytes_written = t1_size request,
                    ts_digest = word_bytes 32 (t1_digest request), ts_error = None\<rparr>)
             else io_bind (v1_loop C request part_path state_path state) (\<lambda>state.
                  io_bind (hash_file L part_path) (\<lambda>digest.
                  let success = (digest = t1_digest request)
                  in io_then (if success
                              then io_then (finalize_transfer_part part_path destination) (io_ignore (remove_file state_path))
                              else io_return ())
                     (io_write_frame (tc_enc_result C \<lparr>ts_success = success, ts_bytes_written = s1_offset state,
                        ts_digest = word_bytes 32 digest,
                        ts_error = (if \<not> success then Some ''SHA-256 digest mismatch'' else None)\<rparr>))))))))))"

definition receive_transfer_v1 :: "lib \<Rightarrow> transfer_codec \<Rightarrow> ambient \<Rightarrow> SisterNode option \<Rightarrow> world
      \<Rightarrow> (io_error + unit) \<times> SisterNode option \<times> world" where
  "receive_transfer_v1 L C A =
     authorized_stream L A (io_read_frame (1024 * 1024) (tc_dec1 C))
       (\<lambda>request. (t1_authorization request, FileSend, [''destination='' @ t1_destination request], True))
       (receive_transfer_v1_body L C)"

section \<open>Frames and authorization leave the files alone\<close>

lemma wp_write_frame [wp_rules]: "E f \<Longrightarrow> Q () f \<Longrightarrow> wp (io_write_frame b) Q E f"
  unfolding io_write_frame_def by (intro wp_rules)

lemma wp_read_frame [wp_rules]: "E f \<Longrightarrow> (\<And>v. Q v f) \<Longrightarrow> wp (io_read_frame n decode) Q E f"
  unfolding io_read_frame_def Let_def by (intro wp_rules)

end
