(* ===== verification/Misaka_Parallel.thy ===== *)
theory Misaka_Parallel
  imports Misaka_Transfer
begin

text \<open>
  The parallel-chunk transfer (v2) of \<^verbatim>\<open>misaka-runtime/src/runtime.rs\<close> and its sender in
  \<^verbatim>\<open>misaka-cli/src/main.rs\<close>. A transfer has a part file of the final size and a JSON file with a bitmap of
  the chunks written so far; every chunk arrives on its own stream, in any order, and the last request
  verifies the part file and hands it to the content store. The requests of one destination take turns
  (\<open>transfer_v2_lock\<close>) except while a chunk is written; the handler of a chunk is therefore the
  composition of the segments between which others may run.
\<close>

unbundle bit_operations_syntax

section \<open>Progress\<close>

definition TRANSFER_V2_MAX_CHUNKS :: u64 where
  "TRANSFER_V2_MAX_CHUNKS = 1048576"

definition div_ceil :: "u64 \<Rightarrow> u64 \<Rightarrow> u64" where
  "div_ceil n d = n div d + (if n mod d = 0 then 0 else 1)"

definition validate_transfer_v2_request :: "TransferV2Request \<Rightarrow> io_error + unit" where
  "validate_transfer_v2_request request =
     (if t2_chunk_size request \<noteq> TRANSFER_V1_CHUNK_SIZE then Err InvalidInput
      else if t2_chunk_count request \<noteq> div_ceil (t2_size request) (ucast (t2_chunk_size request))
        \<or> t2_chunk_count request > TRANSFER_V2_MAX_CHUNKS then Err InvalidInput
      else if t2_operation request = Chunk
      then if t2_index request \<ge> t2_chunk_count request then Err InvalidInput
           else let expected_offset = t2_index request * ucast (t2_chunk_size request);
                    expected_len = min (saturating_sub (t2_size request) expected_offset) (ucast (t2_chunk_size request))
                in if t2_offset request \<noteq> expected_offset \<or> ucast (t2_len request) \<noteq> expected_len then Err InvalidInput else Ok ()
      else if t2_index request \<noteq> 0 \<or> t2_offset request \<noteq> 0 \<or> t2_len request \<noteq> 0 then Err InvalidInput else Ok ())"

definition v2_part_path :: "string \<Rightarrow> string" where
  "v2_part_path destination = destination @ ''.misaka-part-v2''"

definition v2_state_path :: "string \<Rightarrow> string" where
  "v2_state_path destination = destination @ ''.misaka-part-v2.json''"

definition transfer_v2_bitmap_len :: "u64 \<Rightarrow> nat" where
  "transfer_v2_bitmap_len chunk_count = unat (div_ceil chunk_count 8)"

definition bitmap_get :: "bytes \<Rightarrow> u64 \<Rightarrow> bool" where
  "bitmap_get completed index \<longleftrightarrow> completed ! unat (index div 8) AND push_bit (unat (index mod 8)) 1 \<noteq> 0"

definition bitmap_set :: "bytes \<Rightarrow> u64 \<Rightarrow> bytes" where
  "bitmap_set completed index =
     completed[unat (index div 8) := completed ! unat (index div 8) OR push_bit (unat (index mod 8)) 1]"

definition transfer_v2_is_completed :: "TransferV2State \<Rightarrow> u64 \<Rightarrow> bool" where
  "transfer_v2_is_completed state index = bitmap_get (s2_completed state) index"

definition transfer_v2_mark_completed :: "TransferV2State \<Rightarrow> u64 \<Rightarrow> TransferV2State" where
  "transfer_v2_mark_completed state index = state\<lparr>s2_completed := bitmap_set (s2_completed state) index\<rparr>"

definition chunk_range :: "u64 \<Rightarrow> u64 list" where
  "chunk_range n = map of_nat [0..<unat n]"

definition transfer_v2_complete :: "TransferV2State \<Rightarrow> bool" where
  "transfer_v2_complete state = list_all (transfer_v2_is_completed state) (chunk_range (s2_chunk_count state))"

definition completed_transfer_v2_indices :: "TransferV2State \<Rightarrow> u64 list" where
  "completed_transfer_v2_indices state = filter (transfer_v2_is_completed state) (chunk_range (s2_chunk_count state))"

definition load_transfer_v2_state :: "transfer_codec \<Rightarrow> string \<Rightarrow> TransferV2State option io" where
  "load_transfer_v2_state C path =
     io_bind (try_exists path) (\<lambda>exists.
       if \<not> exists then io_return None
       else io_bind (read_file path) (\<lambda>b. case tc_dec_state2 C b of None \<Rightarrow> io_fail InvalidData | Some s \<Rightarrow> io_return (Some s)))"

definition save_transfer_v2_state :: "transfer_codec \<Rightarrow> string \<Rightarrow> TransferV2State \<Rightarrow> unit io" where
  "save_transfer_v2_state C path state =
     io_then (write_file (path @ ''.tmp'') (tc_enc_state2 C state)) (rename (path @ ''.tmp'') path)"

definition v2_state_matches :: "TransferV2Request \<Rightarrow> TransferV2State \<Rightarrow> bool" where
  "v2_state_matches request state \<longleftrightarrow>
     s2_size state = t2_size request \<and> s2_digest state = t2_digest request \<and> s2_chunk_size state = t2_chunk_size request
     \<and> s2_chunk_count state = t2_chunk_count request
     \<and> length (s2_completed state) = transfer_v2_bitmap_len (s2_chunk_count state)"

definition v2_fresh_state :: "TransferV2Request \<Rightarrow> TransferV2State" where
  "v2_fresh_state request = \<lparr>s2_size = t2_size request, s2_digest = t2_digest request, s2_chunk_size = t2_chunk_size request,
     s2_chunk_count = t2_chunk_count request, s2_completed = replicate (transfer_v2_bitmap_len (t2_chunk_count request)) 0\<rparr>"

definition v2_start_over :: "transfer_codec \<Rightarrow> TransferV2Request \<Rightarrow> string \<Rightarrow> string \<Rightarrow> TransferV2State io" where
  "v2_start_over C request part_path state_path =
     io_then (io_ignore (remove_file part_path))
     (io_then (io_ignore (remove_file state_path))
     (io_then create_dir_all
     (io_then (create_file part_path)
     (io_then (set_len part_path (unat (t2_size request)))
     (io_then (save_transfer_v2_state C state_path (v2_fresh_state request))
       (io_return (v2_fresh_state request)))))))"

definition ensure_transfer_v2_state :: "transfer_codec \<Rightarrow> TransferV2Request \<Rightarrow> string \<Rightarrow> string \<Rightarrow> TransferV2State io" where
  "ensure_transfer_v2_state C request part_path state_path =
     io_bind (load_transfer_v2_state C state_path) (\<lambda>loaded.
       case (case loaded of None \<Rightarrow> None | Some s \<Rightarrow> if v2_state_matches request s then Some s else None) of
         None \<Rightarrow> v2_start_over C request part_path state_path
       | Some state \<Rightarrow>
           io_bind (try_exists part_path) (\<lambda>exists.
             if exists then io_return state else v2_start_over C request part_path state_path))"

section \<open>The receiver\<close>

definition v2_prepare :: "lib \<Rightarrow> transfer_codec \<Rightarrow> string \<Rightarrow> TransferV2Request \<Rightarrow> string \<Rightarrow> string \<Rightarrow> unit io" where
  "v2_prepare L C root request part_path state_path =
     io_bind (ContentStore_contains L root (t2_digest request)) (\<lambda>stored.
       if stored
       then io_write_frame (tc_enc_resume2 C \<lparr>r2_completed_indices = chunk_range (t2_chunk_count request), r2_complete = True, r2_error = None\<rparr>)
       else io_bind (ensure_transfer_v2_state C request part_path state_path) (\<lambda>state.
         io_write_frame (tc_enc_resume2 C \<lparr>r2_completed_indices = completed_transfer_v2_indices state,
           r2_complete = transfer_v2_complete state, r2_error = None\<rparr>)))"

text \<open>The segments of a chunk request: look it up, write it, record it, acknowledge it.\<close>

definition v2_chunk_lookup :: "transfer_codec \<Rightarrow> TransferV2Request \<Rightarrow> string \<Rightarrow> string \<Rightarrow> bool io" where
  "v2_chunk_lookup C request part_path state_path =
     io_bind (ensure_transfer_v2_state C request part_path state_path) (\<lambda>state.
       io_return (transfer_v2_is_completed state (t2_index request)))"

definition v2_chunk_write :: "TransferV2Request \<Rightarrow> string \<Rightarrow> bytes \<Rightarrow> unit io" where
  "v2_chunk_write request part_path payload = write_at part_path (unat (t2_offset request)) payload"

definition v2_chunk_record :: "transfer_codec \<Rightarrow> TransferV2Request \<Rightarrow> string \<Rightarrow> string \<Rightarrow> unit io" where
  "v2_chunk_record C request part_path state_path =
     io_bind (ensure_transfer_v2_state C request part_path state_path) (\<lambda>state.
       if transfer_v2_is_completed state (t2_index request) then io_return ()
       else save_transfer_v2_state C state_path (transfer_v2_mark_completed state (t2_index request)))"

definition v2_chunk_ack :: "transfer_codec \<Rightarrow> TransferV2Request \<Rightarrow> string \<Rightarrow> string \<Rightarrow> unit io" where
  "v2_chunk_ack C request part_path state_path =
     io_bind (ensure_transfer_v2_state C request part_path state_path) (\<lambda>state.
       io_write_frame (tc_enc_ack2 C \<lparr>a2_index = t2_index request, a2_accepted = True,
         a2_complete = transfer_v2_complete state, a2_error = None\<rparr>))"

definition v2_chunk :: "transfer_codec \<Rightarrow> TransferV2Request \<Rightarrow> string \<Rightarrow> string \<Rightarrow> unit io" where
  "v2_chunk C request part_path state_path =
     io_bind (io_read_exact (unat (t2_len request))) (\<lambda>payload.
       if transfer_digest payload \<noteq> t2_chunk_digest request then io_fail InvalidData
       else io_bind (v2_chunk_lookup C request part_path state_path) (\<lambda>already_completed.
         io_then (if already_completed then io_return ()
                  else io_then (v2_chunk_write request part_path payload) (v2_chunk_record C request part_path state_path))
         (v2_chunk_ack C request part_path state_path)))"

definition v2_finalize_ack :: "transfer_codec \<Rightarrow> bool \<Rightarrow> string option \<Rightarrow> unit io" where
  "v2_finalize_ack C accepted error =
     io_write_frame (tc_enc_ack2 C \<lparr>a2_index = 0, a2_accepted = accepted, a2_complete = accepted, a2_error = error\<rparr>)"

definition v2_deliver :: "lib \<Rightarrow> transfer_codec \<Rightarrow> string \<Rightarrow> string \<Rightarrow> TransferV2Request \<Rightarrow> string \<Rightarrow> unit io" where
  "v2_deliver L C root tag' request state_path =
     io_then (materialize L root tag' (t2_digest request) (t2_destination request))
     (io_then (io_ignore (remove_file state_path)) (v2_finalize_ack C True None))"

definition v2_finalize_whole :: "lib \<Rightarrow> transfer_codec \<Rightarrow> string \<Rightarrow> string \<Rightarrow> string \<Rightarrow> TransferV2Request \<Rightarrow> string \<Rightarrow> string \<Rightarrow> unit io" where
  "v2_finalize_whole L C root tag tag' request part_path state_path =
     io_bind (hash_file L part_path) (\<lambda>digest.
       if digest \<noteq> t2_digest request
       then io_then (io_ignore (remove_file part_path))
              (io_then (io_ignore (remove_file state_path)) (v2_finalize_ack C False (Some ''SHA-256 digest mismatch'')))
       else io_then (commit_verified_file L root tag part_path (t2_digest request)) (v2_deliver L C root tag' request state_path))"

definition v2_finalize :: "lib \<Rightarrow> transfer_codec \<Rightarrow> string \<Rightarrow> string \<Rightarrow> string \<Rightarrow> TransferV2Request \<Rightarrow> string \<Rightarrow> string \<Rightarrow> unit io" where
  "v2_finalize L C root tag tag' request part_path state_path =
     io_bind (ContentStore_contains L root (t2_digest request)) (\<lambda>stored.
       if stored then v2_deliver L C root tag' request state_path
       else io_bind (ensure_transfer_v2_state C request part_path state_path) (\<lambda>state.
         if \<not> transfer_v2_complete state then v2_finalize_ack C False (Some ''transfer has incomplete chunks'')
         else v2_finalize_whole L C root tag tag' request part_path state_path))"

text \<open>A request after its authorization\<close>

definition receive_transfer_v2_body :: "lib \<Rightarrow> transfer_codec \<Rightarrow> string \<Rightarrow> string \<Rightarrow> string \<Rightarrow> TransferV2Request \<Rightarrow> unit io" where
  "receive_transfer_v2_body L C root tag tag' request =
     (case validate_transfer_v2_request request of
        Inl e \<Rightarrow> io_fail e
      | Inr _ \<Rightarrow>
          let part_path = v2_part_path (t2_destination request); state_path = v2_state_path (t2_destination request)
          in case t2_operation request of
               Prepare \<Rightarrow> v2_prepare L C root request part_path state_path
             | Chunk \<Rightarrow> v2_chunk C request part_path state_path
             | Finalize \<Rightarrow> v2_finalize L C root tag tag' request part_path state_path)"

definition receive_transfer_v2 :: "lib \<Rightarrow> transfer_codec \<Rightarrow> ambient \<Rightarrow> string \<Rightarrow> string \<Rightarrow> string \<Rightarrow> SisterNode option \<Rightarrow> world
      \<Rightarrow> (io_error + unit) \<times> SisterNode option \<times> world" where
  "receive_transfer_v2 L C A root tag tag' =
     authorized_stream L A (io_read_frame (1024 * 1024) (tc_dec2 C))
       (\<lambda>request. (t2_authorization request, FileSend, [''destination='' @ t2_destination request], t2_operation request = Prepare))
       (receive_transfer_v2_body L C root tag tag')"

section \<open>The bitmap\<close>

text \<open>
  What the receiver needs of its record of finished chunks: marking one chunk marks this chunk and no
  other, and a fresh record has none.
\<close>

locale chunk_record =
  fixes get :: "'r \<Rightarrow> u64 \<Rightarrow> bool" and set' :: "'r \<Rightarrow> u64 \<Rightarrow> 'r" and covers :: "'r \<Rightarrow> u64 \<Rightarrow> bool" and fresh :: "u64 \<Rightarrow> 'r"
  assumes get_set: "covers r i \<Longrightarrow> covers r j \<Longrightarrow> get (set' r i) j \<longleftrightarrow> j = i \<or> get r j"
    and covers_set: "covers (set' r i) j \<longleftrightarrow> covers r j"
    and get_fresh: "i < n \<Longrightarrow> \<not> get (fresh n) i"
    and covers_fresh: "i < n \<Longrightarrow> covers (fresh n) i"
begin

lemma get_fold_set:
  "(\<And>i. i \<in> set is \<Longrightarrow> covers r i) \<Longrightarrow> covers r j \<Longrightarrow> get (fold (\<lambda>i r. set' r i) is r) j \<longleftrightarrow> j \<in> set is \<or> get r j"
  by (induction "is" arbitrary: r) (auto simp: get_set covers_set)

lemma all_set_complete:
  assumes "\<forall>i<n. i \<in> set is" "\<forall>i\<in>set is. i < n"
  shows "\<forall>i<n. get (fold (\<lambda>i r. set' r i) is (fresh n)) i"
  using assms get_fold_set [of "is" "fresh n"] covers_fresh by blast

end

lemma unat_div_ceil:
  assumes "1 < unat d"
  shows "unat (div_ceil n d) = unat n div unat d + (if unat n mod unat d = 0 then 0 else 1)"
proof -
  have "n mod d = 0 \<longleftrightarrow> unat n mod unat d = 0" by (simp add: word_unat_eq_iff unat_mod)
  moreover have "unat n div unat d + 1 < 2 ^ 64"
  proof -
    have "unat n div unat d \<le> unat n div 2" using assms by (intro div_le_mono2) auto
    moreover have "unat n < 2 ^ 64" using unat_lt_exp [of n] by simp
    ultimately show ?thesis by simp
  qed
  ultimately show ?thesis by (simp add: div_ceil_def unat_word_ariths unat_div)
qed

lemma div_less_ceil: "i < n \<Longrightarrow> i div d < n div d + (if n mod d = 0 then 0 else 1)" for i n d :: nat
proof (cases "n mod d = 0")
  case True
  assume "i < n"
  with True have "i < n div d * d" by (simp add: mod_eq_0_iff_dvd)
  with True show ?thesis by (simp add: less_mult_imp_div_less)
next
  case False
  assume "i < n"
  then have "i div d \<le> n div d" by (intro div_le_mono) simp
  with False show ?thesis by simp
qed

lemma ceil_mult_less: "i < n div d + (if n mod d = 0 then 0 else 1) \<Longrightarrow> i * d < n" for i n d :: nat
proof -
  assume i: "i < n div d + (if n mod d = 0 then 0 else 1)"
  have n: "n = n div d * d + n mod d" by simp
  show ?thesis
  proof (cases "n mod d = 0")
    case True
    with i have "i < n div d" by simp
    moreover have "0 < d" using i True by (cases d) auto
    ultimately have "i * d < n div d * d" by simp
    with n True show ?thesis by simp
  next
    case False
    with i have "i * d \<le> n div d * d" by (intro mult_le_mono1) simp
    with n False show ?thesis by linarith
  qed
qed

lemma div_8_less: "i < n \<Longrightarrow> unat (i div 8) < transfer_v2_bitmap_len n" for i n :: u64
  unfolding transfer_v2_bitmap_len_def using div_less_ceil [of "unat i" "unat n" 8]
  by (simp add: unat_div_ceil unat_div word_less_nat_alt)

lemma bitmap_get_bit: "bitmap_get b i \<longleftrightarrow> bit (b ! unat (i div 8)) (unat (i mod 8))"
  by (simp add: bitmap_get_def bit_iff_and_push_bit_not_eq_0)

lemma index_eqI: "i = j" if "i div 8 = j div 8" "unat (i mod 8) = unat (j mod 8)" for i j :: u64
  using that by (metis div_mult_mod_eq word_unat_eq_iff)

lemma bitmap_get_set:
  assumes "unat (i div 8) < length b"
  shows "bitmap_get (bitmap_set b i) j \<longleftrightarrow> j = i \<or> bitmap_get b j"
proof (cases "j div 8 = i div 8")
  case True
  have "unat (j mod 8) < 8" by (simp add: unat_mod)
  then have "bit (push_bit (unat (i mod 8)) 1 :: u8) (unat (j mod 8)) \<longleftrightarrow> j = i"
    using index_eqI [of j i] True by (auto simp: bit_exp_iff)
  with True assms show ?thesis by (auto simp: bitmap_get_bit bitmap_set_def bit_or_iff)
next
  case False
  then have "unat (j div 8) \<noteq> unat (i div 8)" by (simp add: word_unat_eq_iff)
  with False show ?thesis by (auto simp: bitmap_get_bit bitmap_set_def)
qed

definition fresh_bitmap :: "u64 \<Rightarrow> bytes" where
  "fresh_bitmap n = replicate (transfer_v2_bitmap_len n) 0"

interpretation bitmap: chunk_record bitmap_get bitmap_set "\<lambda>b i. unat (i div 8) < length b" fresh_bitmap
  by unfold_locales (simp_all add: bitmap_get_set, simp_all add: bitmap_set_def fresh_bitmap_def bitmap_get_bit div_8_less)

section \<open>Paths\<close>

lemma v2_paths [simp]:
  "v2_part_path d \<noteq> v2_state_path d" "v2_state_path d \<noteq> v2_part_path d"
  "v2_part_path d \<noteq> d" "d \<noteq> v2_part_path d" "v2_state_path d \<noteq> d" "d \<noteq> v2_state_path d"
  "v2_state_path d @ ''.tmp'' \<noteq> d" "d \<noteq> v2_state_path d @ ''.tmp''"
  "v2_state_path d @ ''.tmp'' \<noteq> v2_part_path d" "v2_part_path d \<noteq> v2_state_path d @ ''.tmp''"
  by (simp_all add: v2_part_path_def v2_state_path_def)

lemma v2_object_paths [simp]:
  "object_path root h \<noteq> v2_part_path d" "v2_part_path d \<noteq> object_path root h"
  "object_path root h \<noteq> v2_state_path d" "v2_state_path d \<noteq> object_path root h"
  "object_path root h \<noteq> v2_state_path d @ ''.tmp''" "v2_state_path d @ ''.tmp'' \<noteq> object_path root h"
  using object_path_neqI [of 1 "v2_part_path d" root h] object_path_neqI [of 0 "v2_state_path d" root h]
    object_path_neqI [of 0 "v2_state_path d @ ''.tmp''" root h]
  by (simp_all add: v2_part_path_def v2_state_path_def)

lemma v2_materialize_paths [simp]:
  "materialize_temp d tag \<noteq> v2_part_path d" "v2_part_path d \<noteq> materialize_temp d tag"
  "materialize_temp d tag \<noteq> v2_state_path d" "v2_state_path d \<noteq> materialize_temp d tag"
  by (simp_all add: materialize_temp_def v2_part_path_def v2_state_path_def)

lemma v2_commit_paths:
  assumes "uuid_tag tag"
  shows "commit_temp root h tag \<noteq> v2_part_path d" "v2_part_path d \<noteq> commit_temp root h tag"
    "commit_temp root h tag \<noteq> v2_state_path d" "v2_state_path d \<noteq> commit_temp root h tag"
proof -
  have dot: "takeWhile (\<lambda>c. c \<noteq> CHR ''.'') (rev (commit_temp root h tag)) = rev tag @ ''-pmt''"
    using assms by (simp add: commit_temp_def path_join_def uuid_tag_def takeWhile_append)
  have "length (takeWhile (\<lambda>c. c \<noteq> CHR ''.'') (rev (v2_part_path d))) = 14"
    "length (takeWhile (\<lambda>c. c \<noteq> CHR ''.'') (rev (v2_state_path d))) = 4"
    by (simp_all add: v2_part_path_def v2_state_path_def)
  moreover have "length (rev tag @ ''-pmt'') = 40" using assms by (simp add: uuid_tag_def)
  ultimately show "commit_temp root h tag \<noteq> v2_part_path d" "v2_part_path d \<noteq> commit_temp root h tag"
    "commit_temp root h tag \<noteq> v2_state_path d" "v2_state_path d \<noteq> commit_temp root h tag"
    using dot by force+
qed

section \<open>A file cut into chunks\<close>

definition chunk_slice :: "bytes \<Rightarrow> u64 \<Rightarrow> bytes" where
  "chunk_slice content i = take 65536 (drop (unat i * 65536) content)"

definition v2_count :: "bytes \<Rightarrow> u64" where
  "v2_count content = div_ceil (of_nat (length content)) 65536"

lemma nth_drop_less: "k < length xs - n \<Longrightarrow> drop n xs ! k = xs ! (n + k)"
  by simp

lemma slice_eq_iff:
  assumes "length p = length q"
  shows "chunk_slice p i = chunk_slice q i \<longleftrightarrow> (\<forall>m<length q. m div 65536 = unat i \<longrightarrow> p ! m = q ! m)"
proof -
  have "(\<forall>k < min 65536 (length q - unat i * 65536). p ! (unat i * 65536 + k) = q ! (unat i * 65536 + k))
      \<longleftrightarrow> (\<forall>m<length q. m div 65536 = unat i \<longrightarrow> p ! m = q ! m)" (is "?l \<longleftrightarrow> ?r")
  proof
    assume l: ?l
    show ?r
    proof (intro allI impI)
      fix m
      assume m: "m < length q" "m div 65536 = unat i"
      then have "unat i * 65536 + m mod 65536 = m" by (metis div_mult_mod_eq)
      with l [rule_format, of "m mod 65536"] m show "p ! m = q ! m" by simp
    qed
  next
    assume r: ?r
    show ?l
    proof (intro allI impI)
      fix k
      assume "k < min 65536 (length q - unat i * 65536)"
      with r [rule_format, of "unat i * 65536 + k"] show "p ! (unat i * 65536 + k) = q ! (unat i * 65536 + k)"
        by (simp add: less_diff_conv add.commute)
    qed
  qed
  with assms show ?thesis by (auto simp: chunk_slice_def list_eq_iff_nth_eq min.commute nth_drop_less)
qed

lemma splice_nth:
  assumes "off + length new \<le> length p" "m < length p"
  shows "splice_bytes off new p ! m = (if off \<le> m \<and> m < off + length new then new ! (m - off) else p ! m)"
  using assms by (auto simp: splice_bytes_def nth_append min_def)

lemma length_splice: "off + length new \<le> length p \<Longrightarrow> length (splice_bytes off new p) = length p"
  by (simp add: splice_bytes_def)

lemma unat_v2_count:
  assumes "length content < 2 ^ 64"
  shows "unat (v2_count content) = length content div 65536 + (if length content mod 65536 = 0 then 0 else 1)"
  using assms by (simp add: v2_count_def unat_div_ceil unsigned_of_nat take_bit_nat_eq_self)

lemma all_slices:
  assumes "length content < 2 ^ 64" "length p = length content" "\<forall>i<v2_count content. chunk_slice p i = chunk_slice content i"
  shows "p = content"
proof (rule nth_equalityI [OF assms(2)])
  fix m
  assume m: "m < length p"
  have "m div 65536 < unat (v2_count content)"
    using m assms(2) div_less_ceil [of m "length content" 65536] by (simp add: unat_v2_count [OF assms(1)])
  moreover from this have "unat (of_nat (m div 65536) :: u64) = m div 65536"
    using unat_lt_exp [of "v2_count content"] by (simp add: unsigned_of_nat take_bit_nat_eq_self)
  ultimately have "chunk_slice p (of_nat (m div 65536)) = chunk_slice content (of_nat (m div 65536))"
    using assms(3) by (simp add: word_less_nat_alt)
  then show "p ! m = content ! m"
    using m assms(2) \<open>unat (of_nat (m div 65536) :: u64) = m div 65536\<close> by (simp add: slice_eq_iff)
qed

text \<open>Writing a piece of a chunk of the file never spoils a chunk that is already right.\<close>

lemma splice_slice:
  assumes "length p = length content" "unat i * 65536 < length content"
    and p': "p' = splice_bytes (unat i * 65536) (take n (chunk_slice content i)) p"
  shows "length p' = length content"
    and "chunk_slice p j = chunk_slice content j \<Longrightarrow> chunk_slice p' j = chunk_slice content j"
    and "65536 \<le> n \<Longrightarrow> chunk_slice p' i = chunk_slice content i"
proof -
  let ?new = "take n (chunk_slice content i)"
  have fits: "unat i * 65536 + length ?new \<le> length p" using assms(1, 2) by (simp add: chunk_slice_def)
  show len: "length p' = length content" using length_splice [OF fits] assms(1) by (simp add: p')
  have new: "?new ! (m - unat i * 65536) = content ! m" if "unat i * 65536 \<le> m" "m < unat i * 65536 + length ?new" for m
  proof -
    have "m - unat i * 65536 < length content - unat i * 65536" "m - unat i * 65536 < min n 65536"
      using that unfolding chunk_slice_def by (simp_all only: length_take length_drop take_take)
    with that(1) show ?thesis by (simp only: chunk_slice_def take_take nth_take nth_drop_less le_add_diff_inverse)
  qed
  have at: "p' ! m = (if unat i * 65536 \<le> m \<and> m < unat i * 65536 + length ?new then content ! m else p ! m)"
    if "m < length content" for m
    unfolding p' using that assms(1) new by (subst splice_nth [OF fits]) auto
  show "chunk_slice p' j = chunk_slice content j" if "chunk_slice p j = chunk_slice content j"
    using that at by (simp add: slice_eq_iff [OF len] slice_eq_iff [OF assms(1)])
  show "chunk_slice p' i = chunk_slice content i" if "65536 \<le> n"
    unfolding slice_eq_iff [OF len]
  proof (intro allI impI)
    fix m
    assume m: "m < length content" "m div 65536 = unat i"
    then have "unat i * 65536 \<le> m" "m < unat i * 65536 + 65536"
      using div_times_less_eq_dividend [of m 65536] by (auto simp: dividend_less_div_times intro: dividend_less_div_times [of 65536 m, simplified])
    with at [OF m(1)] that m(1) assms(2) show "p' ! m = content ! m" by (auto simp: chunk_slice_def min_def split: if_splits)
  qed
qed

section \<open>The progress of one file\<close>

text \<open>
  The state file decodes to a state of this very file, its part file is there with the right length,
  and every chunk the bitmap counts as finished holds the bytes of the file.
\<close>

definition v2_state_of :: "lib \<Rightarrow> bytes \<Rightarrow> TransferV2State \<Rightarrow> bool" where
  "v2_state_of L content s \<longleftrightarrow>
     s2_size s = of_nat (length content) \<and> s2_digest s = sha256 L content \<and> s2_chunk_size s = TRANSFER_V1_CHUNK_SIZE
     \<and> s2_chunk_count s = v2_count content \<and> length (s2_completed s) = transfer_v2_bitmap_len (v2_count content)"

definition v2_slices :: "bytes \<Rightarrow> bytes \<Rightarrow> (u64 \<Rightarrow> bool) \<Rightarrow> bool" where
  "v2_slices content p finished \<longleftrightarrow>
     length p = length content \<and> (\<forall>i<v2_count content. finished i \<longrightarrow> chunk_slice p i = chunk_slice content i)"

definition v2_ready :: "lib \<Rightarrow> transfer_codec \<Rightarrow> bytes \<Rightarrow> string \<Rightarrow> TransferV2State \<Rightarrow> (string \<rightharpoonup> bytes) \<Rightarrow> bool" where
  "v2_ready L C content d s f \<longleftrightarrow> v2_state_of L content s
     \<and> (\<exists>b. f (v2_state_path d) = Some b \<and> tc_dec_state2 C b = Some s)
     \<and> (\<exists>p. f (v2_part_path d) = Some p \<and> v2_slices content p (transfer_v2_is_completed s))"

definition v2_stored :: "lib \<Rightarrow> string \<Rightarrow> bytes \<Rightarrow> (string \<rightharpoonup> bytes) \<Rightarrow> bool" where
  "v2_stored L root content f \<longleftrightarrow> verified_at L f (object_path root (sha256 L content)) (sha256 L content)"

definition v2_recorded :: "lib \<Rightarrow> transfer_codec \<Rightarrow> bytes \<Rightarrow> string \<Rightarrow> (string \<rightharpoonup> bytes) \<Rightarrow> TransferV2State \<Rightarrow> bool" where
  "v2_recorded L C content d f s \<longleftrightarrow>
     (\<exists>b. f (v2_state_path d) = Some b \<and> tc_dec_state2 C b = Some s) \<and> v2_state_of L content s"

definition v2_legible :: "transfer_codec \<Rightarrow> string \<Rightarrow> (string \<rightharpoonup> bytes) \<Rightarrow> bool" where
  "v2_legible C d f \<longleftrightarrow> (\<forall>b. f (v2_state_path d) = Some b \<longrightarrow> tc_dec_state2 C b \<noteq> None)"

text \<open>The invariant: the store has the file, or the state file can be read and what it says of the file is true.\<close>

definition v2_inv :: "lib \<Rightarrow> transfer_codec \<Rightarrow> string \<Rightarrow> bytes \<Rightarrow> string \<Rightarrow> (string \<rightharpoonup> bytes) \<Rightarrow> bool" where
  "v2_inv L C root content d f \<longleftrightarrow> v2_stored L root content f \<or>
     v2_legible C d f \<and> (\<forall>s. v2_recorded L C content d f s \<longrightarrow> v2_ready L C content d s f)"

definition v2_setting :: "lib \<Rightarrow> transfer_codec \<Rightarrow> string \<Rightarrow> bytes \<Rightarrow> string \<Rightarrow> bool" where
  "v2_setting L C root content d \<longleftrightarrow>
     (\<forall>s. v2_state_of L content s \<longrightarrow> tc_dec_state2 C (tc_enc_state2 C s) = Some s) \<and> length content \<le> 2 ^ 36 \<and> d \<noteq> object_path root (sha256 L content)"

definition v2_request_for :: "lib \<Rightarrow> bytes \<Rightarrow> string \<Rightarrow> TransferV2Request \<Rightarrow> bool" where
  "v2_request_for L content d request \<longleftrightarrow>
     t2_destination request = d \<and> t2_size request = of_nat (length content) \<and> t2_digest request = sha256 L content
     \<and> validate_transfer_v2_request request = Ok ()"

lemma v2_request_forD:
  assumes "v2_request_for L content d request"
  shows "t2_destination request = d" "t2_size request = of_nat (length content)" "t2_digest request = sha256 L content"
    "t2_chunk_size request = TRANSFER_V1_CHUNK_SIZE" "t2_chunk_count request = v2_count content"
proof -
  have "ucast TRANSFER_V1_CHUNK_SIZE = (65536 :: u64)" by (simp add: TRANSFER_V1_CHUNK_SIZE_def)
  with assms show "t2_destination request = d" "t2_size request = of_nat (length content)" "t2_digest request = sha256 L content"
    "t2_chunk_size request = TRANSFER_V1_CHUNK_SIZE" "t2_chunk_count request = v2_count content"
    by (auto simp: v2_request_for_def validate_transfer_v2_request_def v2_count_def split: if_splits)
qed

lemma v2_matches: "v2_request_for L content d request \<Longrightarrow> v2_state_matches request s \<longleftrightarrow> v2_state_of L content s"
  by (auto simp: v2_state_matches_def v2_state_of_def dest: v2_request_forD)

lemma v2_fresh:
  assumes "v2_request_for L content d request" "v2_setting L C root content d"
  shows "v2_state_of L content (v2_fresh_state request)" "i < v2_count content \<Longrightarrow> \<not> transfer_v2_is_completed (v2_fresh_state request) i"
    "unat (t2_size request) = length content"
proof -
  show "unat (t2_size request) = length content"
    using assms(2) v2_request_forD(2) [OF assms(1)] by (simp add: v2_setting_def unsigned_of_nat take_bit_nat_eq_self)
qed (use v2_request_forD [OF assms(1)] bitmap.get_fresh [of i "v2_count content"] in
    \<open>auto simp: v2_fresh_state_def v2_state_of_def transfer_v2_is_completed_def fresh_bitmap_def\<close>)

lemma v2_inv_readyI: "v2_ready L C content d s f \<Longrightarrow> v2_inv L C root content d f"
  unfolding v2_inv_def v2_ready_def v2_recorded_def v2_legible_def by force

lemma v2_inv_unrecordedI: "v2_legible C d f \<Longrightarrow> (\<And>s. \<not> v2_recorded L C content d f s) \<Longrightarrow> v2_inv L C root content d f"
  by (simp add: v2_inv_def)

lemma v2_stored_upd [simp]: "p \<noteq> object_path root (sha256 L content) \<Longrightarrow> v2_stored L root content (f(p := x)) = v2_stored L root content f"
  by (simp add: v2_stored_def verified_at_def)

lemma v2_recorded_upd [simp]:
  "p \<noteq> v2_state_path d \<Longrightarrow> v2_recorded L C content d (f(p := x)) s = v2_recorded L C content d f s"
  "\<not> v2_recorded L C content d (f(v2_state_path d := None)) s"
  by (simp_all add: v2_recorded_def)

lemma v2_legible_upd [simp]:
  "p \<noteq> v2_state_path d \<Longrightarrow> v2_legible C d (f(p := x)) = v2_legible C d f" "v2_legible C d (f(v2_state_path d := None))"
  by (simp_all add: v2_legible_def)

lemma wp_save_v2 [wp_rules]:
  assumes "E f" "\<And>n. E (f(path @ ''.tmp'' \<mapsto> take n (tc_enc_state2 C s)))"
    and "Q () (f(path @ ''.tmp'' := None, path \<mapsto> tc_enc_state2 C s))"
  shows "wp (save_transfer_v2_state C path s) Q E f"
proof -
  have "E (f(path @ ''.tmp'' \<mapsto> tc_enc_state2 C s))" using assms(2) [of "length (tc_enc_state2 C s)"] by simp
  with assms show ?thesis unfolding save_transfer_v2_state_def by (intro wp_rules) simp_all
qed

lemma wp_load_v2 [wp_rules]:
  assumes "E f" "f path = None \<Longrightarrow> Q None f" "\<And>b s. f path = Some b \<Longrightarrow> tc_dec_state2 C b = Some s \<Longrightarrow> Q (Some s) f"
  shows "wp (load_transfer_v2_state C path) Q E f"
  unfolding load_transfer_v2_state_def using assms by (intro wp_rules) simp_all

text \<open>Starting over when nothing is recorded of the file, or when the store has it anyway\<close>

lemma wp_start_over:
  assumes "v2_request_for L content d request" "v2_setting L C root content d" "v2_legible C d f" "\<And>s. \<not> v2_recorded L C content d f s"
  shows "wp (v2_start_over C request (v2_part_path d) (v2_state_path d))
    (\<lambda>s f. v2_ready L C content d s f) (v2_inv L C root content d) f"
proof -
  note fresh = v2_fresh [OF assms(1, 2)] and codec = assms(2) [unfolded v2_setting_def, THEN conjunct1]
  have ready: "f' (v2_state_path d) = Some (tc_enc_state2 C (v2_fresh_state request)) \<Longrightarrow>
      f' (v2_part_path d) = Some (replicate (unat (t2_size request)) 0) \<Longrightarrow> v2_ready L C content d (v2_fresh_state request) f'" for f'
    using fresh codec by (simp add: v2_ready_def v2_slices_def)
  show ?thesis unfolding v2_start_over_def
    by (intro wp_rules ready; insert assms(3, 4); simp add: v2_inv_unrecordedI)
qed

lemma wp_start_over_stored:
  assumes "v2_stored L root content f"
  shows "wp (v2_start_over C request (v2_part_path d) (v2_state_path d))
    (\<lambda>s f. s = v2_fresh_state request \<and> v2_stored L root content f) (v2_inv L C root content d) f"
  unfolding v2_start_over_def by (intro wp_rules; insert assms; simp add: v2_inv_def)

lemma wp_ensure:
  assumes "v2_request_for L content d request" "v2_setting L C root content d" "v2_inv L C root content d f"
  shows "wp (ensure_transfer_v2_state C request (v2_part_path d) (v2_state_path d))
    (\<lambda>s f. v2_state_of L content s \<and> (v2_ready L C content d s f \<or> v2_stored L root content f)) (v2_inv L C root content d) f"
proof (cases "v2_stored L root content f")
  case True
  show ?thesis unfolding ensure_transfer_v2_state_def
    by (intro wp_rules wp_start_over_stored [THEN wp_mono]; insert True assms v2_matches [OF assms(1)] v2_fresh(1) [OF assms(1, 2)];
        auto simp: v2_inv_def split: option.splits if_splits)
next
  case False
  have ready: "v2_recorded L C content d f s \<Longrightarrow> v2_ready L C content d s f" for s
    using False assms(3) by (simp add: v2_inv_def)
  have legible: "v2_legible C d f" using False assms(3) by (simp add: v2_inv_def)
  have over: "(\<And>s. \<not> v2_recorded L C content d f s) \<Longrightarrow> wp (v2_start_over C request (v2_part_path d) (v2_state_path d))
    (\<lambda>s f. v2_state_of L content s \<and> (v2_ready L C content d s f \<or> v2_stored L root content f)) (v2_inv L C root content d) f"
    by (rule wp_start_over [OF assms(1, 2) legible, THEN wp_mono]) (auto simp: v2_ready_def)
  show ?thesis unfolding ensure_transfer_v2_state_def
    by (intro wp_rules over; insert assms ready v2_matches [OF assms(1)];
        force simp: v2_recorded_def v2_ready_def split: option.splits if_splits)
qed

section \<open>Requests in any order, whatever fails\<close>

text \<open>
  What holds between the segments of the requests for one file: nothing that matters any more once the
  store has it; before that, the invariant, that progress is recorded once a lookup has succeeded
  (\<open>started\<close>), and that the chunks written so far (\<open>W\<close>) hold their bytes.
\<close>

definition v2_conc :: "lib \<Rightarrow> transfer_codec \<Rightarrow> string \<Rightarrow> bytes \<Rightarrow> string \<Rightarrow> bool \<Rightarrow> u64 set \<Rightarrow> (string \<rightharpoonup> bytes) \<Rightarrow> bool" where
  "v2_conc L C root content d started W f \<longleftrightarrow> v2_stored L root content f \<or>
     v2_inv L C root content d f \<and> (started \<longrightarrow> (\<exists>s. v2_ready L C content d s f))
     \<and> (\<forall>i\<in>W. \<exists>p. f (v2_part_path d) = Some p \<and> chunk_slice p i = chunk_slice content i)"

lemma v2_conc_inv: "v2_conc L C root content d b W f \<Longrightarrow> v2_inv L C root content d f"
  by (auto simp: v2_conc_def v2_inv_def)

lemma wp_ensure_ready:
  assumes "v2_request_for L content d request" "v2_ready L C content d s f"
  shows "wp (ensure_transfer_v2_state C request (v2_part_path d) (v2_state_path d)) (\<lambda>s' f'. s' = s \<and> f' = f) (\<lambda>f'. f' = f) f"
  unfolding ensure_transfer_v2_state_def
  by (intro wp_rules; insert assms v2_matches [OF assms(1)]; auto simp: v2_ready_def split: option.splits if_splits)

lemma wp_ensure_stored:
  assumes "v2_request_for L content d request" "v2_setting L C root content d" "v2_stored L root content f"
  shows "wp (ensure_transfer_v2_state C request (v2_part_path d) (v2_state_path d))
    (\<lambda>s f. v2_state_of L content s \<and> v2_stored L root content f) (v2_stored L root content) f"
  unfolding ensure_transfer_v2_state_def v2_start_over_def
  by (intro wp_rules; insert assms v2_matches [OF assms(1)] v2_fresh(1) [OF assms(1, 2)]; auto split: option.splits if_splits)

lemma wp_ensure_conc:
  assumes "v2_request_for L content d request" "v2_setting L C root content d" "v2_conc L C root content d b W f" "W \<noteq> {} \<Longrightarrow> b"
  shows "wp (ensure_transfer_v2_state C request (v2_part_path d) (v2_state_path d))
    (\<lambda>s f. v2_state_of L content s \<and> (v2_ready L C content d s f \<or> v2_stored L root content f) \<and> v2_conc L C root content d True W f)
    (v2_conc L C root content d b W) f"
proof (cases "v2_stored L root content f")
  case True
  show ?thesis by (rule wp_ensure_stored [OF assms(1, 2) True, THEN wp_mono]) (auto simp: v2_conc_def)
next
  case False
  show ?thesis
  proof (cases b)
    case True
    with False assms(3) obtain s where s: "v2_ready L C content d s f" by (auto simp: v2_conc_def)
    show ?thesis
      by (rule wp_ensure_ready [OF assms(1) s, THEN wp_mono]) (use s assms(3) True in \<open>auto simp: v2_conc_def v2_ready_def\<close>)
  next
    case False
    with assms(4) have "W = {}" by blast
    with False show ?thesis
      by (intro wp_ensure [OF assms(1, 2) v2_conc_inv [OF assms(3)], THEN wp_mono])
        (auto simp: v2_conc_def intro: v2_inv_readyI)
  qed
qed

lemma wp_contains [wp_rules]: "E f \<Longrightarrow> Q (verified_at L f (object_path root h) h) f \<Longrightarrow> wp (ContentStore_contains L root h) Q E f"
  unfolding ContentStore_contains_def by (intro wp_rules) (auto simp: verified_at_def)

lemma chunk_offset:
  assumes "v2_request_for L content d request" "v2_setting L C root content d" "t2_operation request = Chunk"
  shows "unat (t2_offset request) = unat (t2_index request) * 65536" "t2_index request < v2_count content"
    "unat (t2_index request) * 65536 < length content" "unat (t2_len request) = length (chunk_slice content (t2_index request))"
proof -
  note r = v2_request_forD [OF assms(1)]
  have cs: "ucast TRANSFER_V1_CHUNK_SIZE = (65536 :: u64)" by (simp add: TRANSFER_V1_CHUNK_SIZE_def)
  have len: "length content \<le> 2 ^ 36" using assms(2) by (simp add: v2_setting_def)
  from assms(1, 3) r cs have off: "t2_offset request = t2_index request * 65536"
    and lenw: "ucast (t2_len request) = min (saturating_sub (t2_size request) (t2_index request * 65536)) 65536"
    and idx: "t2_index request < v2_count content"
    by (auto simp: v2_request_for_def validate_transfer_v2_request_def Let_def split: if_splits)
  show "t2_index request < v2_count content" by (fact idx)
  have small: "unat (t2_index request) < length content div 65536 + (if length content mod 65536 = 0 then 0 else 1)"
    using idx len by (simp add: word_less_nat_alt unat_v2_count)
  then show lt: "unat (t2_index request) * 65536 < length content" by (rule ceil_mult_less)
  have "unat (t2_index request) * 65536 < 2 ^ 64" using lt len by simp
  then show u: "unat (t2_offset request) = unat (t2_index request) * 65536"
    unfolding off by (simp add: unat_word_ariths)
  have "unat (t2_len request) = unat (ucast (t2_len request) :: u64)"
    using unat_lt_exp [of "t2_len request"] by (simp add: unsigned_ucast_eq take_bit_nat_eq_self)
  also have "\<dots> = min (length content - unat (t2_index request) * 65536) 65536"
    unfolding lenw using u [unfolded off] len
    by (simp add: min_def word_le_nat_alt unat_saturating_sub r(2) unsigned_of_nat take_bit_nat_eq_self)
  finally show "unat (t2_len request) = length (chunk_slice content (t2_index request))"
    by (simp add: chunk_slice_def)
qed

lemma wp_prepare_conc:
  assumes "v2_request_for L content d request" "v2_setting L C root content d" "v2_conc L C root content d b W f" "W \<noteq> {} \<Longrightarrow> b"
  shows "wp (v2_prepare L C root request (v2_part_path d) (v2_state_path d))
    (\<lambda>_. v2_conc L C root content d b W) (v2_conc L C root content d b W) f"
  unfolding v2_prepare_def
  by (intro wp_rules wp_ensure_conc [OF assms, THEN wp_mono]; insert assms(3); auto simp: v2_conc_def)

lemma wp_lookup_conc:
  assumes "v2_request_for L content d request" "v2_setting L C root content d" "v2_conc L C root content d b W f" "W \<noteq> {} \<Longrightarrow> b"
  shows "wp (v2_chunk_lookup C request (v2_part_path d) (v2_state_path d))
    (\<lambda>_. v2_conc L C root content d True W) (v2_conc L C root content d b W) f"
  unfolding v2_chunk_lookup_def
  by (intro wp_rules wp_ensure_conc [OF assms, THEN wp_mono] wp_return; insert assms(3); auto)

lemma wp_ack_conc:
  assumes "v2_request_for L content d request" "v2_setting L C root content d" "v2_conc L C root content d b W f" "W \<noteq> {} \<Longrightarrow> b"
  shows "wp (v2_chunk_ack C request (v2_part_path d) (v2_state_path d))
    (\<lambda>_. v2_conc L C root content d b W) (v2_conc L C root content d b W) f"
  unfolding v2_chunk_ack_def
  by (intro wp_rules wp_ensure_conc [OF assms, THEN wp_mono] wp_write_frame; auto simp: v2_conc_def)

text \<open>A write of honest bytes, complete or cut short, keeps what is there.\<close>

lemma v2_conc_write:
  assumes "v2_conc L C root content d True W f" "f (v2_part_path d) = Some old" "unat i * 65536 < length content"
  defines "f' n \<equiv> f(v2_part_path d \<mapsto> splice_bytes (unat i * 65536) (take n (chunk_slice content i)) old)"
  shows "v2_conc L C root content d True W (f' n)" "v2_conc L C root content d True (insert i W) (f' 65536)"
proof -
  show "v2_conc L C root content d True W (f' n)" for n
  proof (cases "v2_stored L root content f")
    case True
    then show ?thesis by (simp add: f'_def v2_conc_def)
  next
    case False
    with assms(1) obtain s where s: "v2_ready L C content d s f" by (auto simp: v2_conc_def)
    with assms(2) have len: "length old = length content" by (auto simp: v2_ready_def v2_slices_def)
    note keep = splice_slice(1, 2) [OF len assms(3) refl, where n = n]
    have "v2_ready L C content d s (f' n)"
      using s assms(2) keep by (auto simp: f'_def v2_ready_def v2_slices_def)
    moreover have "\<forall>j\<in>W. chunk_slice old j = chunk_slice content j" using assms(1, 2) False by (auto simp: v2_conc_def)
    ultimately show ?thesis using keep(2) v2_inv_readyI by (fastforce simp: f'_def v2_conc_def)
  qed
  from this [of 65536] show "v2_conc L C root content d True (insert i W) (f' 65536)"
  proof (cases "v2_stored L root content f")
    case True
    then show ?thesis by (simp add: f'_def v2_conc_def)
  next
    case False
    with assms(1, 2) have len: "length old = length content" by (auto simp: v2_conc_def v2_ready_def v2_slices_def)
    with \<open>v2_conc L C root content d True W (f' 65536)\<close> splice_slice(3) [OF len assms(3) refl, where n = 65536] show ?thesis
      by (auto simp: f'_def v2_conc_def)
  qed
qed

lemma v2_conc_upd:
  "p \<noteq> v2_state_path d \<Longrightarrow> p \<noteq> v2_part_path d \<Longrightarrow> p \<noteq> object_path root (sha256 L content)
    \<Longrightarrow> v2_conc L C root content d b W (f(p := x)) = v2_conc L C root content d b W f"
  by (simp add: v2_conc_def v2_inv_def v2_ready_def)

lemma wp_write_conc:
  assumes "v2_request_for L content d request" "v2_setting L C root content d" "t2_operation request = Chunk"
    and "v2_conc L C root content d True W f"
  shows "wp (v2_chunk_write request (v2_part_path d) (chunk_slice content (t2_index request)))
    (\<lambda>_. v2_conc L C root content d True (insert (t2_index request) W)) (v2_conc L C root content d True W) f"
proof -
  note off = chunk_offset [OF assms(1-3)]
  have full: "take 65536 (chunk_slice content i) = chunk_slice content i" for i by (simp add: chunk_slice_def)
  show ?thesis unfolding v2_chunk_write_def off(1)
  proof (rule wp_write_at)
    show "v2_conc L C root content d True W f" by (fact assms(4))
  next
    fix old n
    assume old: "f (v2_part_path d) = Some old"
    show "v2_conc L C root content d True W
        (f(v2_part_path d \<mapsto> splice_bytes (unat (t2_index request) * 65536) (take n (chunk_slice content (t2_index request))) old))"
      by (rule v2_conc_write(1) [OF assms(4) old off(3)])
    show "v2_conc L C root content d True (insert (t2_index request) W)
        (f(v2_part_path d \<mapsto> splice_bytes (unat (t2_index request) * 65536) (chunk_slice content (t2_index request)) old))"
      using v2_conc_write(2) [OF assms(4) old off(3)] by (simp add: full)
  qed
qed

lemma v2_mark:
  assumes "v2_state_of L content s" "i < v2_count content"
  shows "v2_state_of L content (transfer_v2_mark_completed s i)"
    and "j < v2_count content \<Longrightarrow> transfer_v2_is_completed (transfer_v2_mark_completed s i) j \<longleftrightarrow> j = i \<or> transfer_v2_is_completed s j"
  using assms bitmap.get_set [of i "s2_completed s" j] div_8_less
  by (auto simp: v2_state_of_def transfer_v2_mark_completed_def transfer_v2_is_completed_def bitmap_set_def)

lemma v2_conc_mark:
  assumes "v2_setting L C root content d" "v2_conc L C root content d True W f" "i \<in> W" "i < v2_count content"
    and "v2_state_of L content s" "v2_ready L C content d s f \<or> v2_stored L root content f"
  shows "v2_conc L C root content d True W
    (f(v2_state_path d @ ''.tmp'' := None, v2_state_path d \<mapsto> tc_enc_state2 C (transfer_v2_mark_completed s i)))"
proof (cases "v2_stored L root content f")
  case True
  then show ?thesis by (simp add: v2_conc_def)
next
  case False
  let ?f = "f(v2_state_path d @ ''.tmp'' := None, v2_state_path d \<mapsto> tc_enc_state2 C (transfer_v2_mark_completed s i))"
  from False assms(6) obtain p where p: "f (v2_part_path d) = Some p" "v2_slices content p (transfer_v2_is_completed s)"
    by (auto simp: v2_ready_def)
  moreover have W: "\<forall>j\<in>W. chunk_slice p j = chunk_slice content j" using assms(2) False p(1) by (auto simp: v2_conc_def)
  ultimately have "v2_slices content p (transfer_v2_is_completed (transfer_v2_mark_completed s i))"
    using v2_mark(2) [OF assms(5, 4)] assms(3) by (auto simp: v2_slices_def)
  then have "v2_ready L C content d (transfer_v2_mark_completed s i) ?f"
    using p(1) v2_mark(1) [OF assms(5, 4)] assms(1) by (simp add: v2_ready_def v2_setting_def)
  with W p(1) show ?thesis using v2_inv_readyI by (fastforce simp: v2_conc_def)
qed

lemma wp_record_conc:
  assumes "v2_request_for L content d request" "v2_setting L C root content d" "t2_operation request = Chunk"
    and "v2_conc L C root content d True W f" "t2_index request \<in> W"
  shows "wp (v2_chunk_record C request (v2_part_path d) (v2_state_path d))
    (\<lambda>_. v2_conc L C root content d True W) (v2_conc L C root content d True W) f"
proof -
  have save: "wp (if transfer_v2_is_completed s (t2_index request) then io_return ()
        else save_transfer_v2_state C (v2_state_path d) (transfer_v2_mark_completed s (t2_index request)))
      (\<lambda>_. v2_conc L C root content d True W) (v2_conc L C root content d True W) f'"
    if "v2_state_of L content s \<and> (v2_ready L C content d s f' \<or> v2_stored L root content f') \<and> v2_conc L C root content d True W f'" for s f'
    using that v2_conc_mark [OF assms(2) _ assms(5) chunk_offset(2) [OF assms(1-3)]]
    by (intro wp_rules) (auto simp: v2_conc_upd)
  show ?thesis unfolding v2_chunk_record_def
    by (rule wp_bind, rule wp_ensure_conc [OF assms(1, 2, 4), THEN wp_mono]) (use save in auto)
qed

lemma set_chunk_range: "set (chunk_range n) = {i. i < n}"
proof (intro equalityI subsetI)
  fix i
  assume "i \<in> set (chunk_range n)"
  then obtain k where "k < unat n" "i = of_nat k" by (auto simp: chunk_range_def)
  moreover have "k < 2 ^ 64" using \<open>k < unat n\<close> unat_lt_exp [of n] by simp
  ultimately show "i \<in> {i. i < n}" by (simp add: word_less_nat_alt unsigned_of_nat take_bit_nat_eq_self)
next
  fix i
  assume "i \<in> {i. i < n}"
  then have "unat i \<in> set [0..<unat n]" "i = of_nat (unat i)" by (simp_all add: word_less_nat_alt)
  then show "i \<in> set (chunk_range n)" unfolding chunk_range_def set_map by (rule image_eqI [rotated])
qed

lemma v2_complete_iff: "v2_state_of L content s \<Longrightarrow> transfer_v2_complete s \<longleftrightarrow> (\<forall>i<v2_count content. transfer_v2_is_completed s i)"
  by (simp add: transfer_v2_complete_def list_all_iff v2_state_of_def set_chunk_range)

lemma v2_conc_weaken: "v2_conc L C root content d True W f \<Longrightarrow> v2_conc L C root content d b W f"
  by (auto simp: v2_conc_def)

lemma wp_finalize_ack [wp_rules]: "E f \<Longrightarrow> Q () f \<Longrightarrow> wp (v2_finalize_ack C accepted error) Q E f"
  unfolding v2_finalize_ack_def by (intro wp_rules)

lemma wp_deliver:
  assumes "v2_request_for L content d request" "v2_setting L C root content d" "uuid_tag tag'" "v2_stored L root content f"
  shows "wp (v2_deliver L C root tag' request (v2_state_path d)) (\<lambda>_. v2_stored L root content) (v2_stored L root content) f"
proof -
  have "wp (materialize L root tag' (sha256 L content) d) (\<lambda>_. v2_stored L root content) (v2_stored L root content) f"
    using wp_materialize_object [of d root "sha256 L content" tag' L f] assms(2-4) by (simp add: v2_stored_def [abs_def] v2_setting_def)
  then show ?thesis unfolding v2_deliver_def v2_request_forD(1, 3) [OF assms(1)]
    by (intro wp_bind) (erule wp_mono, (intro wp_rules; simp)+)
qed

lemma wp_commit_conc:
  assumes "v2_setting L C root content d" "uuid_tag tag" "v2_conc L C root content d True W f"
    and "v2_stored L root content f \<or> f (v2_part_path d) = Some content"
  shows "wp (commit_verified_file L root tag (v2_part_path d) (sha256 L content))
    (\<lambda>_. v2_stored L root content) (v2_conc L C root content d True W) f"
proof (cases "v2_stored L root content f")
  case True
  then have "wp (commit_verified_file L root tag (v2_part_path d) (sha256 L content))
      (\<lambda>_. v2_stored L root content) (v2_stored L root content) f"
    using wp_commit_object [of "v2_part_path d" root "sha256 L content" L f tag] by (simp add: v2_stored_def [abs_def])
  then show ?thesis by (rule wp_mono) (simp_all add: v2_conc_def)
next
  case False
  with assms(4) have part: "f (v2_part_path d) = Some content" by blast
  note paths = v2_commit_paths [OF assms(2)]
  have "wp (commit_verified_file L root tag (v2_part_path d) (sha256 L content))
      (\<lambda>p f'. (p = object_path root (sha256 L content) \<and> verified_at L f' p (sha256 L content) \<and> f' (v2_part_path d) = None)
         \<and> f' (v2_state_path d) = f (v2_state_path d))
      (\<lambda>f'. committed_or_kept L (object_path root (sha256 L content)) (sha256 L content) (v2_part_path d) content f'
         \<and> f' (v2_state_path d) = f (v2_state_path d)) f"
    using paths part by (intro wp_conj wp_commit wp_commit_frame) simp_all
  then show ?thesis
    by (rule wp_mono) (use assms(3) False part in
        \<open>auto simp: v2_stored_def committed_or_kept_def v2_conc_def v2_inv_def v2_ready_def v2_recorded_def v2_legible_def\<close>)
qed

lemma wp_whole_conc:
  assumes "v2_request_for L content d request" "v2_setting L C root content d" "uuid_tag tag" "uuid_tag tag'"
    and "v2_conc L C root content d True W f" "v2_stored L root content f \<or> f (v2_part_path d) = Some content"
  shows "wp (v2_finalize_whole L C root tag tag' request (v2_part_path d) (v2_state_path d))
    (\<lambda>_. v2_conc L C root content d True W) (v2_conc L C root content d True W) f"
proof -
  note commit = wp_commit_conc [OF assms(2, 3, 5, 6), THEN wp_mono] and deliver = wp_deliver [OF assms(1, 2, 4), THEN wp_mono]
  have stored: "v2_stored L root content f \<Longrightarrow> v2_conc L C root content d True W f" for f by (simp add: v2_conc_def)
  show ?thesis unfolding v2_finalize_whole_def v2_request_forD(3) [OF assms(1)]
    by (intro wp_bind wp_hash_file wp_if wp_ignore wp_remove_file wp_finalize_ack commit deliver; insert assms(5, 6) stored; auto)
qed

lemma wp_finalize_conc:
  assumes "v2_request_for L content d request" "v2_setting L C root content d" "v2_conc L C root content d b W f" "W \<noteq> {} \<Longrightarrow> b"
    and "uuid_tag tag" "uuid_tag tag'"
  shows "wp (v2_finalize L C root tag tag' request (v2_part_path d) (v2_state_path d))
    (\<lambda>_. v2_conc L C root content d b W) (v2_conc L C root content d b W) f"
proof -
  have len: "length content < 2 ^ 64" using assms(2) by (simp add: v2_setting_def)
  have whole: "v2_stored L root content f' \<or> f' (v2_part_path d) = Some content"
    if "v2_state_of L content s" "v2_ready L C content d s f' \<or> v2_stored L root content f'" "transfer_v2_complete s" for s f'
    using that(2, 3) all_slices [OF len] v2_complete_iff [OF that(1)] by (fastforce simp: v2_ready_def v2_slices_def)
  note deliver = wp_deliver [OF assms(1, 2, 6), THEN wp_mono] and ensure = wp_ensure_conc [OF assms(1-4), THEN wp_mono]
    and finish = wp_whole_conc [OF assms(1, 2, 5, 6), THEN wp_mono]
  have stored: "v2_stored L root content f \<Longrightarrow> v2_conc L C root content d b W f" for f by (simp add: v2_conc_def)
  show ?thesis unfolding v2_finalize_def v2_request_forD(3) [OF assms(1)]
    by (intro wp_bind wp_contains wp_if deliver wp_finalize_ack ensure finish; insert assms(3) whole stored v2_conc_weaken;
        (unfold v2_stored_def [abs_def])?; blast)
qed

text \<open>
  Everything that can happen to the files while requests for one file are served: their segments in any
  order and interleaving, each with any faults, and broken off wherever one fails. A chunk is written
  only after some lookup succeeded, and recorded only after it was written.
\<close>

inductive v2_trace :: "lib \<Rightarrow> transfer_codec \<Rightarrow> string \<Rightarrow> bytes \<Rightarrow> string \<Rightarrow> bool \<Rightarrow> u64 set \<Rightarrow> (string \<rightharpoonup> bytes) \<Rightarrow> bool"
  for L C root content d where
  start: "v2_inv L C root content d f \<Longrightarrow> v2_trace L C root content d False {} f"
| prepared: "v2_trace L C root content d b W (w_files w) \<Longrightarrow> v2_request_for L content d request
    \<Longrightarrow> v2_trace L C root content d b W (w_files (snd (v2_prepare L C root request (v2_part_path d) (v2_state_path d) w)))"
| lookup: "v2_trace L C root content d b W (w_files w) \<Longrightarrow> v2_request_for L content d request
    \<Longrightarrow> v2_chunk_lookup C request (v2_part_path d) (v2_state_path d) w = (r, w')
    \<Longrightarrow> v2_trace L C root content d (b \<or> is_ok r) W (w_files w')"
| put: "v2_trace L C root content d True W (w_files w) \<Longrightarrow> v2_request_for L content d request \<Longrightarrow> t2_operation request = Chunk
    \<Longrightarrow> v2_chunk_write request (v2_part_path d) (chunk_slice content (t2_index request)) w = (r, w')
    \<Longrightarrow> v2_trace L C root content d True (if is_ok r then insert (t2_index request) W else W) (w_files w')"
| mark: "v2_trace L C root content d True W (w_files w) \<Longrightarrow> v2_request_for L content d request \<Longrightarrow> t2_operation request = Chunk
    \<Longrightarrow> t2_index request \<in> W
    \<Longrightarrow> v2_trace L C root content d True W (w_files (snd (v2_chunk_record C request (v2_part_path d) (v2_state_path d) w)))"
| ack: "v2_trace L C root content d b W (w_files w) \<Longrightarrow> v2_request_for L content d request
    \<Longrightarrow> v2_trace L C root content d b W (w_files (snd (v2_chunk_ack C request (v2_part_path d) (v2_state_path d) w)))"
| finalize: "v2_trace L C root content d b W (w_files w) \<Longrightarrow> v2_request_for L content d request \<Longrightarrow> uuid_tag tag \<Longrightarrow> uuid_tag tag'
    \<Longrightarrow> v2_trace L C root content d b W
          (w_files (snd (v2_finalize L C root tag tag' request (v2_part_path d) (v2_state_path d) w)))"

lemma v2_trace_conc:
  assumes "v2_trace L C root content d b W f" "v2_setting L C root content d"
  shows "v2_conc L C root content d b W f \<and> (W \<noteq> {} \<longrightarrow> b)"
  using assms(1)
proof induction
  case (start f)
  then show ?case by (simp add: v2_conc_def)
next
  case (prepared b W w request)
  then show ?case using wp_files [OF wp_prepare_conc] assms(2) by blast
next
  case (lookup b W w request r w')
  then have "wp (v2_chunk_lookup C request (v2_part_path d) (v2_state_path d))
      (\<lambda>_. v2_conc L C root content d True W) (v2_conc L C root content d b W) (w_files w)"
    using assms(2) by (intro wp_lookup_conc) auto
  with lookup show ?case by (cases r) (auto simp: wp_def v2_conc_weaken)
next
  case (put W w request r w')
  then have "wp (v2_chunk_write request (v2_part_path d) (chunk_slice content (t2_index request)))
      (\<lambda>_. v2_conc L C root content d True (insert (t2_index request) W)) (v2_conc L C root content d True W) (w_files w)"
    using assms(2) by (intro wp_write_conc) auto
  with put show ?case by (cases r) (auto simp: wp_def)
next
  case (mark W w request)
  then show ?case using wp_files [OF wp_record_conc] assms(2) by blast
next
  case (ack b W w request)
  then show ?case using wp_files [OF wp_ack_conc] assms(2) by blast
next
  case (finalize b W w request tag tag')
  then show ?case using wp_files [OF wp_finalize_conc] assms(2) by blast
qed

text \<open>The handler of a chunk, run alone on an honest stream, is such a sequence of segments.\<close>

lemma v2_chunk_trace:
  assumes "v2_trace L C root content d b W (w_files w)" "v2_request_for L content d request" "t2_operation request = Chunk"
    and "take (unat (t2_len request)) (w_in w) = chunk_slice content (t2_index request)"
  shows "\<exists>b W. v2_trace L C root content d b W (w_files (snd (v2_chunk C request (v2_part_path d) (v2_state_path d) w)))"
proof (cases "io_read_exact (unat (t2_len request)) w")
  case (Pair r w1)
  have files: "w_files w1 = w_files w" using Pair by (auto simp: io_read_exact_def split: sum.splits)
  show ?thesis
  proof (cases r)
    case (Inl e)
    with Pair assms(1) files show ?thesis by (auto simp: v2_chunk_def io_bind_def)
  next
    case (Inr payload)
    with Pair assms(4) have payload: "payload = chunk_slice content (t2_index request)"
      by (auto simp: io_read_exact_def read_exact_def split: if_splits)
    obtain r2 w2 where l: "v2_chunk_lookup C request (v2_part_path d) (v2_state_path d) w1 = (r2, w2)" by force
    from v2_trace.lookup [OF assms(1) [folded files] assms(2) l] have t2: "v2_trace L C root content d (b \<or> is_ok r2) W (w_files w2)" .
    obtain r3 w3 where wr: "v2_chunk_write request (v2_part_path d) payload w2 = (r3, w3)" by force
    obtain r4 w4 where rec: "v2_chunk_record C request (v2_part_path d) (v2_state_path d) w3 = (r4, w4)" by force
    have t3: "v2_trace L C root content d True (if is_ok r3 then insert (t2_index request) W else W) (w_files w3)" if "is_ok r2"
      using v2_trace.put [OF _ assms(2, 3) wr [unfolded payload]] t2 that by auto
    have t4: "v2_trace L C root content d True (insert (t2_index request) W) (w_files w4)" if "is_ok r2" "is_ok r3"
      using v2_trace.mark [OF _ assms(2, 3), of C root "insert (t2_index request) W" w3] t3 that rec by auto
    note acks = v2_trace.ack [OF _ assms(2)]
    show ?thesis
      using Pair Inr l wr rec t2 t3 t4 acks [OF t2] acks [OF t4] assms(1) files
      by (cases r2; cases r3; cases r4) (auto simp: v2_chunk_def io_bind_def io_fail_def io_return_def)
  qed
qed

section \<open>Requests when nothing fails\<close>

lemma calm_frame [calm]:
  "w_faults w = [] \<Longrightarrow> io_write_frame b w = (Ok (), w\<lparr>w_out := w_out w @ write_bincode_frame b\<rparr>)"
  by (simp add: io_write_frame_def write_bincode_frame_def calm)

lemma calm_start_over:
  assumes "w_faults w = []" "v2_request_for L content d request" "v2_setting L C root content d"
  shows "\<exists>w'. v2_start_over C request (v2_part_path d) (v2_state_path d) w = (Ok (v2_fresh_state request), w')
    \<and> v2_ready L C content d (v2_fresh_state request) (w_files w') \<and> w_faults w' = [] \<and> w_in w' = w_in w \<and> w_out w' = w_out w"
proof -
  note fresh = v2_fresh [OF assms(2, 3)] and codec = assms(3) [unfolded v2_setting_def, THEN conjunct1]
  show ?thesis using assms(1) fresh codec
    by (auto simp: v2_start_over_def save_transfer_v2_state_def calm v2_ready_def v2_slices_def)
qed

lemma calm_ensure_ready:
  assumes "w_faults w = []" "v2_request_for L content d request" "v2_ready L C content d s (w_files w)"
  shows "ensure_transfer_v2_state C request (v2_part_path d) (v2_state_path d) w = (Ok s, w)"
  using assms v2_matches [OF assms(2)]
  by (auto simp: ensure_transfer_v2_state_def load_transfer_v2_state_def calm v2_ready_def)

lemma calm_ensure:
  assumes "w_faults w = []" "v2_request_for L content d request" "v2_setting L C root content d"
    and "v2_inv L C root content d (w_files w)" "\<not> v2_stored L root content (w_files w)"
  shows "\<exists>s w'. ensure_transfer_v2_state C request (v2_part_path d) (v2_state_path d) w = (Ok s, w')
    \<and> v2_ready L C content d s (w_files w') \<and> w_faults w' = [] \<and> w_in w' = w_in w \<and> w_out w' = w_out w"
proof (cases "\<exists>s. v2_recorded L C content d (w_files w) s")
  case True
  then obtain s where "v2_ready L C content d s (w_files w)" using assms(4, 5) by (auto simp: v2_inv_def)
  with calm_ensure_ready [OF assms(1, 2) this] assms(1) show ?thesis by auto
next
  case False
  have "ensure_transfer_v2_state C request (v2_part_path d) (v2_state_path d) w
      = v2_start_over C request (v2_part_path d) (v2_state_path d) w"
    using False assms(1, 4, 5) v2_matches [OF assms(2)]
    by (auto simp: ensure_transfer_v2_state_def load_transfer_v2_state_def calm v2_recorded_def v2_inv_def v2_legible_def split: option.splits)
  with calm_start_over [OF assms(1-3)] show ?thesis by auto
qed

lemma calm_contains [calm]:
  "w_faults w = [] \<Longrightarrow> ContentStore_contains L root h w = (Ok (verified_at L (w_files w) (object_path root h) h), w)"
  by (auto simp: ContentStore_contains_def hash_file_def calm verified_at_def split: option.splits)

text \<open>The three requests\<close>

lemma calm_prepare:
  assumes "w_faults w = []" "v2_request_for L content d request" "v2_setting L C root content d" "v2_inv L C root content d (w_files w)"
  shows "\<exists>resume w'. v2_prepare L C root request (v2_part_path d) (v2_state_path d) w = (Ok (), w')
    \<and> w_faults w' = [] \<and> w_out w' = w_out w @ write_bincode_frame (tc_enc_resume2 C resume) \<and> r2_error resume = None
    \<and> (v2_stored L root content (w_files w') \<and> r2_completed_indices resume = chunk_range (v2_count content)
       \<or> (\<exists>s. v2_ready L C content d s (w_files w') \<and> r2_completed_indices resume = completed_transfer_v2_indices s))"
proof (cases "v2_stored L root content (w_files w)")
  case True
  with assms(1) v2_request_forD(3, 5) [OF assms(2)] show ?thesis
    by (auto simp: v2_prepare_def calm v2_stored_def)
next
  case False
  from calm_ensure [OF assms False] obtain s w' where
    "ensure_transfer_v2_state C request (v2_part_path d) (v2_state_path d) w = (Ok s, w')" "v2_ready L C content d s (w_files w')"
    "w_faults w' = []" "w_out w' = w_out w" by blast
  with False assms(1) v2_request_forD(3) [OF assms(2)] show ?thesis
    by (intro exI [of _ "\<lparr>r2_completed_indices = completed_transfer_v2_indices s, r2_complete = transfer_v2_complete s, r2_error = None\<rparr>"])
      (auto simp: v2_prepare_def calm v2_stored_def)
qed

lemma calm_chunk:
  assumes "w_faults w = []" "v2_request_for L content d request" "v2_setting L C root content d" "t2_operation request = Chunk"
    and "w_in w = chunk_slice content (t2_index request)" "t2_chunk_digest request = transfer_digest (chunk_slice content (t2_index request))"
    and "v2_ready L C content d s (w_files w)"
  shows "\<exists>s' w' c. v2_chunk C request (v2_part_path d) (v2_state_path d) w = (Ok (), w')
    \<and> w_out w' = w_out w @ write_bincode_frame (tc_enc_ack2 C \<lparr>a2_index = t2_index request, a2_accepted = True, a2_complete = c, a2_error = None\<rparr>)
    \<and> v2_ready L C content d s' (w_files w')
    \<and> (\<forall>j<v2_count content. transfer_v2_is_completed s' j \<longleftrightarrow> j = t2_index request \<or> transfer_v2_is_completed s j)"
proof -
  note off = chunk_offset [OF assms(2-4)]
  let ?w1 = "w\<lparr>w_in := []\<rparr>"
  have read: "io_read_exact (unat (t2_len request)) w = (Ok (chunk_slice content (t2_index request)), ?w1)"
    using assms(5) off(4) by (simp add: io_read_exact_def read_exact_def)
  note ensure = calm_ensure_ready [OF _ assms(2), of _ C]
  show ?thesis
  proof (cases "transfer_v2_is_completed s (t2_index request)")
    case True
    with ensure [of ?w1 s] assms(1, 6, 7) read show ?thesis
      by (auto simp: v2_chunk_def v2_chunk_lookup_def v2_chunk_ack_def calm)
  next
    case False
    from assms(7) obtain p where p: "w_files w (v2_part_path d) = Some p" "v2_slices content p (transfer_v2_is_completed s)"
      and s: "v2_state_of L content s" by (auto simp: v2_ready_def)
    have len: "length p = length content" using p(2) by (simp add: v2_slices_def)
    let ?p = "splice_bytes (unat (t2_index request) * 65536) (chunk_slice content (t2_index request)) p"
    let ?w2 = "set_file (v2_part_path d) (Some ?p) ?w1"
    let ?s = "transfer_v2_mark_completed s (t2_index request)"
    let ?w3 = "set_file (v2_state_path d) (Some (tc_enc_state2 C ?s)) (set_file (v2_state_path d @ ''.tmp'') None
        (set_file (v2_state_path d @ ''.tmp'') (Some (tc_enc_state2 C ?s)) ?w2))"
    have full: "take 65536 (chunk_slice content i) = chunk_slice content i" for i by (simp add: chunk_slice_def)
    note slices = splice_slice [OF len off(3), where n = 65536, unfolded full, OF refl]
    have ready2: "v2_ready L C content d s (w_files ?w2)"
      using assms(7) p slices by (auto simp: v2_ready_def v2_slices_def)
    have ready3: "v2_ready L C content d ?s (w_files ?w3)"
      using p slices v2_mark [OF s off(2)] assms(3) by (auto simp: v2_ready_def v2_slices_def v2_setting_def)
    have "v2_chunk C request (v2_part_path d) (v2_state_path d) w
        = (Ok (), ?w3\<lparr>w_out := w_out ?w3 @ write_bincode_frame (tc_enc_ack2 C \<lparr>a2_index = t2_index request, a2_accepted = True,
             a2_complete = transfer_v2_complete ?s, a2_error = None\<rparr>)\<rparr>)"
      using False assms(1, 6, 7) read p(1) off(1) ensure [of ?w1 s] ensure [OF _ ready2] ensure [OF _ ready3]
      by (simp add: v2_chunk_def v2_chunk_lookup_def v2_chunk_write_def v2_chunk_record_def v2_chunk_ack_def save_transfer_v2_state_def calm)
    with ready3 v2_mark(2) [OF s off(2)] show ?thesis by auto
  qed
qed

lemma calm_copy [calm]:
  "w_faults w = [] \<Longrightarrow> w_files w source = Some b \<Longrightarrow> source \<noteq> destination \<Longrightarrow>
     copy_file source destination w = (Ok (length b), set_file destination (Some b) w)"
  by (simp add: copy_file_def calm splice_bytes_def set_file_def)

lemma calm_deliver:
  assumes "w_faults w = []" "v2_request_for L content d request" "v2_setting L C root content d" "uuid_tag tag'" "v2_stored L root content (w_files w)"
  shows "\<exists>w'. v2_deliver L C root tag' request (v2_state_path d) w = (Ok (), w')
    \<and> w_out w' = w_out w @ write_bincode_frame (tc_enc_ack2 C \<lparr>a2_index = 0, a2_accepted = True, a2_complete = True, a2_error = None\<rparr>)
    \<and> verified_at L (w_files w') d (sha256 L content)"
proof -
  from assms(5) obtain b where b: "w_files w (object_path root (sha256 L content)) = Some b" "sha256 L b = sha256 L content"
    by (auto simp: v2_stored_def verified_at_def)
  with assms(1, 4) v2_request_forD(1, 3) [OF assms(2)] materialize_temp_object [OF assms(4), of root "sha256 L content" d]
  show ?thesis by (auto simp: v2_deliver_def materialize_def hash_file_def v2_finalize_ack_def calm verified_at_def)
qed

lemma calm_commit:
  assumes "w_faults w = []" "v2_setting L C root content d" "uuid_tag tag" "w_files w (v2_part_path d) = Some content"
    and "\<not> v2_stored L root content (w_files w)"
  shows "\<exists>p w'. commit_verified_file L root tag (v2_part_path d) (sha256 L content) w = (Ok p, w')
    \<and> v2_stored L root content (w_files w') \<and> w_faults w' = [] \<and> w_out w' = w_out w"
  using assms v2_commit_paths [OF assms(3), where root = root and h = "sha256 L content" and d = d]
  by (cases "w_files w (object_path root (sha256 L content))")
    (auto simp: commit_verified_file_def commit_place_def hash_file_def Let_def calm v2_stored_def verified_at_def)

lemma calm_finalize:
  assumes "w_faults w = []" "v2_request_for L content d request" "v2_setting L C root content d" "uuid_tag tag" "uuid_tag tag'"
    and "v2_stored L root content (w_files w) \<or> v2_ready L C content d s (w_files w) \<and> (\<forall>i<v2_count content. transfer_v2_is_completed s i)"
  shows "\<exists>w'. v2_finalize L C root tag tag' request (v2_part_path d) (v2_state_path d) w = (Ok (), w')
    \<and> w_out w' = w_out w @ write_bincode_frame (tc_enc_ack2 C \<lparr>a2_index = 0, a2_accepted = True, a2_complete = True, a2_error = None\<rparr>)
    \<and> verified_at L (w_files w') d (sha256 L content)"
proof (cases "v2_stored L root content (w_files w)")
  case True
  with calm_deliver [OF assms(1-3, 5) True] assms(1) v2_request_forD(3) [OF assms(2)] show ?thesis
    by (auto simp: v2_finalize_def calm v2_stored_def)
next
  case False
  with assms(6) have ready: "v2_ready L C content d s (w_files w)" and all: "\<forall>i<v2_count content. transfer_v2_is_completed s i" by auto
  from ready all all_slices [of content] assms(3) have part: "w_files w (v2_part_path d) = Some content"
    by (fastforce simp: v2_ready_def v2_slices_def v2_setting_def)
  from ready all v2_complete_iff [of L content s] have complete: "transfer_v2_complete s" by (simp add: v2_ready_def)
  from calm_commit [OF assms(1, 3, 4) part False] obtain p w1 where
    commit: "commit_verified_file L root tag (v2_part_path d) (sha256 L content) w = (Ok p, w1)" "v2_stored L root content (w_files w1)"
    "w_faults w1 = []" "w_out w1 = w_out w" by blast
  from calm_deliver [OF commit(3) assms(2, 3, 5) commit(2)] commit False complete part assms(1)
    calm_ensure_ready [OF assms(1, 2) ready] v2_request_forD(3) [OF assms(2)]
  show ?thesis by (auto simp: v2_finalize_def v2_finalize_whole_def hash_file_def calm v2_stored_def)
qed

end
