(* ===== verification/Misaka_Streams.thy ===== *)
theory Misaka_Streams
  imports Misaka_Parallel
begin

text \<open>
  The service streams of a Sister as a whole: the dispatch on the preamble and the tunnel request of
  \<^verbatim>\<open>misaka-runtime/src/runtime.rs\<close>, and the sender of a parallel copy in \<^verbatim>\<open>misaka-cli/src/main.rs\<close>.
  Resolving and reaching the far end of a tunnel are parameters; the bytes it relays are not modelled.
\<close>

section \<open>The dispatch\<close>

text \<open>What is left on a probe stream is sent back, read by read, until it ends.\<close>

lemma stream_read_shorter: "w_in w \<noteq> [] \<Longrightarrow> length (w_in (snd (stream_read pick limit w))) < length (w_in w)"
  by (cases "w_in w") (auto simp: stream_read_def Let_def)

function echo_loop :: "(bytes \<Rightarrow> nat) \<Rightarrow> unit io" where
  "echo_loop pick w =
     (if w_in w = [] then (Ok (), w)
      else case stream_read pick (64 * 1024) w of
        (Inl e, w') \<Rightarrow> (Err e, w')
      | (Inr b, w') \<Rightarrow> (case io_write_all b w' of (Inl e, w'') \<Rightarrow> (Err e, w'') | (Inr _, w'') \<Rightarrow> echo_loop pick w''))"
  by pat_completeness auto

termination
proof (relation "measure (\<lambda>(pick, w). length (w_in w))", goal_cases)
  case (2 pick w r1 w1 b r2 w2 u)
  then show ?case using stream_read_shorter [of w pick "64 * 1024"] io_write_all_in [of b w1] by (metis in_measure prod.case snd_conv)
qed simp

declare echo_loop.simps [simp del]

definition receive_tunnel :: "lib \<Rightarrow> transfer_codec \<Rightarrow> ambient \<Rightarrow> (string \<Rightarrow> 'addr option) \<Rightarrow> ('addr \<Rightarrow> bool) \<Rightarrow> SisterNode option \<Rightarrow> world
      \<Rightarrow> (io_error + unit) \<times> SisterNode option \<times> world" where
  "receive_tunnel L C A parse connect =
     authorized_stream L A (io_read_frame (64 * 1024) (tc_dec_tunnel C))
       (\<lambda>request. (tu_authorization request, (case tu_authorization request of None \<Rightarrow> TunnelOpen | Some a \<Rightarrow> ca_permission a),
          [''remote='' @ tu_remote request], True))
       (\<lambda>request. case parse (tu_remote request) of
          None \<Rightarrow> io_fail InvalidInput
        | Some addr \<Rightarrow> if connect addr then io_return () else io_fail OtherError)"

definition echo_stream_after_greeting ::
    "lib \<Rightarrow> transfer_codec \<Rightarrow> ambient \<Rightarrow> (bytes \<Rightarrow> nat) \<Rightarrow> (string \<Rightarrow> 'addr option) \<Rightarrow> ('addr \<Rightarrow> bool)
      \<Rightarrow> string \<Rightarrow> string \<Rightarrow> string \<Rightarrow> bool \<Rightarrow> SisterNode option \<Rightarrow> world \<Rightarrow> (io_error + unit) \<times> SisterNode option \<times> world" where
  "echo_stream_after_greeting L C A pick parse connect root tag tag' probe_only node w =
     (case io_read_exact 4 w of
        (Inl _, w') \<Rightarrow> (Ok (), node, w')
      | (Inr preamble, w') \<Rightarrow>
          if preamble = TRANSFER_MAGIC
          then if probe_only then (Err PermissionDenied, node, w') else receive_transfer L C A pick node w'
          else if preamble = TRANSFER_V1_MAGIC
          then if probe_only then (Err PermissionDenied, node, w') else receive_transfer_v1 L C A node w'
          else if preamble = TRANSFER_V2_MAGIC
          then if probe_only then (Err PermissionDenied, node, w') else receive_transfer_v2 L C A root tag tag' node w'
          else if preamble = TUNNEL_MAGIC
          then if probe_only then (Err PermissionDenied, node, w') else receive_tunnel L C A parse connect node w'
          else (case io_then (io_write_all preamble) (echo_loop pick) w' of (r, w'') \<Rightarrow> (r, node, w'')))"

section \<open>The sender of a parallel copy\<close>

datatype copy_error = Copy_unreadable | Copy_rejected | Copy_invalid

definition v2_base_request :: "lib \<Rightarrow> bytes \<Rightarrow> string \<Rightarrow> CommandAuthorization option \<Rightarrow> TransferV2Request" where
  "v2_base_request L content destination authorization =
     \<lparr>t2_operation = Prepare, t2_destination = destination, t2_size = of_nat (length content), t2_digest = sha256 L content,
      t2_chunk_size = TRANSFER_V1_CHUNK_SIZE,
      t2_chunk_count = div_ceil (of_nat (length content)) (ucast TRANSFER_V1_CHUNK_SIZE),
      t2_index = 0, t2_offset = 0, t2_len = 0, t2_chunk_digest = replicate 32 0, t2_authorization = authorization\<rparr>"

text \<open>\<open>send_transfer_v2_chunk\<close>: the request of a chunk and the bytes that follow it\<close>

definition v2_chunk_request :: "TransferV2Request \<Rightarrow> bytes \<Rightarrow> u64 \<Rightarrow> TransferV2Request \<times> bytes" where
  "v2_chunk_request base content index =
     (let offset = index * ucast (t2_chunk_size base);
          len = min (saturating_sub (t2_size base) offset) (ucast (t2_chunk_size base));
          payload = take (unat len) (drop (unat offset) content)
      in (base\<lparr>t2_operation := Chunk, t2_index := index, t2_offset := offset, t2_len := ucast len,
               t2_chunk_digest := transfer_digest payload\<rparr>, payload))"

text \<open>
  A stream to the receiver: what is written to it, and what the receiver answers. \<open>serve\<close> is the far
  end with its state; each request opens a stream of its own.
\<close>

definition v2_stream_bytes :: "transfer_codec \<Rightarrow> TransferV2Request \<Rightarrow> bytes \<Rightarrow> bytes" where
  "v2_stream_bytes C request payload = TRANSFER_V2_MAGIC @ write_bincode_frame (tc_enc2 C request) @ payload"

definition read_cli_bincode_frame :: "(bytes \<Rightarrow> 'a option) \<Rightarrow> bytes \<Rightarrow> 'a option" where
  "read_cli_bincode_frame decode answer = (case read_frame (1024 * 1024) answer of Inl _ \<Rightarrow> None | Inr (b, _) \<Rightarrow> decode b)"

fun send_transfer_v2_chunks ::
    "transfer_codec \<Rightarrow> (bytes \<Rightarrow> 's \<Rightarrow> bytes \<times> 's) \<Rightarrow> (u64 \<Rightarrow> TransferV2Request) \<Rightarrow> bytes \<Rightarrow> u64 list \<Rightarrow> 's \<Rightarrow> (copy_error + unit) \<times> 's" where
  "send_transfer_v2_chunks C serve base content [] st = (Ok (), st)"
| "send_transfer_v2_chunks C serve base content (index # rest) st =
     (case v2_chunk_request (base index) content index of (request, payload) \<Rightarrow>
      (case serve (v2_stream_bytes C request payload) st of (answer, st') \<Rightarrow>
       (case read_cli_bincode_frame (tc_dec_ack2 C) answer of
          None \<Rightarrow> (Err Copy_unreadable, st')
        | Some ack \<Rightarrow>
            if a2_index ack \<noteq> index \<or> \<not> a2_accepted ack then (Err Copy_rejected, st')
            else send_transfer_v2_chunks C serve base content rest st')))"

text \<open>
  \<open>run_copy_v2\<close>: prepare, the missing chunks, finalize. The workers that send the chunks finish in any
  order, which \<open>schedule\<close> gives; every request has an authorization of its own.
\<close>

definition run_copy_v2 ::
    "lib \<Rightarrow> transfer_codec \<Rightarrow> (bytes \<Rightarrow> 's \<Rightarrow> bytes \<times> 's) \<Rightarrow> (TransferV2Operation \<Rightarrow> u64 \<Rightarrow> CommandAuthorization option) \<Rightarrow> (u64 list \<Rightarrow> u64 list)
      \<Rightarrow> bytes \<Rightarrow> string \<Rightarrow> 's \<Rightarrow> (copy_error + unit) \<times> 's" where
  "run_copy_v2 L C serve authorization schedule content destination st =
     (let base = (\<lambda>operation index. (v2_base_request L content destination (authorization operation index))\<lparr>t2_operation := operation\<rparr>);
          chunk_count = t2_chunk_count (base Prepare 0)
      in case serve (v2_stream_bytes C (base Prepare 0) []) st of (answer, st1) \<Rightarrow>
        (case read_cli_bincode_frame (tc_dec_resume2 C) answer of
           None \<Rightarrow> (Err Copy_unreadable, st1)
         | Some resume \<Rightarrow>
             if r2_error resume \<noteq> None then (Err Copy_rejected, st1)
             else if list_ex (\<lambda>index. index \<ge> chunk_count) (r2_completed_indices resume) then (Err Copy_invalid, st1)
             else
               let missing = filter (\<lambda>index. index \<notin> set (r2_completed_indices resume)) (chunk_range chunk_count)
               in case send_transfer_v2_chunks C serve (base Chunk) content (schedule missing) st1 of
                    (Inl e, st2) \<Rightarrow> (Err e, st2)
                  | (Inr _, st2) \<Rightarrow>
                      (case serve (v2_stream_bytes C (base Finalize 0) []) st2 of (answer, st3) \<Rightarrow>
                       (case read_cli_bincode_frame (tc_dec_ack2 C) answer of
                          None \<Rightarrow> (Err Copy_unreadable, st3)
                        | Some ack \<Rightarrow> if \<not> a2_accepted ack \<or> \<not> a2_complete ack then (Err Copy_rejected, st3) else (Ok (), st3)))))"

section \<open>Sender and receiver together\<close>

definition stream_remote ::
    "lib \<Rightarrow> transfer_codec \<Rightarrow> ambient \<Rightarrow> (bytes \<Rightarrow> nat) \<Rightarrow> (string \<Rightarrow> 'addr option) \<Rightarrow> ('addr \<Rightarrow> bool) \<Rightarrow> string \<Rightarrow> string \<Rightarrow> string
      \<Rightarrow> bytes \<Rightarrow> SisterNode option \<times> (string \<rightharpoonup> bytes) \<Rightarrow> bytes \<times> SisterNode option \<times> (string \<rightharpoonup> bytes)" where
  "stream_remote L C A pick parse connect root tag tag' sent st =
     (case echo_stream_after_greeting L C A pick parse connect root tag tag' False (fst st)
             \<lparr>w_files = snd st, w_faults = [], w_in = sent, w_out = []\<rparr> of
        (_, node, w) \<Rightarrow> (w_out w, node, w_files w))"

lemma ucast_chunk_size [simp]: "ucast TRANSFER_V1_CHUNK_SIZE = (65536 :: u64)"
  by (simp add: TRANSFER_V1_CHUNK_SIZE_def)

lemma v2_count_bound:
  assumes "length content \<le> 2 ^ 36"
  shows "v2_count content \<le> TRANSFER_V2_MAX_CHUNKS"
proof -
  have "length content div 65536 \<le> 2 ^ 36 div 65536" using assms by (intro div_le_mono)
  moreover have "length content mod 65536 \<noteq> 0 \<Longrightarrow> length content div 65536 \<noteq> 2 ^ 20"
  proof
    assume "length content mod 65536 \<noteq> 0" "length content div 65536 = 2 ^ 20"
    moreover have "length content = length content div 65536 * 65536 + length content mod 65536" by simp
    ultimately have "length content = 2 ^ 36 + length content mod 65536" by simp
    with assms \<open>length content mod 65536 \<noteq> 0\<close> show False by linarith
  qed
  ultimately have "unat (v2_count content) \<le> 1048576"
    using assms by (auto simp: unat_v2_count)
  then show ?thesis by (simp add: word_le_nat_alt TRANSFER_V2_MAX_CHUNKS_def)
qed

lemma v2_control_request:
  assumes "length content \<le> 2 ^ 36" "operation \<noteq> Chunk"
  shows "v2_request_for L content d ((v2_base_request L content d a)\<lparr>t2_operation := operation\<rparr>)"
  using assms v2_count_bound [OF assms(1)]
  by (simp add: v2_request_for_def v2_base_request_def validate_transfer_v2_request_def v2_count_def)

lemma v2_chunk_request_for:
  assumes "length content \<le> 2 ^ 36" "i < v2_count content"
    and "v2_chunk_request ((v2_base_request L content d a)\<lparr>t2_operation := Chunk\<rparr>) content i = (request, payload)"
  shows "v2_request_for L content d request" "t2_operation request = Chunk" "t2_index request = i" "payload = chunk_slice content i"
    "t2_chunk_digest request = transfer_digest (chunk_slice content i)" "t2_authorization request = a" "t2_destination request = d"
proof -
  have lt: "unat i * 65536 < length content"
    using assms(1, 2) by (intro ceil_mult_less) (simp add: word_less_nat_alt unat_v2_count)
  have off: "unat (i * 65536) = unat i * 65536" using lt assms(1) by (simp add: unat_word_ariths)
  let ?len = "min (saturating_sub (of_nat (length content)) (i * 65536)) 65536 :: u64"
  have len: "unat ?len = min (length content - unat i * 65536) 65536"
    using off assms(1) by (simp add: min_def word_le_nat_alt unat_saturating_sub unsigned_of_nat take_bit_nat_eq_self)
  then have "unat ?len < 2 ^ 32" by simp
  then have small: "ucast (ucast ?len :: u32) = ?len"
    by (intro word_unat_eq_iff [THEN iffD2]) (simp add: unsigned_ucast_eq unsigned_take_bit_eq take_bit_nat_eq_self)
  have payload: "take (unat ?len) (drop (unat (i * 65536)) content) = chunk_slice content i"
    unfolding len off chunk_slice_def by (simp add: min_def)
  have eqs: "payload = chunk_slice content i" "request = (v2_base_request L content d a)\<lparr>t2_operation := Chunk, t2_index := i,
      t2_offset := i * 65536, t2_len := ucast ?len, t2_chunk_digest := transfer_digest (chunk_slice content i)\<rparr>"
    using assms(3) payload by (auto simp: v2_chunk_request_def v2_base_request_def Let_def)
  show "payload = chunk_slice content i" by (fact eqs(1))
  show "v2_request_for L content d request"
    using assms(2) v2_count_bound [OF assms(1)] small unfolding eqs(2)
    by (simp add: v2_base_request_def v2_request_for_def validate_transfer_v2_request_def v2_count_def Let_def not_less)
  show "t2_operation request = Chunk" "t2_index request = i" "t2_chunk_digest request = transfer_digest (chunk_slice content i)"
    "t2_authorization request = a" "t2_destination request = d"
    unfolding eqs(2) by (simp_all add: v2_base_request_def)
qed

text \<open>The messages of a copy survive their encoding and fit the frames, and its state files can be read back.\<close>

definition frame_ok :: "('a \<Rightarrow> bytes) \<Rightarrow> (bytes \<Rightarrow> 'a option) \<Rightarrow> 'a \<Rightarrow> bool" where
  "frame_ok encode decode v \<longleftrightarrow> decode (encode v) = Some v \<and> length (encode v) \<le> 1024 * 1024"

definition v2_control :: "lib \<Rightarrow> bytes \<Rightarrow> string \<Rightarrow> (TransferV2Operation \<Rightarrow> u64 \<Rightarrow> CommandAuthorization option) \<Rightarrow> TransferV2Operation \<Rightarrow> u64 \<Rightarrow> TransferV2Request" where
  "v2_control L content d a op i = (v2_base_request L content d (a op i))\<lparr>t2_operation := op\<rparr>"

definition v2_messages_ok ::
    "lib \<Rightarrow> transfer_codec \<Rightarrow> bytes \<Rightarrow> string \<Rightarrow> (TransferV2Operation \<Rightarrow> u64 \<Rightarrow> CommandAuthorization option) \<Rightarrow> bool" where
  "v2_messages_ok L C content d a \<longleftrightarrow>
     (\<forall>op. op \<noteq> Chunk \<longrightarrow> frame_ok (tc_enc2 C) (tc_dec2 C) (v2_control L content d a op 0))
     \<and> (\<forall>i<v2_count content. frame_ok (tc_enc2 C) (tc_dec2 C) (fst (v2_chunk_request (v2_control L content d a Chunk i) content i)))
     \<and> (\<forall>P c. frame_ok (tc_enc_resume2 C) (tc_dec_resume2 C)
           \<lparr>r2_completed_indices = filter P (chunk_range (v2_count content)), r2_complete = c, r2_error = None\<rparr>)
     \<and> (\<forall>i c. i < v2_count content \<or> i = 0 \<longrightarrow>
           frame_ok (tc_enc_ack2 C) (tc_dec_ack2 C) \<lparr>a2_index = i, a2_accepted = True, a2_complete = c, a2_error = None\<rparr>)
     \<and> (\<forall>s. v2_state_of L content s \<longrightarrow> tc_dec_state2 C (tc_enc_state2 C s) = Some s)"

lemma io_read_written_frame:
  assumes "length b \<le> limit" "limit < 2 ^ 32" "decode b = Some v"
  shows "io_read_frame limit decode (w\<lparr>w_in := write_bincode_frame b @ rest\<rparr>) = (Ok v, w\<lparr>w_in := rest\<rparr>)"
proof -
  have "unat (bytes_word (word_bytes 4 (of_nat (length b) :: u32)) :: u32) = length b"
    using assms(1, 2) by (intro frame_header) simp
  with assms show ?thesis
    by (simp add: io_read_frame_def io_read_exact_def read_exact_def write_bincode_frame_def io_basic Let_def)
qed

lemma cli_read_written:
  assumes "frame_ok encode decode v"
  shows "read_cli_bincode_frame decode (write_bincode_frame (encode v)) = Some v"
proof -
  have "write_frame (1024 * 1024) (encode v) = Ok (write_bincode_frame (encode v))"
    using assms by (simp add: frame_ok_def write_frame_def write_bincode_frame_def)
  from read_written_frame [OF this, of "[]"] assms show ?thesis by (simp add: frame_ok_def read_cli_bincode_frame_def)
qed

lemma remote_v2:
  assumes "frame_ok (tc_enc2 C) (tc_dec2 C) request"
    and "authorize_stream_operation L A node (t2_authorization request) FileSend [''destination='' @ t2_destination request]
           (t2_operation request = Prepare) = (Ok (), node')"
    and "receive_transfer_v2_body L C root tag tag' request \<lparr>w_files = f, w_faults = [], w_in = payload, w_out = []\<rparr> = (r, w')"
  shows "stream_remote L C A pick parse connect root tag tag' (v2_stream_bytes C request payload) (node, f) = (w_out w', node', w_files w')"
proof -
  let ?w = "\<lparr>w_files = f, w_faults = [], w_in = payload, w_out = []\<rparr>"
  have magic: "length TRANSFER_V2_MAGIC = 4" "TRANSFER_V2_MAGIC \<noteq> TRANSFER_MAGIC" "TRANSFER_V2_MAGIC \<noteq> TRANSFER_V1_MAGIC"
    by (simp_all add: TRANSFER_V2_MAGIC_def TRANSFER_MAGIC_def TRANSFER_V1_MAGIC_def str_bytes_def)
  have pre: "io_read_exact 4 \<lparr>w_files = f, w_faults = [], w_in = v2_stream_bytes C request payload, w_out = []\<rparr>
      = (Ok TRANSFER_V2_MAGIC, ?w\<lparr>w_in := write_bincode_frame (tc_enc2 C request) @ payload\<rparr>)"
    using magic(1) by (simp add: io_read_exact_def read_exact_def v2_stream_bytes_def)
  have frame: "io_read_frame (1024 * 1024) (tc_dec2 C) (?w\<lparr>w_in := write_bincode_frame (tc_enc2 C request) @ payload\<rparr>)
      = (Ok request, ?w\<lparr>w_in := payload\<rparr>)"
    using assms(1) by (intro io_read_written_frame) (simp_all add: frame_ok_def)
  have "echo_stream_after_greeting L C A pick parse connect root tag tag' False node
      \<lparr>w_files = f, w_faults = [], w_in = v2_stream_bytes C request payload, w_out = []\<rparr> = (r, node', w')"
    using pre frame magic(2, 3) assms(2, 3)
    by (simp add: echo_stream_after_greeting_def receive_transfer_v2_def authorized_stream_def)
  then show ?thesis by (simp add: stream_remote_def)
qed

lemma send_chunks:
  assumes ok: "v2_messages_ok L C content d a" and setting: "v2_setting L C root content d"
    and auth: "\<And>i. authorize_stream_operation L A node (a Chunk i) FileSend [''destination='' @ d] False = (Ok (), node)"
  shows "\<forall>i\<in>set order. i < v2_count content \<Longrightarrow> v2_ready L C content d s f \<Longrightarrow>
    \<exists>s' f'. send_transfer_v2_chunks C (stream_remote L C A pick parse connect root tag tag') (v2_control L content d a Chunk) content order (node, f)
        = (Ok (), node, f')
      \<and> v2_ready L C content d s' f'
      \<and> (\<forall>j<v2_count content. transfer_v2_is_completed s' j \<longleftrightarrow> j \<in> set order \<or> transfer_v2_is_completed s j)"
proof (induction order arbitrary: s f)
  case Nil
  then show ?case by auto
next
  case (Cons i order)
  have len: "length content \<le> 2 ^ 36" using setting by (simp add: v2_setting_def)
  obtain request payload where mk: "v2_chunk_request (v2_control L content d a Chunk i) content i = (request, payload)"
    by force
  have i: "i < v2_count content" using Cons.prems(1) by simp
  note r = v2_chunk_request_for [OF len i mk [unfolded v2_control_def]]
  let ?w = "\<lparr>w_files = f, w_faults = [], w_in = payload, w_out = []\<rparr>"
  let ?ack = "\<lambda>c. \<lparr>a2_index = i, a2_accepted = True, a2_complete = c, a2_error = None\<rparr> :: TransferV2Ack"
  obtain s1 w1 c where run: "v2_chunk C request (v2_part_path d) (v2_state_path d) ?w = (Ok (), w1)"
    and out: "w_out w1 = write_bincode_frame (tc_enc_ack2 C (?ack c))" and ready: "v2_ready L C content d s1 (w_files w1)"
    and comp: "\<forall>j<v2_count content. transfer_v2_is_completed s1 j \<longleftrightarrow> j = i \<or> transfer_v2_is_completed s j"
    using calm_chunk [of ?w, OF _ r(1) setting r(2), of s] r(3-5) Cons.prems(2) by auto
  have body: "receive_transfer_v2_body L C root tag tag' request ?w = (Ok (), w1)"
    using run r(1, 2, 7) by (simp add: receive_transfer_v2_body_def v2_request_for_def)
  have "frame_ok (tc_enc2 C) (tc_dec2 C) request"
    using ok i mk unfolding v2_messages_ok_def by (metis fst_conv)
  from remote_v2 [OF this _ body] auth [of i]
  have serve: "stream_remote L C A pick parse connect root tag tag' (v2_stream_bytes C request payload) (node, f) = (w_out w1, node, w_files w1)"
    by (simp add: r(2, 6, 7))
  have "frame_ok (tc_enc_ack2 C) (tc_dec_ack2 C) (?ack c)" using ok i by (simp add: v2_messages_ok_def)
  from cli_read_written [OF this] have ack: "read_cli_bincode_frame (tc_dec_ack2 C) (w_out w1) = Some (?ack c)" unfolding out .
  from Cons.IH [OF _ ready] Cons.prems(1) obtain s' f' where IH:
    "send_transfer_v2_chunks C (stream_remote L C A pick parse connect root tag tag') (v2_control L content d a Chunk) content order (node, w_files w1)
      = (Ok (), node, f')" "v2_ready L C content d s' f'"
    "\<forall>j<v2_count content. transfer_v2_is_completed s' j \<longleftrightarrow> j \<in> set order \<or> transfer_v2_is_completed s1 j" by auto
  with mk serve ack comp show ?case by auto
qed

text \<open>The two control requests of the sender\<close>

lemma v2_control_sel:
  "t2_authorization (v2_control L content d a op i) = a op i" "t2_destination (v2_control L content d a op i) = d"
  "t2_operation (v2_control L content d a op i) = op" "t2_chunk_count (v2_control L content d a op i) = v2_count content"
  by (simp_all add: v2_control_def v2_base_request_def v2_count_def)

lemma serve_prepare:
  assumes "v2_messages_ok L C content d a" "v2_setting L C root content d" "v2_inv L C root content d f"
    and "authorize_stream_operation L A node (a Prepare 0) FileSend [''destination='' @ d] True = (Ok (), node')"
  shows "\<exists>resume answer f'. stream_remote L C A pick parse connect root tag tag'
        (v2_stream_bytes C (v2_control L content d a Prepare 0) []) (node, f) = (answer, node', f')
    \<and> read_cli_bincode_frame (tc_dec_resume2 C) answer = Some resume \<and> r2_error resume = None
    \<and> set (r2_completed_indices resume) \<subseteq> {i. i < v2_count content}
    \<and> (v2_stored L root content f' \<and> set (r2_completed_indices resume) = {i. i < v2_count content}
       \<or> (\<exists>s. v2_ready L C content d s f' \<and> set (r2_completed_indices resume) = {i. i < v2_count content \<and> transfer_v2_is_completed s i}))"
proof -
  let ?req = "v2_control L content d a Prepare 0"
  have req: "v2_request_for L content d ?req"
    using assms(2) unfolding v2_control_def by (intro v2_control_request) (simp_all add: v2_setting_def)
  obtain resume w1 where prep: "v2_prepare L C root ?req (v2_part_path d) (v2_state_path d) \<lparr>w_files = f, w_faults = [], w_in = [], w_out = []\<rparr> = (Ok (), w1)"
    and out: "w_out w1 = write_bincode_frame (tc_enc_resume2 C resume)" and err: "r2_error resume = None"
    and state: "v2_stored L root content (w_files w1) \<and> r2_completed_indices resume = chunk_range (v2_count content)
      \<or> (\<exists>s. v2_ready L C content d s (w_files w1) \<and> r2_completed_indices resume = completed_transfer_v2_indices s)"
    using calm_prepare [of "\<lparr>w_files = f, w_faults = [], w_in = [], w_out = []\<rparr>", OF _ req assms(2)] assms(3) by auto
  have serve: "stream_remote L C A pick parse connect root tag tag' (v2_stream_bytes C ?req []) (node, f) = (w_out w1, node', w_files w1)"
    using req prep assms(1, 4)
    by (intro remote_v2) (simp_all add: v2_control_sel receive_transfer_v2_body_def v2_request_for_def v2_messages_ok_def)
  have indices: "v2_stored L root content (w_files w1) \<and> set (r2_completed_indices resume) = {i. i < v2_count content}
      \<or> (\<exists>s. v2_ready L C content d s (w_files w1) \<and> set (r2_completed_indices resume) = {i. i < v2_count content \<and> transfer_v2_is_completed s i})"
    using state by (auto simp: completed_transfer_v2_indices_def v2_ready_def v2_state_of_def set_chunk_range)
  have "\<exists>P. r2_completed_indices resume = filter P (chunk_range (v2_count content))"
    using state by (auto simp: completed_transfer_v2_indices_def v2_ready_def v2_state_of_def intro: exI [of _ "\<lambda>_. True"])
  then obtain P where "resume = \<lparr>r2_completed_indices = filter P (chunk_range (v2_count content)), r2_complete = r2_complete resume, r2_error = None\<rparr>"
    using err by (metis TransferV2Resume.surjective old.unit.exhaust)
  then have "frame_ok (tc_enc_resume2 C) (tc_dec_resume2 C) resume" using assms(1) unfolding v2_messages_ok_def by metis
  from cli_read_written [OF this] serve err indices out show ?thesis
    by (intro exI [of _ resume] exI [of _ "w_out w1"] exI [of _ "w_files w1"]) auto
qed

lemma serve_finalize:
  assumes "v2_messages_ok L C content d a" "v2_setting L C root content d" "uuid_tag tag" "uuid_tag tag'"
    and "authorize_stream_operation L A node (a Finalize 0) FileSend [''destination='' @ d] False = (Ok (), node)"
    and "v2_stored L root content f \<or> (\<exists>s. v2_ready L C content d s f \<and> (\<forall>i<v2_count content. transfer_v2_is_completed s i))"
  shows "\<exists>ack answer f'. stream_remote L C A pick parse connect root tag tag'
        (v2_stream_bytes C (v2_control L content d a Finalize 0) []) (node, f) = (answer, node, f')
    \<and> read_cli_bincode_frame (tc_dec_ack2 C) answer = Some ack \<and> a2_accepted ack \<and> a2_complete ack \<and> verified_at L f' d (sha256 L content)"
proof -
  let ?req = "v2_control L content d a Finalize 0"
  let ?ack = "\<lparr>a2_index = 0, a2_accepted = True, a2_complete = True, a2_error = None\<rparr> :: TransferV2Ack"
  have req: "v2_request_for L content d ?req"
    using assms(2) unfolding v2_control_def by (intro v2_control_request) (simp_all add: v2_setting_def)
  obtain w1 where fin: "v2_finalize L C root tag tag' ?req (v2_part_path d) (v2_state_path d) \<lparr>w_files = f, w_faults = [], w_in = [], w_out = []\<rparr> = (Ok (), w1)"
    and out: "w_out w1 = write_bincode_frame (tc_enc_ack2 C ?ack)" and good: "verified_at L (w_files w1) d (sha256 L content)"
    using calm_finalize [of "\<lparr>w_files = f, w_faults = [], w_in = [], w_out = []\<rparr>", OF _ req assms(2-4)] assms(6) by auto
  have serve: "stream_remote L C A pick parse connect root tag tag' (v2_stream_bytes C ?req []) (node, f) = (w_out w1, node, w_files w1)"
    using req fin assms(1, 5)
    by (intro remote_v2) (simp_all add: v2_control_sel receive_transfer_v2_body_def v2_request_for_def v2_messages_ok_def)
  have "frame_ok (tc_enc_ack2 C) (tc_dec_ack2 C) ?ack" using assms(1) by (simp add: v2_messages_ok_def)
  from cli_read_written [OF this] serve good out show ?thesis
    by (intro exI [of _ ?ack] exI [of _ "w_out w1"] exI [of _ "w_files w1"]) simp
qed

text \<open>C14: A parallel copy that was interrupted anywhere is completed by running it again: whatever requests for
  the file were served before, in whatever interleaving and broken off by whatever faults, a run of the
  sender against the Sister in which nothing fails any more ends with success and with a destination that
  has the SHA-256 digest of the file (which is the file itself unless two contents with one digest are at
  hand), in whatever order the workers finish; it sends only the chunks that the receiver does not have.
  The conditions: the file has at most \<open>2^36\<close> bytes, every message, the list of the chunks the receiver has
  included, fits its frame, every request is authorized, and the destination is not the object in the
  content store.\<close>

theorem run_copy_v2_completes:
  assumes "v2_messages_ok L C content d a" "length content \<le> 2 ^ 36" "d \<noteq> object_path root (sha256 L content)"
    and "uuid_tag tag" "uuid_tag tag'"
    and "authorize_stream_operation L A node (a Prepare 0) FileSend [''destination='' @ d] True = (Ok (), node')"
    and "\<forall>op i. authorize_stream_operation L A node' (a op i) FileSend [''destination='' @ d] False = (Ok (), node')"
    and "\<forall>xs. set (schedule xs) = set xs"
    and "v2_trace L C root content d started W f"
  shows "\<exists>f'. run_copy_v2 L C (stream_remote L C A pick parse connect root tag tag') a schedule content d (node, f) = (Ok (), node', f')
    \<and> verified_at L f' d (sha256 L content)"
proof -
  have setting: "v2_setting L C root content d" using assms(1-3) by (simp add: v2_setting_def v2_messages_ok_def)
  have inv: "v2_inv L C root content d f" using v2_trace_conc [OF assms(9) setting] v2_conc_inv by blast
  let ?req = "v2_control L content d a"
  let ?serve = "stream_remote L C A pick parse connect root tag tag'"
  obtain resume answer f1 where prep: "?serve (v2_stream_bytes C (?req Prepare 0) []) (node, f) = (answer, node', f1)"
    "read_cli_bincode_frame (tc_dec_resume2 C) answer = Some resume" "r2_error resume = None"
    and sub: "set (r2_completed_indices resume) \<subseteq> {i. i < v2_count content}"
    and state: "v2_stored L root content f1 \<and> set (r2_completed_indices resume) = {i. i < v2_count content}
       \<or> (\<exists>s. v2_ready L C content d s f1 \<and> set (r2_completed_indices resume) = {i. i < v2_count content \<and> transfer_v2_is_completed s i})"
    using serve_prepare [OF assms(1) setting inv assms(6)] by blast
  let ?missing = "filter (\<lambda>i. i \<notin> set (r2_completed_indices resume)) (chunk_range (v2_count content))"
  obtain f2 where chunks: "send_transfer_v2_chunks C ?serve (?req Chunk) content (schedule ?missing) (node', f1) = (Ok (), node', f2)"
    and ready: "v2_stored L root content f2 \<or> (\<exists>s. v2_ready L C content d s f2 \<and> (\<forall>i<v2_count content. transfer_v2_is_completed s i))"
  proof (cases "v2_stored L root content f1 \<and> set (r2_completed_indices resume) = {i. i < v2_count content}")
    case True
    then have "set ?missing = {}" by (auto simp: set_chunk_range)
    then have "schedule ?missing = []" using assms(8) by (metis set_empty)
    with True that show ?thesis by simp
  next
    case False
    with state obtain s where s: "v2_ready L C content d s f1" "set (r2_completed_indices resume) = {i. i < v2_count content \<and> transfer_v2_is_completed s i}" by blast
    have "\<forall>i\<in>set (schedule ?missing). i < v2_count content" using assms(8) by (simp add: set_chunk_range)
    from send_chunks [OF assms(1) setting, of A node', OF _ this s(1)] assms(7) obtain s' f' where
      *: "send_transfer_v2_chunks C ?serve (?req Chunk) content (schedule ?missing) (node', f1) = (Ok (), node', f')"
      "v2_ready L C content d s' f'"
      "\<forall>j<v2_count content. transfer_v2_is_completed s' j \<longleftrightarrow> j \<in> set (schedule ?missing) \<or> transfer_v2_is_completed s j" by blast
    with that s(2) assms(8) show ?thesis by (auto simp: set_chunk_range)
  qed
  obtain ack answer3 f3 where fin: "?serve (v2_stream_bytes C (?req Finalize 0) []) (node', f2) = (answer3, node', f3)"
    "read_cli_bincode_frame (tc_dec_ack2 C) answer3 = Some ack" "a2_accepted ack" "a2_complete ack" "verified_at L f3 d (sha256 L content)"
    using serve_finalize [OF assms(1) setting assms(4, 5) _ ready] assms(7) by blast
  have "\<not> list_ex (\<lambda>index. index \<ge> v2_count content) (r2_completed_indices resume)"
    using sub by (auto simp: list_ex_iff)
  with prep chunks fin show ?thesis by (simp add: run_copy_v2_def v2_control_def [symmetric] Let_def v2_control_sel)
qed

definition no_authorization :: "TransferV2Operation \<Rightarrow> u64 \<Rightarrow> CommandAuthorization option" where
  "no_authorization op i = None"

text \<open>A codec that is right for the messages of one small copy\<close>

definition sample_transfer_codec :: transfer_codec where
  "sample_transfer_codec =
     \<lparr>tc_enc0 = \<lambda>_. [], tc_dec0 = \<lambda>_. None, tc_enc_result = \<lambda>_. [], tc_dec_result = \<lambda>_. None, tc_enc1 = \<lambda>_. [], tc_dec1 = \<lambda>_. None,
      tc_enc_resume1 = \<lambda>_. [], tc_dec_resume1 = \<lambda>_. None, tc_enc_chunk1 = \<lambda>_. [], tc_dec_chunk1 = \<lambda>_. None, tc_enc_ack1 = \<lambda>_. [],
      tc_dec_ack1 = \<lambda>_. None,
      tc_enc2 = \<lambda>r. [case t2_operation r of Prepare \<Rightarrow> 0 | Chunk \<Rightarrow> 1 | Finalize \<Rightarrow> 2],
      tc_dec2 = \<lambda>b. Some (if b = [0] then v2_control lib0 [1, 2, 3] ''out'' no_authorization Prepare 0
        else if b = [1] then fst (v2_chunk_request (v2_control lib0 [1, 2, 3] ''out'' no_authorization Chunk 0) [1, 2, 3] 0)
        else v2_control lib0 [1, 2, 3] ''out'' no_authorization Finalize 0),
      tc_enc_resume2 = \<lambda>r. [if r2_complete r then 1 else 0, if r2_completed_indices r = [] then 0 else 1],
      tc_dec_resume2 = \<lambda>b. Some \<lparr>r2_completed_indices = (if b ! 1 = 0 then [] else [0]), r2_complete = (b ! 0 = 1), r2_error = None\<rparr>,
      tc_enc_ack2 = \<lambda>a. [if a2_complete a then 1 else 0],
      tc_dec_ack2 = \<lambda>b. Some \<lparr>a2_index = 0, a2_accepted = True, a2_complete = (b = [1]), a2_error = None\<rparr>,
      tc_enc_tunnel = \<lambda>_. [], tc_dec_tunnel = \<lambda>_. None, tc_enc_state1 = \<lambda>_. [], tc_dec_state1 = \<lambda>_. None,
      tc_enc_state2 = s2_completed,
      tc_dec_state2 = \<lambda>b. Some \<lparr>s2_size = 3, s2_digest = sha256 lib0 [1, 2, 3], s2_chunk_size = TRANSFER_V1_CHUNK_SIZE, s2_chunk_count = 1, s2_completed = b\<rparr>\<rparr>"

lemma sample_count: "v2_count [1, 2, 3] = 1" "i < (1 :: u64) \<longleftrightarrow> i = 0" "chunk_range 1 = [0]"
  by (simp_all add: v2_count_def div_ceil_def chunk_range_def word_less_nat_alt unat_eq_zero)

lemma sample_messages: "v2_messages_ok lib0 sample_transfer_codec [1, 2, 3] ''out'' no_authorization"
proof -
  have ops: "(\<forall>op. op \<noteq> Chunk \<longrightarrow> Q op) \<longleftrightarrow> Q Prepare \<and> Q Finalize" for Q by (metis TransferV2Operation.exhaust TransferV2Operation.distinct(1, 5))
  have "s = \<lparr>s2_size = 3, s2_digest = sha256 lib0 [1, 2, 3], s2_chunk_size = TRANSFER_V1_CHUNK_SIZE, s2_chunk_count = 1, s2_completed = s2_completed s\<rparr>"
    if "v2_state_of lib0 [1, 2, 3] s" for s :: TransferV2State
    using that by (cases s) (simp add: v2_state_of_def sample_count)
  moreover have "t2_operation (fst (v2_chunk_request b content i)) = Chunk" for b content i by (simp add: v2_chunk_request_def Let_def)
  ultimately show ?thesis
    unfolding v2_messages_ok_def ops sample_count frame_ok_def
    by (auto simp: sample_transfer_codec_def v2_control_sel)
qed

theorem run_copy_v2_completes_witness:
  "\<exists>f'. run_copy_v2 lib0 sample_transfer_codec
      (stream_remote lib0 sample_transfer_codec (sample_ambient 50 50) length (\<lambda>_. None :: unit option) (\<lambda>_. False) ''o'' (replicate 36 CHR ''a'') (replicate 36 CHR ''b''))
      no_authorization rev [1, 2, 3] ''out'' (None, Map.empty) = (Ok (), None, f')
    \<and> verified_at lib0 f' ''out'' (sha256 lib0 [1, 2, 3])"
proof (rule run_copy_v2_completes [OF sample_messages])
  show "''out'' \<noteq> object_path ''o'' (sha256 lib0 [1, 2, 3])" using object_path_neqI [of 0 "''out''"] by simp
  show "v2_trace lib0 sample_transfer_codec ''o'' [1, 2, 3] ''out'' False {} Map.empty"
    by (rule v2_trace.start) (simp add: v2_inv_def v2_legible_def v2_recorded_def)
qed (simp_all add: uuid_tag_def no_authorization_def authorize_stream_operation_def require_stream_authorization_def)

end
