(* ===== verification/Misaka_Receivers.thy ===== *)
theory Misaka_Receivers
  imports Misaka_Streams
begin

text \<open>
  What the stream services of \<^verbatim>\<open>misaka-runtime/src/runtime.rs\<close> may do to the files of a Sister, for every
  input a peer can send and every fault: which files a stream can touch and with whose authorization,
  what a destination holds after a transfer was cut off, and how each protocol ends.
\<close>

section \<open>Loops\<close>

lemma v1_loop_files:
  assumes "\<And>state f. I f \<Longrightarrow> wp (v1_step C request part_path state_path state) (\<lambda>_. I) I f" "I (w_files w)"
  shows "I (w_files (snd (v1_loop C request part_path state_path state w)))"
  using assms
proof (induction C request part_path state_path state w rule: v1_loop.induct)
  case (1 C request part_path state_path state w)
  obtain r w1 where step: "v1_step C request part_path state_path state w = (r, w1)" by force
  have I: "I (w_files w1)" using wp_files [OF "1.prems"(1) [OF "1.prems"(2)], of state] by (simp add: step)
  show ?case
  proof (cases r)
    case (Inl e)
    with step I show ?thesis by (simp add: v1_loop.simps)
  next
    case (Inr state')
    have "s1_offset state' \<noteq> t1_size request \<Longrightarrow> I (w_files (snd (v1_loop C request part_path state_path state' w1)))"
      by (rule "1.IH" [OF step [symmetric] Inr _ "1.prems"(1) I])
    with step I Inr show ?thesis by (simp add: v1_loop.simps)
  qed
qed

lemma v0_loop_files:
  assumes "\<And>remaining digest f. I f \<Longrightarrow> wp (v0_step pick destination remaining digest) (\<lambda>_. I) I f" "I (w_files w)"
  shows "I (w_files (snd (v0_loop pick destination remaining digest w)))"
  using assms
proof (induction pick destination remaining digest w rule: v0_loop.induct)
  case (1 pick destination remaining digest w)
  obtain r w1 where step: "v0_step pick destination remaining digest w = (r, w1)" by force
  have I: "I (w_files w1)" using wp_files [OF "1.prems"(1) [OF "1.prems"(2)], of remaining digest] by (simp add: step)
  show ?case
  proof (cases "\<exists>remaining' digest'. r = Inr (remaining', digest') \<and> remaining \<noteq> 0")
    case True
    then obtain remaining' digest' where r: "r = Inr (remaining', digest')" and pos: "remaining \<noteq> 0" by blast
    have "I (w_files (snd (v0_loop pick destination remaining' digest' w1)))"
      by (rule "1.IH" [OF pos step [symmetric] r refl "1.prems"(1) I])
    with step r pos show ?thesis by (simp add: v0_loop.simps)
  next
    case False
    with step I "1.prems"(2) show ?thesis by (cases r) (auto simp: v0_loop.simps [of _ _ remaining] v0_loop.simps [of _ _ 0])
  qed
qed

lemma wp_filesI: "(\<And>w. w_files w = f \<Longrightarrow> I (w_files (snd (m w)))) \<Longrightarrow> wp m (\<lambda>_. I) I f"
  unfolding wp_def by (fastforce split: prod.splits sum.splits)

lemma wp_v1_loop:
  "(\<And>state f. I f \<Longrightarrow> wp (v1_step C request part_path state_path state) (\<lambda>_. I) I f) \<Longrightarrow> I f
    \<Longrightarrow> wp (v1_loop C request part_path state_path state) (\<lambda>_. I) I f"
  by (rule wp_filesI) (auto intro: v1_loop_files)

lemma wp_v0_loop:
  "(\<And>remaining digest f. I f \<Longrightarrow> wp (v0_step pick destination remaining digest) (\<lambda>_. I) I f) \<Longrightarrow> I f
    \<Longrightarrow> wp (v0_loop pick destination remaining digest) (\<lambda>_. I) I f"
  by (rule wp_filesI) (auto intro: v0_loop_files)

lemma wp_stream_read [wp_rules]: "(\<And>b. Q b f) \<Longrightarrow> wp (stream_read pick limit) Q E f"
  by (simp add: wp_def stream_read_def Let_def)

section \<open>The files a transfer can touch\<close>

definition v1_paths :: "TransferV1Request \<Rightarrow> string set" where
  "v1_paths request = {t1_destination request, v1_part_path (t1_destination request), v1_state_path (t1_destination request)}"

definition v2_paths :: "string \<Rightarrow> string \<Rightarrow> string \<Rightarrow> TransferV2Request \<Rightarrow> string set" where
  "v2_paths root tag tag' request =
     (let d = t2_destination request; h = t2_digest request
      in {d, v2_part_path d, v2_state_path d, v2_state_path d @ ''.tmp'', object_path root h, commit_temp root h tag, materialize_temp d tag'})"

lemma v0_confined:
  assumes "q \<notin> {tr_destination request}"
  shows "wp (receive_transfer_body C pick request) (\<lambda>_ f'. f' q = f q) (\<lambda>f'. f' q = f q) f"
  unfolding receive_transfer_body_def Let_def
  by (intro wp_rules wp_v0_loop [where I = "\<lambda>f'. f' q = f q", THEN wp_mono] | unfold v0_step_def
      | (insert assms, simp; fail))+

lemma wp_load_v1 [wp_rules]:
  assumes "E f" "f path = None \<Longrightarrow> Q None f" "\<And>b s. f path = Some b \<Longrightarrow> tc_dec_state1 C b = Some s \<Longrightarrow> Q (Some s) f"
  shows "wp (load_transfer_v1_state C path) Q E f"
  unfolding load_transfer_v1_state_def using assms by (intro wp_rules) simp_all

lemma wp_save_v1 [wp_rules]:
  "E f \<Longrightarrow> (\<And>n. E (f(path \<mapsto> take n (tc_enc_state1 C s)))) \<Longrightarrow> Q () (f(path \<mapsto> tc_enc_state1 C s))
    \<Longrightarrow> wp (save_transfer_v1_state C path s) Q E f"
  unfolding save_transfer_v1_state_def by (rule wp_write_file)

text \<open>Until the part file takes the place of the destination, only the part file and its state file change.\<close>

lemma wp_v1_resume_state:
  assumes "q \<noteq> part_path" "q \<noteq> state_path"
  shows "wp (v1_resume_state C request part_path state_path) (\<lambda>_ f'. f' q = f q) (\<lambda>f'. f' q = f q) f"
  unfolding v1_resume_state_def v1_recorded_def metadata_len_def Let_def
  by (intro wp_rules allI; insert assms; simp)

lemma wp_v1_loop_frame:
  assumes "q \<noteq> part_path" "q \<noteq> state_path" "f q = x"
  shows "wp (v1_loop C request part_path state_path state) (\<lambda>_ f'. f' q = x) (\<lambda>f'. f' q = x) f"
proof (rule wp_v1_loop [where I = "\<lambda>f'. f' q = x"])
  fix state and f :: "string \<rightharpoonup> bytes"
  assume "f q = x"
  then show "wp (v1_step C request part_path state_path state) (\<lambda>_ f'. f' q = x) (\<lambda>f'. f' q = x) f"
    unfolding v1_step_def Let_def by (intro wp_rules; insert assms(1, 2); simp)
qed (fact assms(3))

lemma v1_paths [simp]:
  "v1_part_path d \<noteq> d" "d \<noteq> v1_part_path d" "v1_state_path d \<noteq> d" "d \<noteq> v1_state_path d" "v1_part_path d \<noteq> v1_state_path d"
  by (simp_all add: v1_part_path_def v1_state_path_def)

definition replaced_by :: "lib \<Rightarrow> string \<Rightarrow> arr32 \<Rightarrow> bytes option \<Rightarrow> (string \<rightharpoonup> bytes) \<Rightarrow> bool" where
  "replaced_by L d h x f \<longleftrightarrow> f d = x \<or> f d = None \<or> verified_at L f d h"

lemma wp_finalize_part:
  assumes "f part = Some b" "sha256 L b = h" "part \<noteq> d" "f d = x"
  shows "wp (finalize_transfer_part part d) (\<lambda>_ f'. verified_at L f' d h) (replaced_by L d h x) f"
  unfolding finalize_transfer_part_def
  by (intro wp_rules allI; insert assms; simp add: replaced_by_def verified_at_def)

lemma wp_finalize_part_frame:
  assumes "q \<noteq> part" "q \<noteq> d"
  shows "wp (finalize_transfer_part part d) (\<lambda>_ f'. f' q = f q) (\<lambda>f'. f' q = f q) f"
  unfolding finalize_transfer_part_def by (intro wp_rules allI; insert assms; simp)

lemma v1_confined:
  assumes "q \<notin> v1_paths request"
  shows "wp (receive_transfer_v1_body L C request) (\<lambda>_ f'. f' q = f q) (\<lambda>f'. f' q = f q) f"
proof -
  let ?d = "t1_destination request"
  have q: "q \<noteq> ?d" "q \<noteq> v1_part_path ?d" "q \<noteq> v1_state_path ?d" using assms by (simp_all add: v1_paths_def)
  note steps = wp_v1_resume_state [OF q(2, 3), THEN wp_mono] wp_finalize_part_frame [OF q(2, 1), THEN wp_mono]
    wp_v1_loop_frame [OF q(2, 3), THEN wp_mono]
  show ?thesis unfolding receive_transfer_v1_body_def Let_def
    by (intro wp_if wp_bind wp_fail wp_return wp_create_dir_all wp_hash_file wp_ignore wp_remove_file wp_create_file wp_save_v1 wp_write_frame steps;
        insert q; simp)
qed

lemma v1_destination:
  assumes "x = f (t1_destination request)"
  shows "wp (receive_transfer_v1_body L C request) (\<lambda>_. replaced_by L (t1_destination request) (t1_digest request) x)
    (replaced_by L (t1_destination request) (t1_digest request) x) f"
proof -
  let ?d = "t1_destination request"
  note steps = wp_v1_resume_state [of ?d "v1_part_path ?d" "v1_state_path ?d", THEN wp_mono] wp_finalize_part [THEN wp_mono]
    wp_v1_loop_frame [of ?d "v1_part_path ?d" "v1_state_path ?d" _ x, THEN wp_mono]
  have start: "f ?d = x" using assms by simp
  show ?thesis unfolding receive_transfer_v1_body_def Let_def
    by (intro wp_if wp_bind wp_fail wp_return wp_create_dir_all wp_hash_file wp_ignore wp_remove_file wp_create_file wp_save_v1 wp_write_frame steps;
        insert start; (assumption | simp add: replaced_by_def verified_at_def)?)
qed

lemma wp_ensure_frame:
  assumes "q \<noteq> part" "q \<noteq> state" "q \<noteq> state @ ''.tmp''"
  shows "wp (ensure_transfer_v2_state C request part state) (\<lambda>_ f'. f' q = f q) (\<lambda>f'. f' q = f q) f"
  unfolding ensure_transfer_v2_state_def v2_start_over_def by (intro wp_rules; insert assms; simp)

lemma wp_chunk_frame:
  assumes "q \<noteq> part" "q \<noteq> state" "q \<noteq> state @ ''.tmp''"
  shows "wp (v2_chunk C request part state) (\<lambda>_ f'. f' q = f q) (\<lambda>f'. f' q = f q) f"
  unfolding v2_chunk_def v2_chunk_lookup_def v2_chunk_write_def v2_chunk_record_def v2_chunk_ack_def
  by (intro wp_if wp_bind wp_fail wp_return wp_read_exact wp_write_at wp_save_v2 wp_write_frame wp_ensure_frame [OF assms, THEN wp_mono];
      insert assms; simp)

lemma wp_prepare_frame:
  assumes "q \<noteq> part" "q \<noteq> state" "q \<noteq> state @ ''.tmp''"
  shows "wp (v2_prepare L C root request part state) (\<lambda>_ f'. f' q = f q) (\<lambda>f'. f' q = f q) f"
  unfolding v2_prepare_def
  by (intro wp_if wp_bind wp_contains wp_write_frame wp_ensure_frame [OF assms, THEN wp_mono]; insert assms; simp)

lemma wp_materialize_frame:
  assumes "q \<noteq> d" "q \<noteq> materialize_temp d tag"
  shows "wp (materialize L root tag h d) (\<lambda>_ f'. f' q = f q) (\<lambda>f'. f' q = f q) f"
  unfolding materialize_def by (intro wp_rules allI; insert assms; simp)

lemma wp_finalize_frame:
  assumes "q \<notin> v2_paths root tag tag' request"
  shows "wp (v2_finalize L C root tag tag' request (v2_part_path (t2_destination request)) (v2_state_path (t2_destination request)))
    (\<lambda>_ f'. f' q = f q) (\<lambda>f'. f' q = f q) f"
proof -
  let ?d = "t2_destination request"
  have q: "q \<noteq> ?d" "q \<noteq> v2_part_path ?d" "q \<noteq> v2_state_path ?d" "q \<noteq> v2_state_path ?d @ ''.tmp''"
    "q \<noteq> object_path root (t2_digest request)" "q \<noteq> commit_temp root (t2_digest request) tag" "q \<noteq> materialize_temp ?d tag'"
    using assms by (simp_all add: v2_paths_def Let_def)
  note steps = wp_ensure_frame [OF q(2-4), THEN wp_mono] wp_commit_frame [OF q(2, 5, 6), THEN wp_mono] wp_materialize_frame [OF q(1, 7), THEN wp_mono]
  show ?thesis unfolding v2_finalize_def v2_finalize_whole_def v2_deliver_def
    by (intro wp_if wp_bind wp_contains wp_finalize_ack wp_ignore wp_remove_file wp_hash_file steps; insert q; simp)
qed

lemma v2_confined:
  assumes "q \<notin> v2_paths root tag tag' request"
  shows "wp (receive_transfer_v2_body L C root tag tag' request) (\<lambda>_ f'. f' q = f q) (\<lambda>f'. f' q = f q) f"
proof -
  have q: "q \<noteq> v2_part_path (t2_destination request)" "q \<noteq> v2_state_path (t2_destination request)"
    "q \<noteq> v2_state_path (t2_destination request) @ ''.tmp''"
    using assms by (simp_all add: v2_paths_def Let_def)
  show ?thesis unfolding receive_transfer_v2_body_def Let_def
    using wp_prepare_frame [OF q] wp_chunk_frame [OF q] wp_finalize_frame [OF assms]
    by (auto intro: wp_fail split: sum.splits TransferV2Operation.splits)
qed

lemma v2_destination:
  assumes "t2_destination request \<noteq> object_path root (t2_digest request)"
    and "t2_destination request \<noteq> commit_temp root (t2_digest request) tag" "x = f (t2_destination request)"
  shows "wp (receive_transfer_v2_body L C root tag tag' request) (\<lambda>_. replaced_by L (t2_destination request) (t2_digest request) x)
    (replaced_by L (t2_destination request) (t2_digest request) x) f"
proof -
  let ?d = "t2_destination request"
  let ?R = "replaced_by L ?d (t2_digest request) x"
  have q: "?d \<noteq> v2_part_path ?d" "?d \<noteq> v2_state_path ?d" "?d \<noteq> v2_state_path ?d @ ''.tmp''" by simp_all
  have start: "f ?d = x" using assms(3) by simp
  have keep: "g ?d = x \<Longrightarrow> ?R g" for g by (simp add: replaced_by_def)
  note steps = wp_ensure_frame [OF q, THEN wp_mono] wp_commit_frame [OF q(1) assms(1, 2), THEN wp_mono]
    wp_materialize [of L root tag' "t2_digest request" ?d, THEN wp_mono]
  have "wp (v2_finalize L C root tag tag' request (v2_part_path ?d) (v2_state_path ?d)) (\<lambda>_. ?R) ?R f"
    unfolding v2_finalize_def v2_finalize_whole_def v2_deliver_def
    by (intro wp_if wp_bind wp_contains wp_finalize_ack wp_ignore wp_remove_file wp_hash_file steps;
        insert start; auto simp: replaced_by_def verified_at_def)
  moreover have "wp (v2_prepare L C root request (v2_part_path ?d) (v2_state_path ?d)) (\<lambda>_. ?R) ?R f"
    "wp (v2_chunk C request (v2_part_path ?d) (v2_state_path ?d)) (\<lambda>_. ?R) ?R f"
    by (rule wp_prepare_frame [OF q, THEN wp_mono] wp_chunk_frame [OF q, THEN wp_mono]; use start keep in simp)+
  ultimately show ?thesis unfolding receive_transfer_v2_body_def Let_def
    using keep [of f, OF start] by (auto intro: wp_fail split: sum.splits TransferV2Operation.splits)
qed

section \<open>Whose authorization a stream needs\<close>

text \<open>The request in the frame \<open>b\<close> after one of the three transfer preambles: its authorization, its
  destination and the files it can touch, which are the destination, for v1 and v2 also the part and
  the progress files next to it, and for v2 the object with the declared digest in the content store.\<close>

definition file_request ::
    "transfer_codec \<Rightarrow> string \<Rightarrow> string \<Rightarrow> string \<Rightarrow> bytes \<Rightarrow> bytes \<Rightarrow> (CommandAuthorization option \<times> string \<times> string set) option" where
  "file_request C root tag tag' preamble b =
     (if preamble = TRANSFER_MAGIC
      then map_option (\<lambda>r. (tr_authorization r, tr_destination r, {tr_destination r})) (tc_dec0 C b)
      else if preamble = TRANSFER_V1_MAGIC
      then map_option (\<lambda>r. (t1_authorization r, t1_destination r, v1_paths r)) (tc_dec1 C b)
      else if preamble = TRANSFER_V2_MAGIC
      then map_option (\<lambda>r. (t2_authorization r, t2_destination r, v2_paths root tag tag' r)) (tc_dec2 C b)
      else None)"

definition grants :: "lib \<Rightarrow> u64 \<Rightarrow> SisterNode \<Rightarrow> CommandAuthorization \<Rightarrow> Permission \<Rightarrow> string \<Rightarrow> bool" where
  "grants L now n a permission constraint \<longleftrightarrow>
     (\<exists>authority. NetworkAuthorityStore_load (sn_authority n) = Ok (Some authority) \<and> CommandAuthorization_verify L a authority now
        \<and> RevocationStore_is_revoked L authority (sn_network_id n) MembershipKind_Human (hmc_serial (ca_membership a)) (sn_revocations n) = Ok False)
     \<and> ca_permission a = permission \<and> ca_target a = Some (Principal_Sister (sn_id n)) \<and> ca_network_id a = sn_network_id n
     \<and> ca_constraints a = [constraint]"

lemma check_stream_grants:
  "check_stream_authorization L now n a permission [constraint] = Ok () \<Longrightarrow> grants L now n a permission constraint"
  by (auto simp: check_stream_authorization_def grants_def authorization_bound_to_local_def
      split: sum.splits option.splits if_splits bool.splits)

text \<open>The bytes begin with the frame of \<open>b\<close>.\<close>

definition framed :: "bytes \<Rightarrow> bytes \<Rightarrow> bool" where
  "framed sent b \<longleftrightarrow> (let n = unat (bytes_word (take 4 sent) :: u32) in 4 + n \<le> length sent \<and> b = take n (drop 4 sent))"

lemma io_read_frame_part:
  assumes "io_read_frame limit decode w = (Ok v, w')"
  shows "w_files w' = w_files w" "\<exists>b. framed (w_in w) b \<and> decode b = Some v"
proof -
  have front: "n \<le> length (w_in w1) \<and> b = take n (w_in w1) \<and> w_in w2 = drop n (w_in w1) \<and> w_files w2 = w_files w1"
    if "io_read_exact n w1 = (Ok b, w2)" for n w1 b w2
    using that by (auto simp: io_read_exact_def read_exact_def split: sum.splits if_splits)
  from assms show "w_files w' = w_files w" "\<exists>b. framed (w_in w) b \<and> decode b = Some v"
    by (auto simp: io_read_frame_def io_ok framed_def Let_def split: if_splits option.splits dest!: front)
qed

lemma authorized_stream_files:
  assumes "authorized_stream L A (io_read_frame limit decode) (\<lambda>request. (auth request, permission, [constraint request], nonce request)) body (Some n) w = (r, node', w')"
    and "\<not> sn_allow_unauthenticated n" "w_files w' q \<noteq> w_files w q"
  shows "\<exists>b request a w1. framed (w_in w) b \<and> decode b = Some request \<and> auth request = Some a
    \<and> grants L (am_now A) n a permission (constraint request) \<and> w_files w1 = w_files w \<and> w_files (snd (body request w1)) = w_files w'"
proof (cases "io_read_frame limit decode w")
  case (Pair v w1)
  show ?thesis
  proof (cases v)
    case (Inl e)
    have "w_files w1 = w_files w"
      using wp_read_frame [of "\<lambda>f. f = w_files w" "w_files w" "\<lambda>_ f. f = w_files w" limit decode] Pair Inl by (auto simp: wp_def)
    with assms Pair Inl show ?thesis by (simp add: authorized_stream_def)
  next
    case (Inr request)
    note frame = io_read_frame_part [OF Pair [unfolded Inr]]
    with assms Pair Inr obtain a where a: "auth request = Some a"
      "check_stream_authorization L (am_now A) n a permission [constraint request] = Ok ()" "w_files (snd (body request w1)) = w_files w'"
      by (auto simp: authorized_stream_def authorize_stream_operation_def require_stream_authorization_def
          split: sum.splits option.splits prod.splits if_splits)
    with frame check_stream_grants show ?thesis by blast
  qed
qed

section \<open>Transfer v0, whatever the reads return\<close>

lemma v0_loop_calm:
  assumes "w_faults w = []" "w_files w d = Some old"
  shows "v0_loop pick d n digest w =
    (if length (w_in w) < n then (Err UnexpectedEof, (set_file d (Some (old @ w_in w)) w)\<lparr>w_in := []\<rparr>)
     else (Ok (update_transfer_digest digest (take n (w_in w))), (set_file d (Some (old @ take n (w_in w))) w)\<lparr>w_in := drop n (w_in w)\<rparr>))"
  using assms
proof (induction n arbitrary: w digest old rule: less_induct)
  case (less n)
  have same: "(set_file d (Some old) w) = w" using less.prems(2) by (cases w) (auto simp: set_file_def)
  show ?case
  proof (cases "n = 0 \<or> w_in w = []")
    case True
    with same less.prems show ?thesis
      by (cases "n = 0") (auto simp: v0_loop.simps [of _ _ n] v0_loop.simps [of _ _ 0] v0_step_def stream_read_def Let_def calm update_transfer_digest_def)
  next
    case False
    define k where "k = max 1 (min (min n (64 * 1024)) (pick (w_in w)))"
    have k: "0 < k" "k \<le> n" using False by (auto simp: k_def)
    define m where "m = min k (length (w_in w))"
    have m: "take k (w_in w) = take m (w_in w)" "drop k (w_in w) = drop m (w_in w)" "0 < m" "m \<le> n" "length (take m (w_in w)) = m"
      using False k by (auto simp: m_def min_def)
    let ?w = "set_file d (Some (old @ take m (w_in w))) (w\<lparr>w_in := drop m (w_in w)\<rparr>)"
    have step: "v0_step pick d n digest w = (Ok (n - m, update_transfer_digest digest (take m (w_in w))), ?w)"
      using less.prems False m k_def by (simp add: v0_step_def stream_read_def Let_def calm)
    have "v0_loop pick d n digest w = v0_loop pick d (n - m) (update_transfer_digest digest (take m (w_in w))) ?w"
      using False step by (simp add: v0_loop.simps [of _ _ n])
    also have "\<dots> = (if length (w_in w) < n then (Err UnexpectedEof, (set_file d (Some (old @ w_in w)) w)\<lparr>w_in := []\<rparr>)
     else (Ok (update_transfer_digest digest (take n (w_in w))), (set_file d (Some (old @ take n (w_in w))) w)\<lparr>w_in := drop n (w_in w)\<rparr>))"
    proof -
      have le: "m \<le> length (w_in w)" by (simp add: m_def)
      have split: "take n (w_in w) = take m (w_in w) @ take (n - m) (drop m (w_in w))" using m(4) by (metis le_add_diff_inverse take_add)
      have w: "w_faults ?w = []" "w_files ?w d = Some (old @ take m (w_in w))" "w_in ?w = drop m (w_in w)" "n - m < n"
        using less.prems m by simp_all
      have eof: "length (drop m (w_in w)) < n - m \<longleftrightarrow> length (w_in w) < n" using le m(4) by auto
      have acc: "(set_file d (Some x) ?w)\<lparr>w_in := y\<rparr> = (set_file d (Some x) w)\<lparr>w_in := y\<rparr>" for x y by (simp add: set_file_def)
      have join: "(old @ take m (w_in w)) @ drop m (w_in w) = old @ w_in w"
        "(old @ take m (w_in w)) @ take (n - m) (drop m (w_in w)) = old @ take n (w_in w)"
        "drop (n - m) (drop m (w_in w)) = drop n (w_in w)" unfolding split using m(4) by simp_all
      show ?thesis unfolding less.IH [OF w(4, 1, 2)] w(3) eof acc join
        by (simp only: split update_transfer_digest_append)
    qed
    finally show ?thesis .
  qed
qed

text \<open>C34: Transfer v0, with nothing failing: for every way the transport cuts the stream into reads the
  outcome is the same. A stream that ends early leaves what has arrived in the place of the destination and
  reports the end of the stream; otherwise exactly the declared number of bytes is consumed, and the
  destination holds them if their checksum is the declared one and is deleted if not, which the answer says.\<close>

theorem v0_transfer_exact:
  assumes "w_faults w = []"
  shows "receive_transfer_body C pick request w =
    (let d = tr_destination request; n = unat (tr_size request); b = take n (w_in w)
     in if length (w_in w) < n then (Err UnexpectedEof, (set_file d (Some (w_in w)) w)\<lparr>w_in := []\<rparr>)
        else (Ok (), (set_file d (if transfer_digest b = tr_digest request then Some b else None) w)
          \<lparr>w_in := drop n (w_in w), w_out := w_out w @ write_bincode_frame (tc_enc_result C
             \<lparr>ts_success = (transfer_digest b = tr_digest request), ts_bytes_written = tr_size request, ts_digest = transfer_digest b,
              ts_error = (if transfer_digest b \<noteq> tr_digest request then Some ''SHA-256 digest mismatch'' else None)\<rparr>)\<rparr>))"
proof -
  have "v0_loop pick d n transfer_digest_start (set_file d (Some []) w) =
    (if length (w_in w) < n then (Err UnexpectedEof, (set_file d (Some (w_in w)) w)\<lparr>w_in := []\<rparr>)
     else (Ok (update_transfer_digest transfer_digest_start (take n (w_in w))), (set_file d (Some (take n (w_in w))) w)\<lparr>w_in := drop n (w_in w)\<rparr>))" for d n
    using v0_loop_calm [of "set_file d (Some []) w" d "[]" pick n transfer_digest_start] assms by (simp add: set_file_def)
  with assms show ?thesis
    by (auto simp: receive_transfer_body_def Let_def calm transfer_digest_def set_file_def)
qed

theorem v0_transfer_exact_witness:
  "(let w = \<lparr>w_files = Map.empty, w_faults = [], w_in = [1, 2], w_out = []\<rparr>;
        request = \<lparr>tr_destination = ''out'', tr_size = 3, tr_digest = replicate 32 0, tr_authorization = None\<rparr>
    in fst (receive_transfer_body sample_transfer_codec length request w) = Err UnexpectedEof
       \<and> w_files (snd (receive_transfer_body sample_transfer_codec length request w)) ''out'' = Some [1, 2])"
  unfolding Let_def by (subst v0_transfer_exact, simp, subst v0_transfer_exact, simp, simp add: Let_def)

section \<open>Streams that change files\<close>

lemma echo_files: "w_files (snd (echo_loop pick w)) = w_files w"
proof (induction pick w rule: echo_loop.induct)
  case (1 pick w)
  have io: "w_files (snd (io_write_all b w)) = w_files w" for b w
    by (rule wp_files [where P = "\<lambda>f. f = w_files w"]) (intro wp_rules; simp)
  show ?case
  proof (cases "w_in w = []")
    case True
    then show ?thesis by (simp add: echo_loop.simps)
  next
    case False
    obtain b w1 where read: "stream_read pick (64 * 1024) w = (Inr b, w1)" "w_files w1 = w_files w"
      by (auto simp: stream_read_def Let_def)
    obtain r w2 where out: "io_write_all b w1 = (r, w2)" by force
    then have files: "w_files w2 = w_files w" using io [of b w1] read(2) by simp
    show ?thesis
    proof (cases r)
      case (Inl e)
      with False read out files show ?thesis by (simp add: echo_loop.simps)
    next
      case (Inr u)
      from "1.IH" [OF False read(1) [symmetric] refl out [symmetric] Inr] False read out files Inr show ?thesis
        by (simp add: echo_loop.simps [of _ w])
    qed
  qed
qed

text \<open>The bytes on the stream are a preamble and directly after it the frame of a request whose
  authorization grants sending a file to the destination of that very request, and \<open>q\<close> is one of the
  files of that request.\<close>

definition file_grant :: "lib \<Rightarrow> transfer_codec \<Rightarrow> u64 \<Rightarrow> SisterNode \<Rightarrow> string \<Rightarrow> string \<Rightarrow> string \<Rightarrow> bytes \<Rightarrow> string \<Rightarrow> bool" where
  "file_grant L C now n root tag tag' sent q \<longleftrightarrow>
     (\<exists>b a d paths. 4 \<le> length sent \<and> framed (drop 4 sent) b
        \<and> file_request C root tag tag' (take 4 sent) b = Some (Some a, d, paths)
        \<and> grants L now n a FileSend (''destination='' @ d) \<and> q \<in> paths)"

lemma authorized_file_grant:
  assumes "authorized_stream L A (io_read_frame limit decode) (\<lambda>request. (auth request, FileSend, [''destination='' @ dest request], nonce request)) body (Some n) w = (r, node', w')"
    and "\<not> sn_allow_unauthenticated n" "w_files w' q \<noteq> w_files w q"
    and "\<And>b request. decode b = Some request \<Longrightarrow> file_request C root tag tag' preamble b = Some (auth request, dest request, paths request)"
    and "\<And>request f. q \<notin> paths request \<Longrightarrow> wp (body request) (\<lambda>_ f'. f' q = f q) (\<lambda>f'. f' q = f q) f"
    and "length preamble = 4"
  shows "file_grant L C (am_now A) n root tag tag' (preamble @ w_in w) q"
proof -
  from authorized_stream_files [OF assms(1-3)] obtain b request a w1
    where *: "framed (w_in w) b" "decode b = Some request" "auth request = Some a" "grants L (am_now A) n a FileSend (''destination='' @ dest request)"
      and files: "w_files w1 = w_files w" "w_files (snd (body request w1)) = w_files w'" by blast
  have "q \<in> paths request"
  proof (rule ccontr)
    assume "q \<notin> paths request"
    from wp_files [OF assms(5) [OF this, of "w_files w1"]] files assms(3) show False by simp
  qed
  with * assms(4) [OF *(2)] assms(6) show ?thesis unfolding file_grant_def by auto
qed

lemma magics: "length TRANSFER_MAGIC = 4" "length TRANSFER_V1_MAGIC = 4" "length TRANSFER_V2_MAGIC = 4"
  "TRANSFER_V1_MAGIC \<noteq> TRANSFER_MAGIC" "TRANSFER_V2_MAGIC \<noteq> TRANSFER_MAGIC" "TRANSFER_V2_MAGIC \<noteq> TRANSFER_V1_MAGIC"
  by (simp_all add: TRANSFER_MAGIC_def TRANSFER_V1_MAGIC_def TRANSFER_V2_MAGIC_def str_bytes_def)

lemma receive_file_grants:
  assumes "\<not> sn_allow_unauthenticated n" "w_files w' q \<noteq> w_files w q"
  shows "receive_transfer L C A pick (Some n) w = (r, node', w') \<Longrightarrow>
      file_grant L C (am_now A) n root tag tag' (TRANSFER_MAGIC @ w_in w) q"
    and "receive_transfer_v1 L C A (Some n) w = (r, node', w') \<Longrightarrow>
      file_grant L C (am_now A) n root tag tag' (TRANSFER_V1_MAGIC @ w_in w) q"
    and "receive_transfer_v2 L C A root tag tag' (Some n) w = (r, node', w') \<Longrightarrow>
      file_grant L C (am_now A) n root tag tag' (TRANSFER_V2_MAGIC @ w_in w) q"
  unfolding receive_transfer_def receive_transfer_v1_def receive_transfer_v2_def
  by (erule authorized_file_grant [OF _ assms]; (rule v0_confined v1_confined v2_confined; assumption)?; simp add: file_request_def magics)+

lemma tunnel_files: "receive_tunnel L C A parse connect node w = (r, node', w') \<Longrightarrow> w_files w' = w_files w"
proof -
  have frame: "io_read_frame limit decode w = (v, w1) \<Longrightarrow> w_files w1 = w_files w" for limit v w1 and decode :: "bytes \<Rightarrow> TunnelRequest option"
    using wp_files [OF wp_read_frame [of "\<lambda>f. f = w_files w" "w_files w" "\<lambda>_ f. f = w_files w" limit decode]] by (metis snd_conv)
  show "receive_tunnel L C A parse connect node w = (r, node', w') \<Longrightarrow> w_files w' = w_files w"
    by (auto simp: receive_tunnel_def authorized_stream_def io_fail_def io_return_def
        split: prod.splits sum.splits option.splits if_splits dest!: frame)
qed

text \<open>C13: On a Sister that requires authorization, a stream that changes any file consists of a transfer
  preamble and, directly after it, a request whose authorization verifies under the authority of the
  network, is not revoked, permits to send files, names this Sister and this network, and is bound to
  exactly the destination of that request. The files that can change are those of this request: the
  destination, for v1 and v2 its part and progress files, and for v2 the object in the content store with
  the digest the request declares, with the temporary files of these writes. This holds for every sequence
  of bytes on the stream and every fault of the file system.\<close>

theorem stream_files_authorized:
  assumes "echo_stream_after_greeting L C A pick parse connect root tag tag' probe_only (Some n) w = (r, node', w')"
    and "\<not> sn_allow_unauthenticated n" "w_files w' q \<noteq> w_files w q"
  shows "\<not> probe_only \<and> file_grant L C (am_now A) n root tag tag' (w_in w) q"
proof (cases "io_read_exact 4 w")
  case (Pair v w1)
  have read: "w_files w1 = w_files w" "v = Ok preamble \<Longrightarrow> w_in w = preamble @ w_in w1" for preamble
    using Pair by (auto simp: io_read_exact_def read_exact_def split: sum.splits if_splits)
  show ?thesis
  proof (cases v)
    case (Inl e)
    with Pair read assms show ?thesis by (simp add: echo_stream_after_greeting_def)
  next
    case (Inr preamble)
    have out: "w_files (snd (io_then (io_write_all preamble) (echo_loop pick) w1)) = w_files w1"
      by (rule wp_files [where P = "\<lambda>f. f = w_files w1"], intro wp_rules wp_filesI) (simp_all add: echo_files)
    have diff: "w_files w' q \<noteq> w_files w1 q" using assms(3) read(1) by simp
    note grants = receive_file_grants [OF assms(2) diff, of L C A]
    show ?thesis
      using assms(1) Pair Inr out diff read(2) [OF Inr]
      by (auto simp: echo_stream_after_greeting_def split: if_splits prod.splits intro: grants dest: tunnel_files)
  qed
qed

definition file_authorization :: "string \<Rightarrow> CommandAuthorization" where
  "file_authorization constraint = CommandAuthorization_issue lib0 7 sample_human sample_human_membership Operator FileSend
     (Some (Principal_Sister 2)) [constraint] 20 300 78 6"

lemma file_authorization_sel [simp]:
  "ca_network_id (file_authorization c) = 7" "ca_membership (file_authorization c) = sample_human_membership"
  "ca_target (file_authorization c) = Some (Principal_Sister 2)" "ca_constraints (file_authorization c) = [c]"
  "ca_permission (file_authorization c) = FileSend"
  by (simp_all add: file_authorization_def CommandAuthorization_issue_def Let_def)

lemma file_authorization_check: "check_stream_authorization lib0 50 sample_node (file_authorization c) FileSend [c] = Ok ()"
proof -
  have "CommandAuthorization_verify lib0 (file_authorization c) sample_authority 50"
    using issued_authorization_verifies [OF lib0_ed25519 sample_membership_valid(4, 2), of 6 7 FileSend 20 300 "Some (Principal_Sister 2)" "[c]" 78]
    by (simp add: file_authorization_def sample_membership_valid Role_allows_def sample_facts sample_human_def key_defs lib0_def)
  then show ?thesis
    by (simp add: check_stream_authorization_def authorization_bound_to_local_def sample_node_def sample_identity_def
        NetworkAuthorityStore_load_def RevocationStore_is_revoked_def RevocationStore_load_def)
qed

definition file_codec :: transfer_codec where
  "file_codec = sample_transfer_codec\<lparr>tc_dec0 := \<lambda>_. Some \<lparr>tr_destination = ''out'', tr_size = 0, tr_digest = replicate 32 0,
     tr_authorization = Some (file_authorization ''destination=out'')\<rparr>\<rparr>"

theorem stream_files_authorized_witness:
  "file_grant lib0 file_codec 50 sample_node ''o'' ''a'' ''b'' (TRANSFER_MAGIC @ [0, 0, 0, 0]) ''out''"
proof -
  let ?w = "\<lparr>w_files = [''out'' \<mapsto> [7]], w_faults = [], w_in = TRANSFER_MAGIC @ [0, 0, 0, 0], w_out = []\<rparr>"
  let ?run = "echo_stream_after_greeting lib0 file_codec (sample_ambient 50 50) length (\<lambda>_. None :: unit option) (\<lambda>_. False) ''o'' ''a'' ''b'' False (Some sample_node) ?w"
  obtain r node' w' where run: "?run = (r, node', w')" by (cases ?run)
  have node: "\<not> sn_allow_unauthenticated sample_node" "sn_nonces sample_node = Absent" "am_now (sample_ambient 50 50) = 50"
    "am_write_nonce (sample_ambient 50 50) = Written" by (simp_all add: sample_node_def sample_ambient_def)
  have "\<exists>n. authorize_stream_operation lib0 (sample_ambient 50 50) (Some sample_node) (Some (file_authorization ''destination=out'')) FileSend [''destination=out''] True = (Ok (), n)"
    by (simp add: authorize_stream_operation_def require_stream_authorization_def node file_authorization_check AuthorizationNonceStore_record_def)
  then have "w_files w' ''out'' \<noteq> Some [7]"
    using run
    by (auto simp: echo_stream_after_greeting_def io_read_exact_def read_exact_def TRANSFER_MAGIC_def str_bytes_def receive_transfer_def
        authorized_stream_def io_read_frame_def calm Let_def file_codec_def receive_transfer_body_def v0_loop.simps bytes_word_def split: if_splits)
  then show ?thesis
    using stream_files_authorized [OF run, of "''out''"] by (simp add: sample_node_def sample_ambient_def)
qed

section \<open>Destinations\<close>

text \<open>C15: A transfer of protocol v1 or v2 never leaves a part of a file in the place of its destination:
  whatever arrives on the stream and wherever the file system fails, the destination is afterwards what it
  was, is missing (where a platform cannot rename over an existing file), or has the SHA-256 digest that
  the request declares.\<close>

theorem destination_replaced_whole:
  assumes "t2_destination request \<noteq> object_path root (t2_digest request)" "t2_destination request \<noteq> commit_temp root (t2_digest request) tag"
  shows "replaced_by L (t2_destination request) (t2_digest request) (w_files w (t2_destination request))
      (w_files (snd (receive_transfer_v2_body L C root tag tag' request w)))
    \<and> replaced_by L (t1_destination request') (t1_digest request') (w_files w (t1_destination request'))
      (w_files (snd (receive_transfer_v1_body L C request' w)))"
  by (intro conjI wp_files v2_destination [OF assms refl] v1_destination [OF refl])

theorem destination_replaced_whole_witness:
  "replaced_by lib0 ''out'' (sha256 lib0 [1, 2, 3]) (Some [9])
     (w_files (snd (receive_transfer_v2_body lib0 sample_transfer_codec ''o'' ''a'' ''b'' (v2_control lib0 [1, 2, 3] ''out'' no_authorization Finalize 0)
        \<lparr>w_files = [''out'' \<mapsto> [9]], w_faults = [Fine, Cut 1], w_in = [], w_out = []\<rparr>)))"
  using destination_replaced_whole [of "v2_control lib0 [1, 2, 3] ''out'' no_authorization Finalize 0" "''o''" "''a''" lib0
      "\<lparr>w_files = [''out'' \<mapsto> [9]], w_faults = [Fine, Cut 1], w_in = [], w_out = []\<rparr>" sample_transfer_codec "''b''"]
    object_path_neqI [of 0 "''out''" "''o''" "sha256 lib0 [1, 2, 3]"]
  by (simp add: v2_control_def v2_base_request_def commit_temp_def path_join_def)

lemma wp_failD: "wp m (\<lambda>_ _. False) E (w_files w) \<Longrightarrow> \<not> is_ok (fst (m w)) \<and> E (w_files (snd (m w)))"
  by (cases "m w"; cases "fst (m w)") (auto simp: wp_def dest: spec [of _ w])

text \<open>C37: Protocol v1 rewrites its progress record in place. If that write is cut short so that the record
  cannot be read any more, every later v1 request for the destination fails and changes nothing: the
  transfer can be neither resumed nor started over.\<close>

theorem v1_torn_state_sticks:
  assumes "w_faults w = Cut n # faults" "tc_dec_state1 C (take n (tc_enc_state1 C s)) = None"
    and "w_files w' = w_files (snd (save_transfer_v1_state C (v1_state_path (t1_destination request)) s w))"
  shows "\<not> is_ok (fst (receive_transfer_v1_body L C request w'))
    \<and> w_files (snd (receive_transfer_v1_body L C request w')) = w_files w'"
proof -
  have torn: "w_files w' (v1_state_path (t1_destination request)) = Some (take n (tc_enc_state1 C s))"
    using assms(1, 3) by (simp add: save_transfer_v1_state_def write_file_def next_fault_def)
  have "wp (receive_transfer_v1_body L C request) (\<lambda>_ _. False) (\<lambda>f. f = w_files w') (w_files w')"
    unfolding receive_transfer_v1_body_def v1_resume_state_def v1_recorded_def Let_def
    by (intro wp_if wp_bind wp_fail wp_create_dir_all wp_load_v1) (use torn assms(2) in simp_all)
  then show ?thesis by (rule wp_failD)
qed

definition torn_codec :: transfer_codec where
  "torn_codec = sample_transfer_codec\<lparr>tc_enc_state1 := \<lambda>_. [1, 2],
     tc_dec_state1 := \<lambda>b. if length b = 2 then Some \<lparr>s1_size = 9, s1_digest = 0, s1_chunk_size = 65536, s1_offset = 0\<rparr> else None\<rparr>"

theorem v1_torn_state_sticks_witness:
  "\<not> is_ok (fst (receive_transfer_v1_body lib0 torn_codec
     \<lparr>t1_destination = ''out'', t1_size = 9, t1_digest = 0, t1_chunk_size = TRANSFER_V1_CHUNK_SIZE, t1_authorization = None\<rparr>
     \<lparr>w_files = [''out.misaka-part.json'' \<mapsto> [1]], w_faults = [], w_in = [], w_out = []\<rparr>))"
  using v1_torn_state_sticks [of "\<lparr>w_files = Map.empty, w_faults = [Cut 1], w_in = [], w_out = []\<rparr>" 1 "[]" torn_codec
      "\<lparr>s1_size = 9, s1_digest = 0, s1_chunk_size = 65536, s1_offset = 0\<rparr>"
      "\<lparr>w_files = [''out.misaka-part.json'' \<mapsto> [1]], w_faults = [], w_in = [], w_out = []\<rparr>"
      "\<lparr>t1_destination = ''out'', t1_size = 9, t1_digest = 0, t1_chunk_size = TRANSFER_V1_CHUNK_SIZE, t1_authorization = None\<rparr>" lib0]
  by (simp add: torn_codec_def save_transfer_v1_state_def write_file_def next_fault_def v1_state_path_def)

section \<open>The limits of a parallel copy\<close>

text \<open>C38: The answer to a prepare request lists every chunk the receiver has, eight bytes each, but the
  command line reads answers of at most one mebibyte. A copy of a file of 131071 chunks (about eight
  gibibytes) or more that the receiver already has therefore fails, although the receiver would only have
  to deliver it; the limit of the protocol is eight times as large.\<close>

theorem large_resume_unreadable:
  assumes "frame_ok (tc_enc2 C) (tc_dec2 C) (v2_control L content d a Prepare 0)"
    and "authorize_stream_operation L A node (a Prepare 0) FileSend [''destination='' @ d] True = (Ok (), node')"
    and "131070 * 65536 < length content" "length content \<le> 2 ^ 36" "v2_stored L root content f"
    and "\<forall>r. r2_error r = None \<longrightarrow> length (tc_enc_resume2 C r) = 10 + 8 * length (r2_completed_indices r)"
  shows "run_copy_v2 L C (stream_remote L C A pick parse connect root tag tag') a schedule content d (node, f) = (Err Copy_unreadable, node', f)"
proof -
  let ?req = "v2_control L content d a Prepare 0"
  let ?resume = "\<lparr>r2_completed_indices = chunk_range (v2_count content), r2_complete = True, r2_error = None\<rparr>"
  let ?answer = "write_bincode_frame (tc_enc_resume2 C ?resume)"
  have req: "v2_request_for L content d ?req" unfolding v2_control_def by (rule v2_control_request) (use assms(4) in simp_all)
  have "receive_transfer_v2_body L C root tag tag' ?req \<lparr>w_files = f, w_faults = [], w_in = [], w_out = []\<rparr>
      = (Ok (), \<lparr>w_files = f, w_faults = [], w_in = [], w_out = ?answer\<rparr>)"
    using req assms(5) v2_request_forD(3, 5) [OF req]
    by (simp add: receive_transfer_v2_body_def v2_request_for_def v2_control_sel v2_prepare_def calm v2_stored_def)
  from remote_v2 [OF assms(1) _ this] assms(2)
  have serve: "stream_remote L C A pick parse connect root tag tag' (v2_stream_bytes C ?req []) (node, f) = (?answer, node', f)"
    by (simp add: v2_control_sel)
  have count: "131071 \<le> unat (v2_count content)" "unat (v2_count content) \<le> 1048576"
  proof -
    show "unat (v2_count content) \<le> 1048576"
      using v2_count_bound [OF assms(4)] by (simp add: word_le_nat_alt TRANSFER_V2_MAX_CHUNKS_def)
    have "131070 < unat (v2_count content)" using assms(3, 4) div_less_ceil [of "131070 * 65536" "length content" 65536]
      by (simp add: unat_v2_count)
    then show "131071 \<le> unat (v2_count content)" by simp
  qed
  have len: "length (tc_enc_resume2 C ?resume) = 10 + 8 * unat (v2_count content)"
    using assms(6) by (simp add: chunk_range_def)
  then have "unat (bytes_word (word_bytes 4 (of_nat (length (tc_enc_resume2 C ?resume)) :: u32)) :: u32) = length (tc_enc_resume2 C ?resume)"
    using count by (intro frame_header) simp
  then have "read_cli_bincode_frame (tc_dec_resume2 C) ?answer = None"
    using len count by (simp add: read_cli_bincode_frame_def read_frame_def read_exact_def write_bincode_frame_def Let_def)
  with serve show ?thesis by (simp add: run_copy_v2_def v2_control_def [symmetric] Let_def)
qed

definition big_file :: bytes where
  "big_file = replicate (2 ^ 33) 0"

lemma length_big_file [simp]: "length big_file = 8589934592"
  by (simp only: big_file_def length_replicate) simp

definition resume_codec :: transfer_codec where
  "resume_codec = sample_transfer_codec\<lparr>tc_dec2 := \<lambda>_. Some (v2_control lib0 big_file ''out'' no_authorization Prepare 0),
     tc_enc_resume2 := \<lambda>r. replicate (10 + 8 * length (r2_completed_indices r)) 0\<rparr>"

theorem large_resume_unreadable_witness:
  "fst (run_copy_v2 lib0 resume_codec
      (stream_remote lib0 resume_codec (sample_ambient 50 50) length (\<lambda>_. None :: unit option) (\<lambda>_. False) ''o'' ''a'' ''b'')
      no_authorization rev big_file ''out'' (None, [object_path ''o'' (sha256 lib0 big_file) \<mapsto> big_file])) = Err Copy_unreadable"
  using large_resume_unreadable [of resume_codec lib0 big_file "''out''" no_authorization "sample_ambient 50 50" None None "''o''"
      "[object_path ''o'' (sha256 lib0 big_file) \<mapsto> big_file]" length "\<lambda>_. None :: unit option" "\<lambda>_. False" "''a''" "''b''" rev]
  by (simp add: resume_codec_def frame_ok_def sample_transfer_codec_def v2_control_sel no_authorization_def authorize_stream_operation_def
      require_stream_authorization_def v2_stored_def verified_at_def)

text \<open>C36: No request can make the receiver index its bitmap out of range: whatever the state file on the
  disk contains, the state with which a request is served has a bit for every chunk of the request.\<close>

theorem v2_bitmap_in_range:
  assumes "i < t2_chunk_count request"
    and "ensure_transfer_v2_state C request part_path state_path w = (Ok s, w')"
  shows "unat (i div 8) < length (s2_completed s) \<and> unat (i div 8) < length (s2_completed (transfer_v2_mark_completed s i))"
proof -
  have "wp (ensure_transfer_v2_state C request part_path state_path)
      (\<lambda>s _. length (s2_completed s) = transfer_v2_bitmap_len (t2_chunk_count request)) (\<lambda>_. True) (w_files w)"
    unfolding ensure_transfer_v2_state_def v2_start_over_def
    by (intro wp_rules) (auto simp: v2_fresh_state_def v2_state_matches_def split: option.splits if_splits)
  from wp_okD [OF this assms(2)] show ?thesis
    using div_8_less [OF assms(1)] by (simp add: transfer_v2_mark_completed_def bitmap_set_def)
qed

theorem v2_bitmap_in_range_witness:
  "unat ((0 :: u64) div 8) < length (s2_completed (v2_fresh_state (v2_control lib0 [1, 2, 3] ''out'' no_authorization Prepare 0)))"
proof -
  let ?req = "v2_control lib0 [1, 2, 3] ''out'' no_authorization Prepare 0"
  let ?w = "\<lparr>w_files = Map.empty, w_faults = [], w_in = [], w_out = []\<rparr>"
  have "\<exists>w'. ensure_transfer_v2_state sample_transfer_codec ?req ''p'' ''s'' ?w = (Ok (v2_fresh_state ?req), w')"
    by (simp add: ensure_transfer_v2_state_def load_transfer_v2_state_def v2_start_over_def save_transfer_v2_state_def calm)
  then obtain w' where "ensure_transfer_v2_state sample_transfer_codec ?req ''p'' ''s'' ?w = (Ok (v2_fresh_state ?req), w')" by blast
  from v2_bitmap_in_range [OF _ this, of 0] show ?thesis by (simp only: v2_control_sel sample_count)
qed

section \<open>Probes and tunnels\<close>

lemma echo_loop_calm:
  "w_faults w = [] \<Longrightarrow> echo_loop pick w = (Ok (), w\<lparr>w_in := [], w_out := w_out w @ w_in w\<rparr>)"
proof (induction pick w rule: echo_loop.induct)
  case (1 pick w)
  show ?case
  proof (cases "w_in w = []")
    case True
    then show ?thesis by (cases w) (simp add: echo_loop.simps)
  next
    case False
    obtain b s where read: "stream_read pick (64 * 1024) w = (Inr b, w\<lparr>w_in := s\<rparr>)" and s: "b @ s = w_in w"
      by (auto simp: stream_read_def Let_def)
    have out: "io_write_all b (w\<lparr>w_in := s\<rparr>) = (Inr (), w\<lparr>w_in := s, w_out := w_out w @ b\<rparr>)" using "1.prems" by (simp add: calm)
    from "1.IH" [OF False read [symmetric] refl out [symmetric] refl] False read out "1.prems" s [symmetric] show ?thesis
      by (simp add: echo_loop.simps [of _ w])
  qed
qed

text \<open>C35: The probe service ends and sends back exactly what it received: a stream whose first four bytes
  are no service preamble is answered, whatever the reads return, by its own bytes, and the node and its
  files stay as they are. A stream of fewer than four bytes is closed without an answer.\<close>

theorem probe_echoes:
  assumes "w_faults w = []" "take 4 (w_in w) \<notin> {TRANSFER_MAGIC, TRANSFER_V1_MAGIC, TRANSFER_V2_MAGIC, TUNNEL_MAGIC}"
  shows "echo_stream_after_greeting L C A pick parse connect root tag tag' probe_only node w =
    (if length (w_in w) < 4 then (Ok (), node, w) else (Ok (), node, w\<lparr>w_in := [], w_out := w_out w @ w_in w\<rparr>))"
  using assms by (auto simp: echo_stream_after_greeting_def io_read_exact_def read_exact_def calm echo_loop_calm)

theorem probe_echoes_witness:
  "echo_stream_after_greeting lib0 sample_transfer_codec (sample_ambient 50 50) length (\<lambda>_. None :: unit option) (\<lambda>_. False) ''o'' ''a'' ''b'' True None
     \<lparr>w_files = Map.empty, w_faults = [], w_in = [1, 2, 3, 4, 5], w_out = []\<rparr>
   = (Ok (), None, \<lparr>w_files = Map.empty, w_faults = [], w_in = [], w_out = [1, 2, 3, 4, 5]\<rparr>)"
  by (subst probe_echoes) (simp_all add: TRANSFER_MAGIC_def TRANSFER_V1_MAGIC_def TRANSFER_V2_MAGIC_def TUNNEL_MAGIC_def str_bytes_def)

lemma check_stream_iff:
  "check_stream_authorization L now n a permission [constraint] = Ok ()
    \<longleftrightarrow> grants L now n a permission constraint \<and> permission \<in> {FileSend, TunnelOpen, ShellOpen}"
  by (auto simp: check_stream_authorization_def grants_def authorization_bound_to_local_def
      split: sum.splits option.splits if_splits bool.splits)

lemma receive_tunnel_ok:
  assumes "tc_dec_tunnel C b = Some request" "length b \<le> 64 * 1024" "\<not> sn_allow_unauthenticated n" "tu_authorization request = Some a"
  shows "is_ok (fst (receive_tunnel L C A parse connect (Some n) (w\<lparr>w_in := write_bincode_frame b @ rest\<rparr>)))
    \<longleftrightarrow> check_stream_authorization L (am_now A) n a (ca_permission a) [''remote='' @ tu_remote request] = Ok ()
      \<and> is_ok (fst (AuthorizationNonceStore_record (am_write_nonce A) a (am_now_nonce A) (sn_nonces n)))
      \<and> (\<exists>addr. parse (tu_remote request) = Some addr \<and> connect addr)"
  using assms
  by (auto simp: receive_tunnel_def authorized_stream_def io_read_written_frame authorize_stream_operation_def require_stream_authorization_def
      io_fail_def io_return_def split: sum.splits prod.splits option.splits if_splits)

text \<open>C33: When a tunnel is opened. On a Sister that requires authorization it is opened exactly for a
  reachable address, with an authorization that is valid for this Sister, bound to exactly this address,
  and whose nonce is unspent in a nonce file that can be read and written; its permission may be any of
  the three stream permissions, that to send files included. The nonce is then spent: until the
  authorization expires the same request opens no second tunnel.\<close>

theorem tunnel_exact:
  assumes "\<not> sn_allow_unauthenticated n" "tc_dec_tunnel C b = Some request" "length b \<le> 64 * 1024"
    and "receive_tunnel L C A parse connect (Some n) (w\<lparr>w_in := write_bincode_frame b @ rest\<rparr>) = (r, n', w')"
  shows "(is_ok r \<longleftrightarrow> (\<exists>a addr. tu_authorization request = Some a \<and> ca_permission a \<in> {FileSend, TunnelOpen, ShellOpen}
          \<and> grants L (am_now A) n a (ca_permission a) (''remote='' @ tu_remote request)
          \<and> unspent (sn_nonces n) (ca_network_id a) (ca_nonce a) (am_now_nonce A) \<and> am_write_nonce A = Written
          \<and> parse (tu_remote request) = Some addr \<and> connect addr))
    \<and> (is_ok r \<longrightarrow> am_now_nonce A' \<le> ca_expires_at (the (tu_authorization request)) \<longrightarrow>
        \<not> is_ok (fst (receive_tunnel L C A' parse' connect' n' (v\<lparr>w_in := write_bincode_frame b @ rest'\<rparr>))))"
proof (cases "tu_authorization request")
  case None
  with assms show ?thesis
    by (auto simp: receive_tunnel_def authorized_stream_def io_read_written_frame authorize_stream_operation_def require_stream_authorization_def)
next
  case (Some a)
  let ?rec = "\<lambda>A n. is_ok (fst (AuthorizationNonceStore_record (am_write_nonce A) a (am_now_nonce A) (sn_nonces n)))"
  note opens = receive_tunnel_ok [OF assms(2, 3) _ Some]
  have "\<not> is_ok (fst (receive_tunnel L C A' parse' connect' n' (v\<lparr>w_in := write_bincode_frame b @ rest'\<rparr>)))"
    if ok: "is_ok r" and live: "am_now_nonce A' \<le> ca_expires_at a"
  proof -
    have rec: "?rec A n" and check: "check_stream_authorization L (am_now A) n a (ca_permission a) [''remote='' @ tu_remote request] = Ok ()"
      using opens [OF assms(1), where L = L and A = A and parse = parse and connect = connect and w = w and rest = rest] ok assms(4) by simp_all
    have n': "n' = Some (n\<lparr>sn_nonces := Holds (kept_nonces (am_now_nonce A) (sn_nonces n)
        @ [\<lparr>ne_network_id = ca_network_id a, ne_nonce = ca_nonce a, ne_expires_at = ca_expires_at a\<rparr>])\<rparr>)"
      using assms Some check nonce_record_file [OF rec]
      by (simp add: receive_tunnel_def authorized_stream_def io_read_written_frame authorize_stream_operation_def require_stream_authorization_def
          split: prod.splits)
    have "\<not> ?rec A' (the n')" using live unfolding n' by (simp add: nonce_record_ok unspent_def not_less)
    with opens [where n = "the n'" and L = L and A = A' and parse = parse' and connect = connect' and w = v and rest = rest'] n' assms(1) show ?thesis by simp
  qed
  moreover have "is_ok r \<longleftrightarrow> grants L (am_now A) n a (ca_permission a) (''remote='' @ tu_remote request)
      \<and> ca_permission a \<in> {FileSend, TunnelOpen, ShellOpen} \<and> ?rec A n \<and> (\<exists>addr. parse (tu_remote request) = Some addr \<and> connect addr)"
    using opens [OF assms(1), where L = L and A = A and parse = parse and connect = connect and w = w and rest = rest] assms(4) unfolding check_stream_iff by simp
  moreover have "ca_network_id a = hmc_network_id (ca_membership a)"
    if "grants L (am_now A) n a (ca_permission a) (''remote='' @ tu_remote request)"
    using that by (auto simp: grants_def CommandAuthorization_verify_def HumanMembershipCertificate_verify_def)
  ultimately show ?thesis using Some by (auto simp: nonce_record_ok)
qed

theorem tunnel_exact_witness:
  "let C = sample_transfer_codec\<lparr>tc_dec_tunnel := \<lambda>_. Some \<lparr>tu_remote = ''r'', tu_authorization = Some (file_authorization ''remote=r'')\<rparr>\<rparr>;
       w = \<lparr>w_files = Map.empty, w_faults = [], w_in = [], w_out = []\<rparr>\<lparr>w_in := write_bincode_frame [] @ []\<rparr>;
       first = receive_tunnel lib0 C (sample_ambient 50 50) Some (\<lambda>_. True) (Some sample_node) w
   in is_ok (fst first) \<and> \<not> is_ok (fst (receive_tunnel lib0 C (sample_ambient 60 60) Some (\<lambda>_. True) (fst (snd first)) w))"
proof -
  let ?C = "sample_transfer_codec\<lparr>tc_dec_tunnel := \<lambda>_. Some \<lparr>tu_remote = ''r'', tu_authorization = Some (file_authorization ''remote=r'')\<rparr>\<rparr>"
  let ?w = "\<lparr>w_files = Map.empty, w_faults = [], w_in = [], w_out = []\<rparr>\<lparr>w_in := write_bincode_frame [] @ []\<rparr>"
  let ?first = "receive_tunnel lib0 ?C (sample_ambient 50 50) Some (\<lambda>_. True) (Some sample_node) ?w"
  obtain r n' w' where run: "?first = (r, n', w')" by (cases ?first)
  have grant: "grants lib0 50 sample_node (file_authorization ''remote=r'') FileSend (''remote='' @ ''r'')"
    by (rule check_stream_grants) (use file_authorization_check [of "''remote=r''"] in simp)
  have node: "\<not> sn_allow_unauthenticated sample_node" "sn_nonces sample_node = Absent" by (simp_all add: sample_node_def)
  have expires: "ca_expires_at (file_authorization ''remote=r'') = 300" by (simp add: file_authorization_def CommandAuthorization_issue_def Let_def)
  show ?thesis
    using tunnel_exact [where A' = "sample_ambient 60 60" and parse' = Some and connect' = "\<lambda>_. True" and rest' = "[]"
        and v = "\<lparr>w_files = Map.empty, w_faults = [], w_in = [], w_out = []\<rparr>"
        and request = "\<lparr>tu_remote = ''r'', tu_authorization = Some (file_authorization ''remote=r'')\<rparr>", OF node(1) _ _ run]
      grant node expires run
    by (simp add: sample_ambient_def unspent_def)
qed

end
