(* ===== verification/Misaka_Session.thy ===== *)
theory Misaka_Session
  imports Misaka_Stores Misaka_Framing
begin

text \<open>
  \<^verbatim>\<open>misaka-runtime/src/authenticated_session.rs\<close>: the mutual ClientHello/ServerHello authentication of a
  stream. The endpoint the transport connected is what the transport reports (\<open>remote\<close>); the parser of
  endpoint ids, the clock and the random nonces are arguments. The revocation directory is the content
  of its file at the time of the check.
\<close>

record AuthenticatedSessionConfig =
  sc_network_id :: NetworkId
  sc_sister_id :: u64
  sc_sister_key :: SisterKeyPair
  sc_authority :: NetworkAuthority
  sc_membership_certificate :: MembershipCertificate
  sc_transport_binding :: TransportBinding
  sc_revocations :: "RevocationRecord list disk option"

datatype session_failure = Session_rejected | Revocations_unavailable

record AuthenticatedPeer =
  ap_sister_id :: SisterId
  ap_sister_public_key :: SisterPublicKey
  ap_membership_serial :: u64

definition membership_is_revoked :: "lib \<Rightarrow> AuthenticatedSessionConfig \<Rightarrow> MembershipKind \<Rightarrow> u64 \<Rightarrow> session_failure + bool" where
  "membership_is_revoked L local kind serial =
     (case sc_revocations local of
        None \<Rightarrow> Ok False
      | Some f \<Rightarrow>
          (case RevocationStore_is_revoked L (sc_authority local) (sc_network_id local) kind serial f of
             Inl _ \<Rightarrow> Err Revocations_unavailable | Inr b \<Rightarrow> Ok b))"

definition endpoint_matches_binding :: "(string \<Rightarrow> IrohEndpointId option) \<Rightarrow> string option \<Rightarrow> IrohEndpointId \<Rightarrow> bool" where
  "endpoint_matches_binding parse remote binding =
     (case remote of
        None \<Rightarrow> False
      | Some r \<Rightarrow>
          (case strip_prefix ''iroh://'' r of
             None \<Rightarrow> False
           | Some i \<Rightarrow> (case parse i of None \<Rightarrow> False | Some remote_id \<Rightarrow> remote_id = binding)))"

definition validate_local :: "lib \<Rightarrow> u64 \<Rightarrow> AuthenticatedSessionConfig \<Rightarrow> session_failure + unit" where
  "validate_local L now local =
     (if sc_network_id local \<noteq> na_network_id (sc_authority local)
        \<or> mc_network_id (sc_membership_certificate local) \<noteq> sc_network_id local
        \<or> mc_sister_id (sc_membership_certificate local) \<noteq> sc_sister_id local
        \<or> mc_sister_public_key (sc_membership_certificate local) \<noteq> SisterKeyPair_public_key L (sc_sister_key local)
        \<or> tb_network_id (sc_transport_binding local) \<noteq> sc_network_id local
        \<or> tb_sister_id (sc_transport_binding local) \<noteq> sc_sister_id local
        \<or> tb_sister_public_key (sc_transport_binding local) \<noteq> SisterKeyPair_public_key L (sc_sister_key local)
        \<or> \<not> MembershipCertificate_verify L (sc_membership_certificate local) (sc_authority local)
        \<or> \<not> MembershipCertificate_is_valid_at (sc_membership_certificate local) now
        \<or> \<not> TransportBinding_verify L (sc_transport_binding local)
      then Err Session_rejected
      else case membership_is_revoked L local MembershipKind_Sister (mc_serial (sc_membership_certificate local)) of
        Inl e \<Rightarrow> Err e
      | Inr True \<Rightarrow> Err Session_rejected
      | Inr False \<Rightarrow> Ok ())"

definition validate_client ::
    "lib \<Rightarrow> (string \<Rightarrow> IrohEndpointId option) \<Rightarrow> u64 \<Rightarrow> AuthenticatedSessionConfig \<Rightarrow> AuthenticatedClientHello \<Rightarrow> string option
      \<Rightarrow> session_failure + unit" where
  "validate_client L parse now local client remote =
     (if ch_protocol_version client \<noteq> AUTH_SESSION_PROTOCOL_VERSION
        \<or> ch_network_id client \<noteq> sc_network_id local
        \<or> ch_sister_public_key client \<noteq> mc_sister_public_key (ch_membership_certificate client)
        \<or> ch_sister_id client \<noteq> mc_sister_id (ch_membership_certificate client)
        \<or> mc_network_id (ch_membership_certificate client) \<noteq> sc_network_id local
        \<or> tb_network_id (ch_transport_binding client) \<noteq> sc_network_id local
        \<or> tb_sister_id (ch_transport_binding client) \<noteq> ch_sister_id client
        \<or> tb_sister_public_key (ch_transport_binding client) \<noteq> ch_sister_public_key client
        \<or> \<not> ClientHello_verify_signature L client
        \<or> \<not> MembershipCertificate_verify L (ch_membership_certificate client) (sc_authority local)
        \<or> \<not> MembershipCertificate_is_valid_at (ch_membership_certificate client) now
        \<or> \<not> TransportBinding_verify L (ch_transport_binding client)
      then Err Session_rejected
      else case membership_is_revoked L local MembershipKind_Sister (mc_serial (ch_membership_certificate client)) of
        Inl e \<Rightarrow> Err e
      | Inr revoked \<Rightarrow>
          if revoked \<or> \<not> endpoint_matches_binding parse remote (tb_iroh_endpoint_id (ch_transport_binding client))
          then Err Session_rejected else Ok ())"

definition validate_server ::
    "lib \<Rightarrow> (string \<Rightarrow> IrohEndpointId option) \<Rightarrow> u64 \<Rightarrow> AuthenticatedSessionConfig \<Rightarrow> AuthenticatedClientHello \<Rightarrow> AuthenticatedServerHello
      \<Rightarrow> u64 option \<Rightarrow> SisterPublicKey option \<Rightarrow> string option \<Rightarrow> session_failure + unit" where
  "validate_server L parse now local client server expected_id expected_key remote =
     (if sh_protocol_version server \<noteq> AUTH_SESSION_PROTOCOL_VERSION
        \<or> sh_network_id server \<noteq> sc_network_id local
        \<or> sh_client_nonce server \<noteq> ch_nonce client
        \<or> (case expected_id of None \<Rightarrow> False | Some i \<Rightarrow> sh_sister_id server \<noteq> i)
        \<or> (case expected_key of None \<Rightarrow> False | Some k \<Rightarrow> sh_sister_public_key server \<noteq> k)
        \<or> sh_sister_public_key server \<noteq> mc_sister_public_key (sh_membership_certificate server)
        \<or> sh_sister_id server \<noteq> mc_sister_id (sh_membership_certificate server)
        \<or> mc_network_id (sh_membership_certificate server) \<noteq> sc_network_id local
        \<or> tb_network_id (sh_transport_binding server) \<noteq> sc_network_id local
        \<or> tb_sister_id (sh_transport_binding server) \<noteq> sh_sister_id server
        \<or> tb_sister_public_key (sh_transport_binding server) \<noteq> sh_sister_public_key server
        \<or> \<not> ServerHello_verify_signature L server
        \<or> \<not> MembershipCertificate_verify L (sh_membership_certificate server) (sc_authority local)
        \<or> \<not> MembershipCertificate_is_valid_at (sh_membership_certificate server) now
        \<or> \<not> TransportBinding_verify L (sh_transport_binding server)
      then Err Session_rejected
      else case membership_is_revoked L local MembershipKind_Sister (mc_serial (sh_membership_certificate server)) of
        Inl e \<Rightarrow> Err e
      | Inr revoked \<Rightarrow>
          if revoked \<or> \<not> endpoint_matches_binding parse remote (tb_iroh_endpoint_id (sh_transport_binding server))
          then Err Session_rejected else Ok ())"

definition client_hello_of :: "lib \<Rightarrow> arr32 \<Rightarrow> AuthenticatedSessionConfig \<Rightarrow> AuthenticatedClientHello" where
  "client_hello_of L nonce local =
     ClientHello_sign L (sc_network_id local) (sc_sister_id local) (SisterKeyPair_public_key L (sc_sister_key local))
       (sc_membership_certificate local) (sc_transport_binding local) nonce (sc_sister_key local)"

text \<open>The server's half: the hello it answers with and the identity it has established.\<close>

definition authenticate_server ::
    "lib \<Rightarrow> (string \<Rightarrow> IrohEndpointId option) \<Rightarrow> u64 \<Rightarrow> arr32 \<Rightarrow> AuthenticatedSessionConfig \<Rightarrow> AuthenticatedClientHello \<Rightarrow> string option
      \<Rightarrow> session_failure + AuthenticatedServerHello \<times> AuthenticatedPeer" where
  "authenticate_server L parse now nonce local client remote =
     (case validate_local L now local of
        Inl e \<Rightarrow> Err e
      | Inr _ \<Rightarrow>
          (case validate_client L parse now local client remote of
             Inl e \<Rightarrow> Err e
           | Inr _ \<Rightarrow>
               Ok (ServerHello_sign L (sc_network_id local) (sc_sister_id local) (SisterKeyPair_public_key L (sc_sister_key local))
                     (sc_membership_certificate local) (sc_transport_binding local) (ch_nonce client) nonce (sc_sister_key local),
                   \<lparr>ap_sister_id = ch_sister_id client, ap_sister_public_key = ch_sister_public_key client,
                    ap_membership_serial = mc_serial (ch_membership_certificate client)\<rparr>)))"

text \<open>The client's half, with \<open>reply\<close> the hello read from the stream.\<close>

definition authenticate_client ::
    "lib \<Rightarrow> (string \<Rightarrow> IrohEndpointId option) \<Rightarrow> u64 \<Rightarrow> arr32 \<Rightarrow> AuthenticatedSessionConfig \<Rightarrow> u64 option \<Rightarrow> SisterPublicKey option
      \<Rightarrow> AuthenticatedServerHello \<Rightarrow> string option \<Rightarrow> session_failure + unit" where
  "authenticate_client L parse now nonce local expected_id expected_key reply remote =
     (case validate_local L now local of
        Inl e \<Rightarrow> Err e
      | Inr _ \<Rightarrow> validate_server L parse now local (client_hello_of L nonce local) reply expected_id expected_key remote)"

lemma ClientHello_sign_sel [simp]:
  "ch_protocol_version (ClientHello_sign L n i pk m b nonce key) = AUTH_SESSION_PROTOCOL_VERSION"
  "ch_network_id (ClientHello_sign L n i pk m b nonce key) = n" "ch_sister_id (ClientHello_sign L n i pk m b nonce key) = i"
  "ch_sister_public_key (ClientHello_sign L n i pk m b nonce key) = pk"
  "ch_membership_certificate (ClientHello_sign L n i pk m b nonce key) = m"
  "ch_transport_binding (ClientHello_sign L n i pk m b nonce key) = b" "ch_nonce (ClientHello_sign L n i pk m b nonce key) = nonce"
  by (simp_all add: ClientHello_sign_def Let_def)

lemma ServerHello_sign_sel [simp]:
  "sh_protocol_version (ServerHello_sign L n i pk m b cn nonce key) = AUTH_SESSION_PROTOCOL_VERSION"
  "sh_network_id (ServerHello_sign L n i pk m b cn nonce key) = n" "sh_sister_id (ServerHello_sign L n i pk m b cn nonce key) = i"
  "sh_sister_public_key (ServerHello_sign L n i pk m b cn nonce key) = pk"
  "sh_membership_certificate (ServerHello_sign L n i pk m b cn nonce key) = m"
  "sh_transport_binding (ServerHello_sign L n i pk m b cn nonce key) = b"
  "sh_client_nonce (ServerHello_sign L n i pk m b cn nonce key) = cn"
  by (simp_all add: ServerHello_sign_def Let_def)

lemma hello_signatures:
  assumes "ed25519_correct L"
  shows "ClientHello_verify_signature L (ClientHello_sign L n i (SisterKeyPair_public_key L key) m b nonce key)"
    and "ServerHello_verify_signature L (ServerHello_sign L n i (SisterKeyPair_public_key L key) m b cn nonce key)"
  using assms by (simp_all add: ClientHello_verify_signature_def ServerHello_verify_signature_def ClientHello_signing_bytes_def
      ServerHello_signing_bytes_def ClientHello_sign_def ServerHello_sign_def ClientHello_payload_def ServerHello_payload_def Let_def key_defs)

lemma validate_localD:
  assumes "validate_local L now local = Ok ()"
  shows "na_network_id (sc_authority local) = sc_network_id local" "mc_network_id (sc_membership_certificate local) = sc_network_id local"
    "mc_sister_id (sc_membership_certificate local) = sc_sister_id local"
    "mc_sister_public_key (sc_membership_certificate local) = SisterKeyPair_public_key L (sc_sister_key local)"
    "tb_network_id (sc_transport_binding local) = sc_network_id local" "tb_sister_id (sc_transport_binding local) = sc_sister_id local"
    "tb_sister_public_key (sc_transport_binding local) = SisterKeyPair_public_key L (sc_sister_key local)"
    "MembershipCertificate_verify L (sc_membership_certificate local) (sc_authority local)"
    "MembershipCertificate_is_valid_at (sc_membership_certificate local) now" "TransportBinding_verify L (sc_transport_binding local)"
  using assms by (auto simp: validate_local_def split: if_splits)

lemma hellos_accepted:
  assumes "ed25519_correct L" "validate_local L now c = Ok ()" "validate_local L now s = Ok ()" "sc_authority c = sc_authority s"
    and "membership_is_revoked L s MembershipKind_Sister (mc_serial (sc_membership_certificate c)) = Ok False"
    and "membership_is_revoked L c MembershipKind_Sister (mc_serial (sc_membership_certificate s)) = Ok False"
    and "endpoint_matches_binding parse client_remote (tb_iroh_endpoint_id (sc_transport_binding c))"
    and "endpoint_matches_binding parse server_remote (tb_iroh_endpoint_id (sc_transport_binding s))"
  shows "\<exists>reply. authenticate_server L parse now n2 s (client_hello_of L n1 c) client_remote
      = Ok (reply, \<lparr>ap_sister_id = sc_sister_id c, ap_sister_public_key = SisterKeyPair_public_key L (sc_sister_key c),
                    ap_membership_serial = mc_serial (sc_membership_certificate c)\<rparr>)
    \<and> authenticate_client L parse now n1 c (Some (sc_sister_id s)) (Some (SisterKeyPair_public_key L (sc_sister_key s))) reply server_remote = Ok ()"
proof -
  note c = validate_localD [OF assms(2)] and s = validate_localD [OF assms(3)]
  have net: "sc_network_id s = sc_network_id c" using c(1) s(1) assms(4) by simp
  have "validate_client L parse now s (client_hello_of L n1 c) client_remote = Ok ()"
    using c net assms(4, 5, 7) hello_signatures(1) [OF assms(1)]
    by (simp add: validate_client_def client_hello_of_def)
  then obtain reply where reply: "authenticate_server L parse now n2 s (client_hello_of L n1 c) client_remote
      = Ok (reply, \<lparr>ap_sister_id = sc_sister_id c, ap_sister_public_key = SisterKeyPair_public_key L (sc_sister_key c),
                    ap_membership_serial = mc_serial (sc_membership_certificate c)\<rparr>)"
    and r: "reply = ServerHello_sign L (sc_network_id s) (sc_sister_id s) (SisterKeyPair_public_key L (sc_sister_key s))
      (sc_membership_certificate s) (sc_transport_binding s) n1 n2 (sc_sister_key s)"
    using assms(3) by (simp add: authenticate_server_def client_hello_of_def)
  have "authenticate_client L parse now n1 c (Some (sc_sister_id s)) (Some (SisterKeyPair_public_key L (sc_sister_key s))) reply server_remote = Ok ()"
    using s net assms(2, 4, 6, 8) hello_signatures(2) [OF assms(1)]
    by (simp add: authenticate_client_def validate_server_def r client_hello_of_def)
  with reply show ?thesis by blast
qed

text \<open>C4: Two Sisters with consistent material of one authority always authenticate each other: the server
  establishes exactly the client's id, key and serial, and the client accepts the reply even when it
  pins the server's id and key, as long as neither membership is revoked in the other's list and the
  transport reports the endpoints their bindings name.\<close>

theorem handshake_succeeds:
  assumes "ed25519_correct L" "validate_local L now c = Ok ()" "validate_local L now s = Ok ()" "sc_authority c = sc_authority s"
    and "membership_is_revoked L s MembershipKind_Sister (mc_serial (sc_membership_certificate c)) = Ok False"
    and "membership_is_revoked L c MembershipKind_Sister (mc_serial (sc_membership_certificate s)) = Ok False"
    and "endpoint_matches_binding parse client_remote (tb_iroh_endpoint_id (sc_transport_binding c))"
    and "endpoint_matches_binding parse server_remote (tb_iroh_endpoint_id (sc_transport_binding s))"
  shows "\<exists>reply. authenticate_server L parse now n2 s (client_hello_of L n1 c) client_remote
      = Ok (reply, \<lparr>ap_sister_id = sc_sister_id c, ap_sister_public_key = SisterKeyPair_public_key L (sc_sister_key c),
                    ap_membership_serial = mc_serial (sc_membership_certificate c)\<rparr>)
    \<and> authenticate_client L parse now n1 c (Some (sc_sister_id s)) (Some (SisterKeyPair_public_key L (sc_sister_key s))) reply server_remote = Ok ()"
  by (rule hellos_accepted [OF assms])

definition sample_session :: AuthenticatedSessionConfig where
  "sample_session = \<lparr>sc_network_id = 7, sc_sister_id = 2, sc_sister_key = 5, sc_authority = sample_authority,
     sc_membership_certificate = sample_membership, sc_transport_binding = TransportBinding_sign lib0 7 2 11 1 5, sc_revocations = Some Absent\<rparr>"

lemma sample_session_valid: "10 \<le> t \<Longrightarrow> validate_local lib0 t sample_session = Ok ()"
  "membership_is_revoked lib0 sample_session MembershipKind_Sister 1 = Ok False"
  by (simp_all add: validate_local_def sample_session_def sample_facts TransportBinding_sign_verify membership_is_revoked_def
      RevocationStore_is_revoked_def RevocationStore_load_def key_defs lib0_def [THEN arg_cong [of _ _ ed_public]])

theorem handshake_succeeds_witness:
  "\<exists>reply. authenticate_client lib0 (\<lambda>_. Some 11) 50 21 sample_session (Some 2) (Some 5) reply (Some ''iroh://x'') = Ok ()"
proof -
  have matches: "endpoint_matches_binding (\<lambda>_. Some 11) (Some ''iroh://x'') (tb_iroh_endpoint_id (sc_transport_binding sample_session))"
    by (simp add: endpoint_matches_binding_def sample_session_def strip_prefix_def)
  have serial: "mc_serial (sc_membership_certificate sample_session) = 1" by (simp add: sample_session_def sample_facts)
  have "(10 :: u64) \<le> 50" by simp
  note valid = sample_session_valid(1) [OF this]
  have ids: "sc_sister_id sample_session = 2" "SisterKeyPair_public_key lib0 (sc_sister_key sample_session) = 5"
    by (simp_all add: sample_session_def key_defs lib0_def)
  from handshake_succeeds [OF lib0_ed25519 valid valid refl _ _ matches matches, of 22 21] serial sample_session_valid(2)
  show ?thesis unfolding ids by auto
qed

lemma validate_serverD:
  assumes "validate_server L parse now local client server i k remote = Ok ()"
  shows "sh_client_nonce server = ch_nonce client" "ServerHello_verify_signature L server"
    "MembershipCertificate_verify L (sh_membership_certificate server) (sc_authority local)"
    "sh_sister_public_key server = mc_sister_public_key (sh_membership_certificate server)"
    "membership_is_revoked L local MembershipKind_Sister (mc_serial (sh_membership_certificate server)) = Ok False"
  using assms by (auto simp: validate_server_def split: if_splits sum.splits)

lemma validate_clientD:
  assumes "validate_client L parse now local client remote = Ok ()"
  shows "ClientHello_verify_signature L client"
    "MembershipCertificate_verify L (ch_membership_certificate client) (sc_authority local)"
    "ch_sister_public_key client = mc_sister_public_key (ch_membership_certificate client)"
    "membership_is_revoked L local MembershipKind_Sister (mc_serial (ch_membership_certificate client)) = Ok False"
  using assms by (auto simp: validate_client_def split: if_splits sum.splits)

text \<open>C6: A ServerHello is good for one session only: if replies with the same signature, under the same
  key, are accepted in two sessions, then the client used the same nonce in both, or that key has a
  signature valid for two different messages.\<close>

theorem server_hello_fresh:
  assumes "bincode_injective L" "uuid_injective L"
    and "authenticate_client L parse now n1 local i1 k1 reply remote = Ok ()"
    and "authenticate_client L parse' now' n2 local' i2 k2 reply' remote' = Ok ()"
    and "sh_signature reply' = sh_signature reply" "sh_sister_public_key reply' = sh_sister_public_key reply"
  shows "n1 = n2 \<or> signature_collision L (sh_sister_public_key reply) (sh_signature reply)"
proof -
  have v: "validate_server L parse now local (client_hello_of L n1 local) reply i1 k1 remote = Ok ()"
    "validate_server L parse' now' local' (client_hello_of L n2 local') reply' i2 k2 remote' = Ok ()"
    using assms(3, 4) by (auto simp: authenticate_client_def split: sum.splits)
  have nonces: "sh_client_nonce reply = n1" "sh_client_nonce reply' = n2"
    using validate_serverD(1) [OF v(1)] validate_serverD(1) [OF v(2)] by (simp_all add: client_hello_of_def)
  have ver: "key_verify L (sh_sister_public_key reply) (bincode L (ServerHello_payload L reply)) (sh_signature reply)"
    "key_verify L (sh_sister_public_key reply) (bincode L (ServerHello_payload L reply')) (sh_signature reply')"
    using validate_serverD(2) [OF v(1)] validate_serverD(2) [OF v(2)] assms(6)
    by (simp_all add: ServerHello_verify_signature_def ServerHello_signing_bytes_def key_defs)
  show ?thesis
  proof (cases "reply = reply'")
    case True
    with nonces show ?thesis by simp
  next
    case False
    with server_hello.tamper [OF assms(1, 2) ver] assms(5) show ?thesis by simp
  qed
qed

lemma sample_reply:
  "\<exists>reply. authenticate_client lib0 (\<lambda>_. Some 11) 50 n sample_session None None reply (Some ''iroh://x'') = Ok ()"
proof -
  let ?r = "ServerHello_sign lib0 7 2 (SisterKeyPair_public_key lib0 5) sample_membership (TransportBinding_sign lib0 7 2 11 1 5) n 22 5"
  have "(10 :: u64) \<le> 50" by simp
  note valid = sample_session_valid(1) [OF this] and v = validate_localD [OF sample_session_valid(1) [OF this]]
  have "validate_server lib0 (\<lambda>_. Some 11) 50 sample_session (client_hello_of lib0 n sample_session) ?r None None (Some ''iroh://x'') = Ok ()"
    using hello_signatures(2) [OF lib0_ed25519, of 7 2 5 sample_membership "TransportBinding_sign lib0 7 2 11 1 5" n 22] sample_session_valid(2) v
    by (simp add: validate_server_def client_hello_of_def sample_session_def sample_facts endpoint_matches_binding_def strip_prefix_def)
  with valid show ?thesis by (auto simp: authenticate_client_def)
qed

theorem server_hello_fresh_witness:
  "\<exists>reply. authenticate_client lib0 (\<lambda>_. Some 11) 50 21 sample_session None None reply (Some ''iroh://x'') = Ok ()
     \<and> ((21 :: arr32) = 21 \<or> signature_collision lib0 (sh_sister_public_key reply) (sh_signature reply))"
proof -
  obtain reply where "authenticate_client lib0 (\<lambda>_. Some 11) 50 21 sample_session None None reply (Some ''iroh://x'') = Ok ()"
    using sample_reply by blast
  with server_hello_fresh [OF lib0_bincode lib0_uuid this this refl refl] show ?thesis by blast
qed

text \<open>C5: Revoking a Sister locks it out: once its serial is in the revocation file, neither as a client
  nor as a server is it accepted by a Sister that reads that file, whatever is appended to the file
  later and however its writes fail.\<close>

theorem revoked_sister_locked_out:
  assumes "RevocationStore_append L w authority r f = (Ok (), f')" "rr_membership_kind r = MembershipKind_Sister"
    and "sc_revocations local = Some (append_all L ops f')" "sc_network_id local = rr_network_id r"
  shows "(mc_serial (ch_membership_certificate client) = rr_membership_serial r \<longrightarrow>
      \<not> is_ok (authenticate_server L parse now n local client remote))
    \<and> (mc_serial (sh_membership_certificate reply) = rr_membership_serial r \<longrightarrow>
      \<not> is_ok (authenticate_client L parse now n local i k reply remote))"
proof -
  have "membership_is_revoked L local MembershipKind_Sister (rr_membership_serial r) \<noteq> Ok False"
    using appended_stays_revoked [OF assms(1), of "sc_authority local" ops] assms(2-4)
    by (auto simp: membership_is_revoked_def split: sum.splits)
  with validate_clientD(4) [of L parse now local client remote]
    validate_serverD(5) [of L parse now local "client_hello_of L n local" reply i k remote]
  show ?thesis by (auto simp: authenticate_server_def authenticate_client_def is_ok_iff split: sum.splits)
qed

theorem revoked_sister_locked_out_witness:
  "\<not> is_ok (authenticate_server lib0 (\<lambda>_. Some 11) 50 22 (sample_session\<lparr>sc_revocations := Some (append_all lib0 [] (Holds [sample_revocation]))\<rparr>)
     (client_hello_of lib0 21 sample_session) (Some ''iroh://x''))"
proof -
  have app: "RevocationStore_append lib0 Written sample_authority sample_revocation Absent = (Ok (), Holds [sample_revocation])"
    by (simp add: RevocationStore_append_def RevocationStore_load_def RevocationStore_save_def sample_revocation_def
        RevocationRecord_issue_verify sample_authority_def key_defs)
  have sel: "rr_membership_kind sample_revocation = MembershipKind_Sister" "rr_network_id sample_revocation = 7" "rr_membership_serial sample_revocation = 1"
    by (simp_all add: sample_revocation_def RevocationRecord_issue_def Let_def sample_facts)
  have "mc_serial (ch_membership_certificate (client_hello_of lib0 21 sample_session)) = 1"
    by (simp add: client_hello_of_def sample_session_def sample_facts)
  with revoked_sister_locked_out [OF app sel(1), of "sample_session\<lparr>sc_revocations := Some (append_all lib0 [] (Holds [sample_revocation]))\<rparr>" "[]"
      "client_hello_of lib0 21 sample_session"] sel
  show ?thesis by (simp add: sample_session_def)
qed

end
