(* ===== verification/Misaka_Connections.thy ===== *)
theory Misaka_Connections
  imports Misaka_Session Misaka_Node
begin

text \<open>
  Reaching another Sister: the handshake of a stream and the ranking of endpoints
  (\<^verbatim>\<open>misaka-network/src/lib.rs\<close>, \<^verbatim>\<open>resolver.rs\<close>), the connectors and the connection manager
  (\<^verbatim>\<open>misaka-runtime/src/connection.rs\<close>), and the registry of active streams
  (\<^verbatim>\<open>misaka-runtime/src/stream_registry.rs\<close>). What the transport answers is the record \<open>dial_env\<close>; the
  attempts of a race finish in any order.
\<close>

section \<open>The handshake of a stream\<close>

datatype NetworkError = Net_Bind | Net_Connect | Net_Handshake | Net_Tls | Net_UnsupportedVersion u8 u8
  | Net_NetworkMismatch NetworkId NetworkId | Net_Io | Net_UnsupportedEndpoint | Net_Iroh | Net_Authentication | Net_Closed

definition STREAM_MAGIC :: bytes where
  "STREAM_MAGIC = str_bytes ''MISAKA_STREAM''"

definition STREAM_PROTOCOL_VERSION :: u8 where
  "STREAM_PROTOCOL_VERSION = 1"

definition HANDSHAKE_LEN :: nat where
  "HANDSHAKE_LEN = length STREAM_MAGIC + 1 + 16"

definition validate_handshake :: "bytes \<Rightarrow> NetworkError + unit" where
  "validate_handshake handshake =
     (if take (length STREAM_MAGIC) handshake \<noteq> STREAM_MAGIC then Err Net_Handshake
      else let version = handshake ! length STREAM_MAGIC
           in if version \<noteq> STREAM_PROTOCOL_VERSION then Err (Net_UnsupportedVersion STREAM_PROTOCOL_VERSION version) else Ok ())"

definition validate_network_id :: "bytes \<Rightarrow> NetworkId \<Rightarrow> NetworkError + unit" where
  "validate_network_id handshake expected =
     (let actual = bytes_word (drop (length STREAM_MAGIC + 1) handshake)
      in if actual \<noteq> expected then Err (Net_NetworkMismatch expected actual) else Ok ())"

definition handshake_bytes :: "NetworkId \<Rightarrow> bytes" where
  "handshake_bytes network_id = STREAM_MAGIC @ [STREAM_PROTOCOL_VERSION] @ word_bytes 16 network_id"

definition read_handshake :: "bytes \<Rightarrow> NetworkError + bytes" where
  "read_handshake s = (case read_exact HANDSHAKE_LEN s of Inl _ \<Rightarrow> Err Net_Handshake | Inr (handshake, _) \<Rightarrow> Ok handshake)"

definition read_and_validate_handshake :: "bytes \<Rightarrow> NetworkId \<Rightarrow> NetworkError + unit" where
  "read_and_validate_handshake s network_id =
     (case read_handshake s of
        Inl e \<Rightarrow> Err e
      | Inr handshake \<Rightarrow>
          (case validate_handshake handshake of Inl e \<Rightarrow> Err e | Inr _ \<Rightarrow> validate_network_id handshake network_id))"

text \<open>
  The two ends. \<open>written\<close> says whether the write of this end succeeds; the client's request is
  \<open>handshake_bytes\<close>, and \<open>answer\<close> is what it then reads. The server returns what it has sent.
\<close>

definition client_handshake :: "NetworkId \<Rightarrow> bool \<Rightarrow> bytes \<Rightarrow> NetworkError + unit" where
  "client_handshake network_id written answer =
     (if \<not> written then Err Net_Handshake else read_and_validate_handshake answer network_id)"

definition server_handshake :: "NetworkId \<Rightarrow> bool \<Rightarrow> bytes \<Rightarrow> (NetworkError + unit) \<times> bytes" where
  "server_handshake network_id written request =
     (case read_and_validate_handshake request network_id of
        Inl e \<Rightarrow> (Err e, [])
      | Inr _ \<Rightarrow> if \<not> written then (Err Net_Handshake, []) else (Ok (), handshake_bytes network_id))"

section \<open>Endpoints and their ranking\<close>

datatype IpAddr = V4 u8 u8 u8 u8 | V6 "u16 list"

fun is_loopback :: "IpAddr \<Rightarrow> bool" where
  "is_loopback (V4 a b c d) = (a = 127)"
| "is_loopback (V6 segments) = (segments = [0, 0, 0, 0, 0, 0, 0, 1])"

fun is_private :: "IpAddr \<Rightarrow> bool" where
  "is_private (V4 a b c d) =
     (a = 10 \<or> a = 172 \<and> 16 \<le> b \<and> b \<le> 31 \<or> a = 192 \<and> b = 168 \<or> a = 169 \<and> b = 254)"
| "is_private (V6 segments) =
     (case segments of [] \<Rightarrow> False | s # _ \<Rightarrow> and s 0xfe00 = 0xfc00 \<or> and s 0xffc0 = 0xfe80)"

datatype PathKind = Lan | Direct | IrohPath | Relay

record EndpointCandidate =
  ec_endpoint :: NetworkEndpoint
  ec_kind :: PathKind
  ec_priority :: u8

text \<open>\<open>None\<close> is the panic of \<open>tcp\<close> on an endpoint that is not TCP; \<open>ip\<close> reads the address of a socket.\<close>

definition EndpointCandidate_tcp :: "(string \<Rightarrow> IpAddr) \<Rightarrow> NetworkEndpoint \<Rightarrow> EndpointCandidate option" where
  "EndpointCandidate_tcp ip endpoint =
     (case endpoint of
        Endpoint_Iroh _ \<Rightarrow> None
      | Endpoint_Tcp address \<Rightarrow>
          let kind = (if is_loopback (ip address) \<or> is_private (ip address) then Lan else Direct)
          in Some \<lparr>ec_endpoint = endpoint, ec_kind = kind,
               ec_priority = (case kind of Lan \<Rightarrow> 10 | Direct \<Rightarrow> 20 | IrohPath \<Rightarrow> 25 | Relay \<Rightarrow> 30)\<rparr>)"

definition for_endpoint :: "(string \<Rightarrow> IpAddr) \<Rightarrow> NetworkEndpoint \<Rightarrow> EndpointCandidate" where
  "for_endpoint ip endpoint =
     (case EndpointCandidate_tcp ip endpoint of
        Some candidate \<Rightarrow> candidate
      | None \<Rightarrow> \<lparr>ec_endpoint = endpoint, ec_kind = IrohPath, ec_priority = 25\<rparr>)"

definition rank_candidates :: "EndpointCandidate list \<Rightarrow> EndpointCandidate list" where
  "rank_candidates candidates = sort_key ec_priority candidates"

text \<open>The attempts of a race as they finish: the first success wins, otherwise the last error is left.\<close>

fun race :: "('c \<Rightarrow> 'e + 's) \<Rightarrow> 'e option \<Rightarrow> 'c list \<Rightarrow> 'e option + 's \<times> 'c" where
  "race attempt last_error [] = Err last_error"
| "race attempt last_error (candidate # finished) =
     (case attempt candidate of Inr stream \<Rightarrow> Ok (stream, candidate) | Inl e \<Rightarrow> race attempt (Some e) finished)"

definition race_connect ::
    "(EndpointCandidate list \<Rightarrow> EndpointCandidate list) \<Rightarrow> (NetworkEndpoint \<Rightarrow> NetworkError + 's) \<Rightarrow> EndpointCandidate list
      \<Rightarrow> NetworkError option + 's \<times> EndpointCandidate" where
  "race_connect finish connect candidates =
     (if candidates = [] then Err (Some Net_Handshake)
      else race (\<lambda>candidate. connect (ec_endpoint candidate)) None (finish (rank_candidates candidates)))"

section \<open>Connectors\<close>

datatype ConnectionError = UnknownSister SisterId | NoStreamEndpoint SisterId | InvalidEndpoint SisterId string
  | ConnectFailed SisterId NetworkError | AlreadyConnecting SisterId | NoPeerCertificate SisterId

text \<open>
  What the transport does: sessions are numbered; opening a TCP connection or a stream of a session either
  fails or says whether the request could be written and what is read after it; a peer answers a
  ClientHello by a ServerHello. \<open>de_in_time\<close> and \<open>de_closed\<close> concern the reuse of a session.
\<close>

record dial_env =
  de_ip :: "string \<Rightarrow> IpAddr"
  de_tcp :: "string \<Rightarrow> NetworkError + bool \<times> bytes"
  de_session :: "IrohEndpointId \<Rightarrow> NetworkError + nat"
  de_open :: "nat \<Rightarrow> NetworkError + bool \<times> bytes"
  de_hello :: "nat \<Rightarrow> AuthenticatedClientHello \<Rightarrow> NetworkError + AuthenticatedServerHello"
  de_remote :: "nat \<Rightarrow> string option"
  de_parse :: "string \<Rightarrow> IrohEndpointId option"
  de_now :: u64
  de_nonce :: "nat \<Rightarrow> arr32"
  de_finish :: "EndpointCandidate list \<Rightarrow> EndpointCandidate list"
  de_closed :: "nat \<Rightarrow> bool"
  de_in_time :: "nat \<Rightarrow> bool"

text \<open>A stream, with the session it belongs to and the two hellos exchanged on it, if any\<close>

record NetworkStream =
  ns_endpoint :: NetworkEndpoint
  ns_session :: "nat option"
  ns_hellos :: "(AuthenticatedClientHello \<times> AuthenticatedServerHello) option"

record ConnectedStream =
  cs_stream :: NetworkStream
  cs_iroh_session :: "nat option"

record SisterConnector =
  co_peers :: PeerService
  co_iroh_backend :: bool
  co_authenticated_session :: "AuthenticatedSessionConfig option"

definition direct_connect :: "dial_env \<Rightarrow> NetworkId \<Rightarrow> string \<Rightarrow> NetworkError + NetworkStream" where
  "direct_connect D network_id addr =
     (case de_tcp D addr of
        Inl e \<Rightarrow> Err e
      | Inr (written, answer) \<Rightarrow>
          (case client_handshake network_id written answer of
             Inl e \<Rightarrow> Err e
           | Inr _ \<Rightarrow> Ok \<lparr>ns_endpoint = Endpoint_Tcp addr, ns_session = None, ns_hellos = None\<rparr>))"

definition session_open_stream :: "dial_env \<Rightarrow> NetworkId \<Rightarrow> IrohEndpointId \<Rightarrow> nat \<Rightarrow> NetworkError + NetworkStream" where
  "session_open_stream D network_id endpoint session =
     (case de_open D session of
        Inl e \<Rightarrow> Err e
      | Inr (written, answer) \<Rightarrow>
          (case client_handshake network_id written answer of
             Inl e \<Rightarrow> Err e
           | Inr _ \<Rightarrow> Ok \<lparr>ns_endpoint = Endpoint_Iroh endpoint, ns_session = Some session, ns_hellos = None\<rparr>))"

text \<open>\<open>authenticate_client\<close> on a stream of a session: its hello is written, the answer read and validated.\<close>

definition authenticate_stream ::
    "lib \<Rightarrow> dial_env \<Rightarrow> AuthenticatedSessionConfig \<Rightarrow> u64 option \<Rightarrow> SisterPublicKey option \<Rightarrow> nat \<Rightarrow> NetworkStream \<Rightarrow> NetworkError + NetworkStream" where
  "authenticate_stream L D auth expected_id expected_key session stream =
     (let client = client_hello_of L (de_nonce D session) auth
      in if \<not> is_ok (validate_local L (de_now D) auth) then Err Net_Authentication
         else case de_hello D session client of
           Inl e \<Rightarrow> Err e
         | Inr reply \<Rightarrow>
             (case authenticate_client L (de_parse D) (de_now D) (de_nonce D session) auth expected_id expected_key reply (de_remote D session) of
                Inl _ \<Rightarrow> Err Net_Authentication
              | Inr _ \<Rightarrow> Ok (stream\<lparr>ns_hellos := Some (client, reply)\<rparr>)))"

definition connect_attempt :: "lib \<Rightarrow> dial_env \<Rightarrow> SisterConnector \<Rightarrow> SisterId \<Rightarrow> EndpointCandidate \<Rightarrow> NetworkError + ConnectedStream" where
  "connect_attempt L D c sister candidate =
     (let network_id = svc_network_id (co_peers c)
      in case ec_endpoint candidate of
           Endpoint_Tcp addr \<Rightarrow>
             map_sum id (\<lambda>stream. \<lparr>cs_stream = stream, cs_iroh_session = None\<rparr>) (direct_connect D network_id addr)
         | Endpoint_Iroh endpoint \<Rightarrow>
             if \<not> co_iroh_backend c then Err Net_UnsupportedEndpoint
             else (case de_session D endpoint of
                Inl e \<Rightarrow> Err e
              | Inr session \<Rightarrow>
                  (case session_open_stream D network_id endpoint session of
                     Inl e \<Rightarrow> Err e
                   | Inr stream \<Rightarrow>
                       (case co_authenticated_session c of
                          None \<Rightarrow> Ok \<lparr>cs_stream = stream, cs_iroh_session = Some session\<rparr>
                        | Some auth \<Rightarrow>
                            map_sum id (\<lambda>stream. \<lparr>cs_stream = stream, cs_iroh_session = Some session\<rparr>)
                              (authenticate_stream L D auth (Some sister) None session stream)))))"

text \<open>The endpoints that can be parsed, and the last error of those that cannot\<close>

fun parse_endpoints :: "endpoint_parsers \<Rightarrow> SisterId \<Rightarrow> string list \<Rightarrow> ConnectionError option \<Rightarrow> NetworkEndpoint list \<times> ConnectionError option" where
  "parse_endpoints E sister [] e = ([], e)"
| "parse_endpoints E sister (raw # raws) e =
     (case NetworkEndpoint_from_str E raw of
        None \<Rightarrow> parse_endpoints E sister raws (Some (InvalidEndpoint sister raw))
      | Some endpoint \<Rightarrow> (case parse_endpoints E sister raws e of (endpoints, e') \<Rightarrow> (endpoint # endpoints, e')))"

text \<open>
  \<open>SisterConnector::connect_to_sister_with_session\<close>. The last error exists because there is at least one
  candidate; \<open>UnknownSister\<close> stands in the branch that cannot be reached.
\<close>

definition connect_to_sister_with_session ::
    "lib \<Rightarrow> endpoint_parsers \<Rightarrow> dial_env \<Rightarrow> SisterConnector \<Rightarrow> SisterId \<Rightarrow> ConnectionError + ConnectedStream" where
  "connect_to_sister_with_session L E D c sister =
     (case hm_get (pt_peers (svc_registry (co_peers c))) sister of
        None \<Rightarrow> Err (UnknownSister sister)
      | Some peer \<Rightarrow>
          if ps_stream_endpoints peer = [] then Err (NoStreamEndpoint sister)
          else (case parse_endpoints E sister (ps_stream_endpoints peer) None of
             (endpoints, invalid_error) \<Rightarrow>
               if endpoints = []
               then Err (case invalid_error of Some e \<Rightarrow> e | None \<Rightarrow> NoStreamEndpoint sister)
               else (case race (connect_attempt L D c sister) None (de_finish D (rank_candidates (map (for_endpoint (de_ip D)) endpoints))) of
                  Inr (connection, _) \<Rightarrow> Ok connection
                | Inl (Some e) \<Rightarrow> Err (ConnectFailed sister e)
                | Inl None \<Rightarrow> Err (UnknownSister sister))))"

definition connect_to_sister :: "lib \<Rightarrow> endpoint_parsers \<Rightarrow> dial_env \<Rightarrow> SisterConnector \<Rightarrow> SisterId \<Rightarrow> ConnectionError + NetworkStream" where
  "connect_to_sister L E D c sister = map_sum id cs_stream (connect_to_sister_with_session L E D c sister)"

text \<open>\<open>IrohSisterConnector::connect_to_sister\<close>: the Iroh endpoints one after the other\<close>

fun iroh_connect_loop ::
    "endpoint_parsers \<Rightarrow> dial_env \<Rightarrow> NetworkId \<Rightarrow> SisterId \<Rightarrow> ConnectionError option \<Rightarrow> string list \<Rightarrow> ConnectionError option + NetworkStream" where
  "iroh_connect_loop E D network_id sister last_error [] = Err last_error"
| "iroh_connect_loop E D network_id sister last_error (raw # raws) =
     (case NetworkEndpoint_from_str E raw of
        None \<Rightarrow> iroh_connect_loop E D network_id sister (Some (InvalidEndpoint sister raw)) raws
      | Some (Endpoint_Tcp _) \<Rightarrow> iroh_connect_loop E D network_id sister last_error raws
      | Some (Endpoint_Iroh endpoint) \<Rightarrow>
          (case (case de_session D endpoint of Inl e \<Rightarrow> Err e | Inr session \<Rightarrow> session_open_stream D network_id endpoint session) of
             Inr stream \<Rightarrow> Ok stream
           | Inl e \<Rightarrow> iroh_connect_loop E D network_id sister (Some (ConnectFailed sister e)) raws))"

definition iroh_connect_to_sister :: "endpoint_parsers \<Rightarrow> dial_env \<Rightarrow> PeerService \<Rightarrow> SisterId \<Rightarrow> ConnectionError + NetworkStream" where
  "iroh_connect_to_sister E D peers sister =
     (case hm_get (pt_peers (svc_registry peers)) sister of
        None \<Rightarrow> Err (UnknownSister sister)
      | Some peer \<Rightarrow>
          if ps_stream_endpoints peer = [] then Err (NoStreamEndpoint sister)
          else (case iroh_connect_loop E D (svc_network_id peers) sister None (ps_stream_endpoints peer) of
             Inr stream \<Rightarrow> Ok stream
           | Inl (Some e) \<Rightarrow> Err e
           | Inl None \<Rightarrow> Err (NoStreamEndpoint sister)))"

text \<open>
  \<open>SecureSisterConnector::connect_to_sister\<close>. \<open>config\<close> is the TLS client made from the pinned certificate,
  \<open>tls\<close> its connection to an endpoint; \<open>None\<close> is the panic of \<open>EndpointCandidate::tcp\<close>.
\<close>

fun tls_connect_loop :: "(NetworkEndpoint \<Rightarrow> NetworkError + NetworkStream) \<Rightarrow> SisterId \<Rightarrow> ConnectionError option \<Rightarrow> EndpointCandidate list
    \<Rightarrow> ConnectionError option + NetworkStream" where
  "tls_connect_loop tls sister last_error [] = Err last_error"
| "tls_connect_loop tls sister last_error (candidate # candidates) =
     (case tls (ec_endpoint candidate) of
        Inr stream \<Rightarrow> Ok stream
      | Inl e \<Rightarrow> tls_connect_loop tls sister (Some (ConnectFailed sister e)) candidates)"

definition secure_connect_to_sister ::
    "endpoint_parsers \<Rightarrow> (string \<Rightarrow> IpAddr) \<Rightarrow> (bytes \<Rightarrow> NetworkError + (NetworkEndpoint \<Rightarrow> NetworkError + NetworkStream)) \<Rightarrow> PeerService \<Rightarrow> SisterId
      \<Rightarrow> (ConnectionError + NetworkStream) option" where
  "secure_connect_to_sister E ip config peers sister =
     (case hm_get (pt_peers (svc_registry peers)) sister of
        None \<Rightarrow> Some (Err (UnknownSister sister))
      | Some peer \<Rightarrow>
          (case ps_stream_certificate peer of
             None \<Rightarrow> Some (Err (NoPeerCertificate sister))
           | Some certificate \<Rightarrow>
               if ps_stream_endpoints peer = [] then Some (Err (NoStreamEndpoint sister))
               else (case config certificate of
                  Inl e \<Rightarrow> Some (Err (ConnectFailed sister e))
                | Inr tls \<Rightarrow>
                    (case parse_endpoints E sister (ps_stream_endpoints peer) None of
                       (endpoints, last_error) \<Rightarrow>
                         (case those (map (EndpointCandidate_tcp ip) endpoints) of
                            None \<Rightarrow> None
                          | Some candidates \<Rightarrow>
                              (case tls_connect_loop tls sister last_error (rank_candidates candidates) of
                                 Inr stream \<Rightarrow> Some (Ok stream)
                               | Inl (Some e) \<Rightarrow> Some (Err e)
                               | Inl None \<Rightarrow> None))))))"

section \<open>The connection manager\<close>

datatype ConnectionState = Disconnected | Connecting | Connected

record ConnectionManager =
  cm_connector :: SisterConnector
  cm_states :: "(u64, ConnectionState) hashmap"
  cm_iroh_sessions :: "(u64, IrohEndpointId \<times> nat) hashmap"

definition ConnectionManager_new :: "SisterConnector \<Rightarrow> ConnectionManager" where
  "ConnectionManager_new connector = \<lparr>cm_connector = connector, cm_states = [], cm_iroh_sessions = []\<rparr>"

definition cm_state :: "ConnectionManager \<Rightarrow> SisterId \<Rightarrow> ConnectionState" where
  "cm_state m sister = (case hm_get (cm_states m) sister of Some s \<Rightarrow> s | None \<Rightarrow> Disconnected)"

definition set_state :: "SisterId \<Rightarrow> ConnectionState \<Rightarrow> ConnectionManager \<Rightarrow> ConnectionManager" where
  "set_state sister s m = m\<lparr>cm_states := hm_insert sister s (cm_states m)\<rparr>"

definition mark_disconnected :: "SisterId \<Rightarrow> ConnectionManager \<Rightarrow> ConnectionManager" where
  "mark_disconnected sister m = set_state sister Disconnected m"

text \<open>
  \<open>open_stream\<close> holds its locks only for single operations, so other tasks run between them, and the
  future can be dropped at each of them. It is split there: the admission, and then one step per phase,
  which gives the next phase or the result.
\<close>

definition open_admit :: "SisterId \<Rightarrow> ConnectionManager \<Rightarrow> ConnectionError + ConnectionManager" where
  "open_admit sister m =
     (if hm_get (cm_states m) sister = Some Connecting then Err (AlreadyConnecting sister) else Ok (set_state sister Connecting m))"

datatype open_phase = Admitted | Cached IrohEndpointId nat | Dialling | Finishing ConnectedStream

definition open_step :: "lib \<Rightarrow> endpoint_parsers \<Rightarrow> dial_env \<Rightarrow> SisterId \<Rightarrow> open_phase \<Rightarrow> ConnectionManager
    \<Rightarrow> (open_phase + (ConnectionError + NetworkStream)) \<times> ConnectionManager" where
  "open_step L E D sister phase m =
     (case phase of
        Admitted \<Rightarrow> (Inl (case hm_get (cm_iroh_sessions m) sister of None \<Rightarrow> Dialling | Some (endpoint, session) \<Rightarrow> Cached endpoint session), m)
      | Cached endpoint session \<Rightarrow>
          let dropped = m\<lparr>cm_iroh_sessions := hm_remove sister (cm_iroh_sessions m)\<rparr>
          in if de_closed D session \<or> \<not> de_in_time D session then (Inl Dialling, dropped)
             else (case session_open_stream D (svc_network_id (co_peers (cm_connector m))) endpoint session of
                Inr stream \<Rightarrow> (Inr (Ok stream), set_state sister Connected m)
              | Inl _ \<Rightarrow> (Inl Dialling, dropped))
      | Dialling \<Rightarrow>
          (case connect_to_sister_with_session L E D (cm_connector m) sister of
             Inr connection \<Rightarrow>
               (Inl (Finishing connection),
                case (cs_iroh_session connection, ns_endpoint (cs_stream connection)) of
                  (Some session, Endpoint_Iroh endpoint) \<Rightarrow> m\<lparr>cm_iroh_sessions := hm_insert sister (endpoint, session) (cm_iroh_sessions m)\<rparr>
                | _ \<Rightarrow> m)
           | Inl e \<Rightarrow> (Inr (Err e), set_state sister Disconnected m))
      | Finishing connection \<Rightarrow> (Inr (Ok (cs_stream connection)), set_state sister Connected m))"

fun phase_rank :: "open_phase \<Rightarrow> nat" where
  "phase_rank Admitted = 3"
| "phase_rank (Cached endpoint session) = 2"
| "phase_rank Dialling = 1"
| "phase_rank (Finishing connection) = 0"

lemma open_step_rank: "open_step L E D sister phase m = (Inl phase', m') \<Longrightarrow> phase_rank phase' < phase_rank phase"
  by (auto simp: open_step_def Let_def split: open_phase.splits option.splits sum.splits if_splits prod.splits)

function open_loop :: "lib \<Rightarrow> endpoint_parsers \<Rightarrow> dial_env \<Rightarrow> SisterId \<Rightarrow> open_phase \<Rightarrow> ConnectionManager
    \<Rightarrow> (ConnectionError + NetworkStream) \<times> ConnectionManager" where
  "open_loop L E D sister phase m =
     (case open_step L E D sister phase m of (Inl phase', m') \<Rightarrow> open_loop L E D sister phase' m' | (Inr r, m') \<Rightarrow> (r, m'))"
  by pat_completeness auto

termination
  by (relation "measure (\<lambda>(L, E, D, sister, phase, m). phase_rank phase)") (auto dest: open_step_rank [OF sym])

declare open_loop.simps [simp del]

text \<open>\<open>open_stream\<close> when nothing comes between its steps\<close>

definition open_stream :: "lib \<Rightarrow> endpoint_parsers \<Rightarrow> dial_env \<Rightarrow> SisterId \<Rightarrow> ConnectionManager \<Rightarrow> (ConnectionError + NetworkStream) \<times> ConnectionManager" where
  "open_stream L E D sister m = (case open_admit sister m of Inl e \<Rightarrow> (Err e, m) | Inr m' \<Rightarrow> open_loop L E D sister Admitted m')"

text \<open>
  The manager shared by tasks: a task calls \<open>open_stream\<close>, takes its next step, is dropped, or reports a
  lost stream. Every run of the manager is a list of such events.
\<close>

datatype cm_event = Open nat SisterId | Turn nat dial_env | Drop nat | Mark SisterId

fun cm_apply :: "lib \<Rightarrow> endpoint_parsers \<Rightarrow> cm_event \<Rightarrow> ConnectionManager \<times> (nat, SisterId \<times> open_phase) hashmap
    \<Rightarrow> ConnectionManager \<times> (nat, SisterId \<times> open_phase) hashmap" where
  "cm_apply L E (Open t sister) (m, tasks) =
     (if hm_get tasks t \<noteq> None then (m, tasks)
      else case open_admit sister m of Inl _ \<Rightarrow> (m, tasks) | Inr m' \<Rightarrow> (m', hm_insert t (sister, Admitted) tasks))"
| "cm_apply L E (Turn t D) (m, tasks) =
     (case hm_get tasks t of
        None \<Rightarrow> (m, tasks)
      | Some (sister, phase) \<Rightarrow>
          (case open_step L E D sister phase m of
             (Inl phase', m') \<Rightarrow> (m', hm_insert t (sister, phase') tasks)
           | (Inr _, m') \<Rightarrow> (m', hm_remove t tasks)))"
| "cm_apply L E (Drop t) (m, tasks) = (m, hm_remove t tasks)"
| "cm_apply L E (Mark sister) (m, tasks) = (mark_disconnected sister m, tasks)"

definition cm_run :: "lib \<Rightarrow> endpoint_parsers \<Rightarrow> SisterConnector \<Rightarrow> cm_event list \<Rightarrow> ConnectionManager \<times> (nat, SisterId \<times> open_phase) hashmap" where
  "cm_run L E connector events = fold (cm_apply L E) events (ConnectionManager_new connector, [])"

section \<open>The registry of streams\<close>

record PathInfo =
  pi_backend :: string
  pi_route :: string
  pi_rtt_ms :: "u64 option"
  pi_path_switches :: u64
  pi_local_endpoint :: "string option"
  pi_remote_endpoint :: "string option"

text \<open>The current path and the byte counters of a stream are read when a snapshot is taken.\<close>

record ActiveStream =
  as_path :: PathInfo
  as_path_provider :: "(unit \<Rightarrow> PathInfo) option"
  as_stats :: "u64 \<times> u64"
  as_started_at :: nat
  as_peer_addr :: "string option"

record ActiveStreamSnapshot =
  ass_stream_id :: u64
  ass_path :: PathInfo
  ass_connected_for_ms :: u64
  ass_tx_bytes :: u64
  ass_rx_bytes :: u64

record StreamRegistry =
  reg_next_id :: u64
  reg_entries :: "(u64, ActiveStream) hashmap"

definition register :: "ActiveStream \<Rightarrow> StreamRegistry \<Rightarrow> u64 \<times> StreamRegistry" where
  "register stream r =
     (reg_next_id r, r\<lparr>reg_next_id := reg_next_id r + 1, reg_entries := hm_insert (reg_next_id r) stream (reg_entries r)\<rparr>)"

definition drop_registration :: "u64 \<Rightarrow> StreamRegistry \<Rightarrow> StreamRegistry" where
  "drop_registration i r = r\<lparr>reg_entries := hm_remove i (reg_entries r)\<rparr>"

definition stream_snapshot :: "nat \<Rightarrow> u64 \<times> ActiveStream \<Rightarrow> ActiveStreamSnapshot" where
  "stream_snapshot now = (\<lambda>(i, stream).
     let path = (case as_path_provider stream of Some provider \<Rightarrow> provider () | None \<Rightarrow> as_path stream)
     in \<lparr>ass_stream_id = i,
         ass_path = path\<lparr>pi_remote_endpoint := (case pi_remote_endpoint path of Some e \<Rightarrow> Some e | None \<Rightarrow> as_peer_addr stream)\<rparr>,
         ass_connected_for_ms = of_nat (now - as_started_at stream),
         ass_tx_bytes = fst (as_stats stream), ass_rx_bytes = snd (as_stats stream)\<rparr>)"

definition registry_snapshot :: "nat \<Rightarrow> StreamRegistry \<Rightarrow> ActiveStreamSnapshot list" where
  "registry_snapshot now r = sort_key ass_stream_id (map (stream_snapshot now) (reg_entries r))"

definition registry_summary :: "StreamRegistry \<Rightarrow> nat \<times> u64 \<times> u64" where
  "registry_summary r =
     (length (reg_entries r), sum_list (map (fst \<circ> as_stats) (hm_values (reg_entries r))), sum_list (map (snd \<circ> as_stats) (hm_values (reg_entries r))))"

section \<open>What a connection rests on\<close>

lemma length_STREAM_MAGIC [simp]: "length STREAM_MAGIC = 13"
  by (simp add: STREAM_MAGIC_def str_bytes_def)

lemma handshake_accepted: "read_and_validate_handshake s n = Ok () \<longleftrightarrow> (\<exists>rest. s = handshake_bytes n @ rest)"
proof
  assume "read_and_validate_handshake s n = Ok ()"
  then have len: "30 \<le> length s" and magic: "take 13 s = STREAM_MAGIC" and version: "s ! 13 = STREAM_PROTOCOL_VERSION"
    and net: "bytes_word (drop 14 (take 30 s)) = n"
    by (auto simp: read_and_validate_handshake_def read_handshake_def read_exact_def HANDSHAKE_LEN_def validate_handshake_def
        validate_network_id_def Let_def split: if_splits sum.splits)
  have "length (drop 14 (take 30 s)) = 16" using len by simp
  then have "word_bytes 16 n = drop 14 (take 30 s)" using net word_bytes_bytes_word [of "drop 14 (take 30 s)", where 'a = 128] by auto
  moreover have "take 30 s = take 13 s @ [s ! 13] @ drop 14 (take 30 s)"
    using len by (intro nth_equalityI) (auto simp: nth_append nth_Cons')
  ultimately have "take 30 s = handshake_bytes n" by (simp add: handshake_bytes_def magic version)
  then show "\<exists>rest. s = handshake_bytes n @ rest" by (metis append_take_drop_id)
qed (auto simp: read_and_validate_handshake_def read_handshake_def read_exact_def HANDSHAKE_LEN_def validate_handshake_def
      validate_network_id_def handshake_bytes_def nth_append bytes_word_full)

lemma handshake_refused: "a \<noteq> b \<Longrightarrow> read_and_validate_handshake (handshake_bytes a @ rest) b = Err (Net_NetworkMismatch b a)"
  by (simp add: read_and_validate_handshake_def read_handshake_def read_exact_def HANDSHAKE_LEN_def validate_handshake_def
      validate_network_id_def handshake_bytes_def nth_append bytes_word_full Let_def)

text \<open>The handshake of a stream separates Networks. A client takes exactly the answer that carries the
  magic, the version and its own Network id; a server answers a request of its own Network with exactly
  that, refuses any other Network with both ids, and then sends nothing, so the client fails as well.\<close>

theorem stream_handshake_exact:
  "(client_handshake a True answer = Ok () \<longleftrightarrow> (\<exists>rest. answer = handshake_bytes a @ rest))
   \<and> server_handshake b True (handshake_bytes a @ rest') = (if a = b then (Ok (), handshake_bytes b) else (Err (Net_NetworkMismatch b a), []))
   \<and> (client_handshake a True (snd (server_handshake b True (handshake_bytes a @ rest'))) = Ok () \<longleftrightarrow> a = b)"
proof -
  have server: "server_handshake b True (handshake_bytes a @ rest') = (if a = b then (Ok (), handshake_bytes b) else (Err (Net_NetworkMismatch b a), []))"
  proof (cases "a = b")
    case True
    then have "read_and_validate_handshake (handshake_bytes a @ rest') b = Ok ()" using handshake_accepted by blast
    with True show ?thesis by (simp add: server_handshake_def)
  qed (simp add: handshake_refused server_handshake_def)
  have client: "client_handshake a True answer = Ok () \<longleftrightarrow> (\<exists>rest. answer = handshake_bytes a @ rest)" for answer
    by (simp add: client_handshake_def handshake_accepted)
  have "handshake_bytes a \<noteq> []" by (simp add: handshake_bytes_def)
  with server client show ?thesis by (auto intro: exI [of _ "[]"])
qed

lemma race_winner: "race attempt e finished = Ok (stream, candidate) \<Longrightarrow> candidate \<in> set finished \<and> attempt candidate = Ok stream"
  by (induction finished arbitrary: e) (auto split: sum.splits)

lemma race_all_failed: "race attempt e finished = Err e' \<Longrightarrow> (\<forall>c\<in>set finished. \<not> is_ok (attempt c)) \<and> (finished \<noteq> [] \<longrightarrow> e' \<noteq> None)"
proof (induction finished arbitrary: e)
  case (Cons c cs)
  then show ?case by (cases "attempt c"; cases cs) (auto split: sum.splits)
qed simp

lemma race_wins: "c \<in> set finished \<Longrightarrow> is_ok (attempt c) \<Longrightarrow> \<exists>stream candidate. race attempt e finished = Ok (stream, candidate)"
  using race_all_failed [of attempt e finished] by (cases "race attempt e finished") auto

lemma connectD:
  assumes "connect_to_sister_with_session L E D c sister = Ok connection"
  obtains candidate where "connect_attempt L D c sister candidate = Ok connection"
    "\<exists>peer endpoints e. hm_get (pt_peers (svc_registry (co_peers c))) sister = Some peer
       \<and> parse_endpoints E sister (ps_stream_endpoints peer) None = (endpoints, e)
       \<and> candidate \<in> set (de_finish D (rank_candidates (map (for_endpoint (de_ip D)) endpoints)))"
  using assms unfolding connect_to_sister_with_session_def
  by (auto split: option.splits if_splits prod.splits sum.splits dest!: race_winner intro!: that)

lemma parse_endpoints_fst: "fst (parse_endpoints E sister raws e) = List.map_filter (NetworkEndpoint_from_str E) raws"
  by (induction raws arbitrary: e) (simp_all add: List.map_filter_simps case_prod_beta split: option.splits)

text \<open>What one attempt that succeeded has established\<close>

definition stream_established :: "lib \<Rightarrow> dial_env \<Rightarrow> SisterConnector \<Rightarrow> SisterId \<Rightarrow> NetworkStream \<Rightarrow> bool" where
  "stream_established L D c sister stream \<longleftrightarrow>
     (case ns_endpoint stream of
        Endpoint_Tcp addr \<Rightarrow> ns_session stream = None \<and> (\<exists>rest. de_tcp D addr = Ok (True, handshake_bytes (svc_network_id (co_peers c)) @ rest))
      | Endpoint_Iroh endpoint \<Rightarrow>
          co_iroh_backend c \<and> (\<exists>session. ns_session stream = Some session \<and> de_session D endpoint = Ok session)
          \<and> (case co_authenticated_session c of
               None \<Rightarrow> ns_hellos stream = None
             | Some auth \<Rightarrow>
                 (case ns_hellos stream of
                    None \<Rightarrow> False
                  | Some (client, reply) \<Rightarrow>
                      sh_sister_id reply = sister \<and> sh_client_nonce reply = ch_nonce client \<and> ServerHello_verify_signature L reply
                      \<and> sh_sister_public_key reply = mc_sister_public_key (sh_membership_certificate reply)
                      \<and> MembershipCertificate_verify L (sh_membership_certificate reply) (sc_authority auth)
                      \<and> membership_is_revoked L auth MembershipKind_Sister (mc_serial (sh_membership_certificate reply)) = Ok False)))"

lemma client_handshake_ok: "client_handshake n written answer = Ok () \<longleftrightarrow> written \<and> (\<exists>rest. answer = handshake_bytes n @ rest)"
  by (simp add: client_handshake_def handshake_accepted)

lemma attempt_established:
  assumes "connect_attempt L D c sister candidate = Ok connection"
  shows "stream_established L D c sister (cs_stream connection) \<and> ns_endpoint (cs_stream connection) = ec_endpoint candidate
    \<and> cs_iroh_session connection = ns_session (cs_stream connection)"
proof (cases "ec_endpoint candidate")
  case (Endpoint_Tcp addr)
  with assms show ?thesis
    by (auto simp: connect_attempt_def direct_connect_def stream_established_def client_handshake_ok split: sum.splits if_splits)
next
  case (Endpoint_Iroh endpoint)
  with assms obtain session stream where step: "co_iroh_backend c" "de_session D endpoint = Ok session"
    "session_open_stream D (svc_network_id (co_peers c)) endpoint session = Ok stream"
    by (auto simp: connect_attempt_def Let_def split: sum.splits if_splits)
  then have stream: "stream = \<lparr>ns_endpoint = Endpoint_Iroh endpoint, ns_session = Some session, ns_hellos = None\<rparr>"
    by (auto simp: session_open_stream_def split: sum.splits prod.splits)
  show ?thesis
  proof (cases "co_authenticated_session c")
    case None
    with assms step stream Endpoint_Iroh show ?thesis by (auto simp: connect_attempt_def stream_established_def Let_def)
  next
    case (Some auth)
    with assms step stream Endpoint_Iroh obtain reply where reply: "de_hello D session (client_hello_of L (de_nonce D session) auth) = Ok reply"
      "authenticate_client L (de_parse D) (de_now D) (de_nonce D session) auth (Some sister) None reply (de_remote D session) = Ok ()"
      "cs_stream connection = stream\<lparr>ns_hellos := Some (client_hello_of L (de_nonce D session) auth, reply)\<rparr>" "cs_iroh_session connection = Some session"
      by (auto simp: connect_attempt_def authenticate_stream_def Let_def split: sum.splits if_splits)
    then have v: "validate_server L (de_parse D) (de_now D) auth (client_hello_of L (de_nonce D session) auth) reply (Some sister) None (de_remote D session) = Ok ()"
      by (auto simp: authenticate_client_def split: sum.splits)
    then have "sh_sister_id reply = sister" by (auto simp: validate_server_def split: if_splits)
    with validate_serverD [OF v] reply step stream Some Endpoint_Iroh show ?thesis by (simp add: stream_established_def)
  qed
qed

text \<open>C7: What a fresh connection to a Sister has established. Over Iroh on a Sister with session material, the
  far end has proved, with a signature over the nonce of this very connection, to hold the key of a
  membership of exactly the Sister asked for, signed by the authority and not revoked; without session
  material nothing is exchanged. Over TCP it has only answered the handshake of this Network. The endpoint is one of those advertised. And if any of the
  advertised endpoints can be reached, a connection is made.\<close>

theorem connect_established:
  assumes "\<forall>cs. set (de_finish D cs) = set cs"
    and "hm_get (pt_peers (svc_registry (co_peers c))) sister = Some peer"
  shows "(connect_to_sister_with_session L E D c sister = Ok connection \<longrightarrow>
      stream_established L D c sister (cs_stream connection)
      \<and> Some (ns_endpoint (cs_stream connection)) \<in> NetworkEndpoint_from_str E ` set (ps_stream_endpoints peer))
    \<and> ((\<exists>raw\<in>set (ps_stream_endpoints peer). \<exists>endpoint. NetworkEndpoint_from_str E raw = Some endpoint
           \<and> is_ok (connect_attempt L D c sister (for_endpoint (de_ip D) endpoint)))
       \<longrightarrow> is_ok (connect_to_sister_with_session L E D c sister))"
proof -
  have parsed: "set (fst (parse_endpoints E sister raws e)) = {endpoint. Some endpoint \<in> NetworkEndpoint_from_str E ` set raws}" for raws e
    unfolding parse_endpoints_fst by (rule set_map_filter_some)
  have kept: "ec_endpoint (for_endpoint ip endpoint) = endpoint" for ip endpoint
    by (auto simp: for_endpoint_def EndpointCandidate_tcp_def Let_def split: NetworkEndpoint.splits)
  have ranked: "set (rank_candidates cs) = set cs" for cs by (simp add: rank_candidates_def)
  have sound: "stream_established L D c sister (cs_stream connection) \<and> Some (ns_endpoint (cs_stream connection)) \<in> NetworkEndpoint_from_str E ` set (ps_stream_endpoints peer)"
    if "connect_to_sister_with_session L E D c sister = Ok connection"
  proof -
    from that obtain candidate endpoints e where step: "connect_attempt L D c sister candidate = Ok connection"
      "parse_endpoints E sister (ps_stream_endpoints peer) None = (endpoints, e)"
      "candidate \<in> set (de_finish D (rank_candidates (map (for_endpoint (de_ip D)) endpoints)))"
      using assms(2) by (elim connectD) auto
    then obtain endpoint where "endpoint \<in> set endpoints" "ec_endpoint candidate = endpoint"
      using assms(1) ranked kept by auto
    with attempt_established [OF step(1)] parsed [of "ps_stream_endpoints peer" None] step(2) show ?thesis by auto
  qed
  have complete: "is_ok (connect_to_sister_with_session L E D c sister)"
    if "raw \<in> set (ps_stream_endpoints peer)" "NetworkEndpoint_from_str E raw = Some endpoint"
      "is_ok (connect_attempt L D c sister (for_endpoint (de_ip D) endpoint))" for raw endpoint
  proof -
    obtain endpoints e where p: "parse_endpoints E sister (ps_stream_endpoints peer) None = (endpoints, e)" by fastforce
    with parsed [of "ps_stream_endpoints peer" None] that(1, 2) have "endpoint \<in> set endpoints" by (auto simp: image_iff) (metis)
    then have "for_endpoint (de_ip D) endpoint \<in> set (de_finish D (rank_candidates (map (for_endpoint (de_ip D)) endpoints)))"
      using assms(1) ranked by simp
    from race_wins [where attempt = "connect_attempt L D c sister", OF this that(3), of None] obtain stream candidate where
      "race (connect_attempt L D c sister) None (de_finish D (rank_candidates (map (for_endpoint (de_ip D)) endpoints))) = Ok (stream, candidate)" by blast
    with assms(2) p that(1) \<open>endpoint \<in> set endpoints\<close> show ?thesis by (auto simp: connect_to_sister_with_session_def)
  qed
  from sound complete show ?thesis by blast
qed

text \<open>A Sister 2 that is known by one Iroh endpoint and answers hellos properly\<close>

definition sample_peer_service :: PeerService where
  "sample_peer_service = \<lparr>svc_registry = \<lparr>pt_peers = [(2, sample_peer\<lparr>ps_stream_endpoints := [''?'', ''iroh://x'']\<rparr>)], pt_last_seen = []\<rparr>,
     svc_network_id = 7, svc_records = [], svc_records_file = Absent, svc_peers_file = Absent\<rparr>"

definition sample_connector :: SisterConnector where
  "sample_connector = \<lparr>co_peers = sample_peer_service, co_iroh_backend = True, co_authenticated_session = Some sample_session\<rparr>"

definition sample_endpoints :: endpoint_parsers where
  "sample_endpoints = \<lparr>ep_socket = Some, ep_iroh = \<lambda>_. Some 11\<rparr>"

definition sample_dial :: dial_env where
  "sample_dial = \<lparr>de_ip = \<lambda>_. V4 10 0 0 1, de_tcp = \<lambda>_. Err Net_Connect, de_session = \<lambda>_. Ok 0, de_open = \<lambda>_. Ok (True, handshake_bytes 7),
     de_hello = \<lambda>_ client. (case authenticate_server lib0 (\<lambda>_. Some 11) 50 22 sample_session client (Some ''iroh://x'') of
       Inr (reply, _) \<Rightarrow> Ok reply | Inl _ \<Rightarrow> Err Net_Io),
     de_remote = \<lambda>_. Some ''iroh://x'', de_parse = \<lambda>_. Some 11, de_now = 50, de_nonce = \<lambda>_. 21, de_finish = id,
     de_closed = \<lambda>_. False, de_in_time = \<lambda>_. True\<rparr>"

lemma sample_hello:
  "\<exists>reply peer. authenticate_server lib0 (\<lambda>_. Some 11) 50 22 sample_session (client_hello_of lib0 21 sample_session) (Some ''iroh://x'') = Ok (reply, peer)
     \<and> authenticate_client lib0 (\<lambda>_. Some 11) 50 21 sample_session (Some 2) None reply (Some ''iroh://x'') = Ok ()"
proof -
  have matches: "endpoint_matches_binding (\<lambda>_. Some 11) (Some ''iroh://x'') (tb_iroh_endpoint_id (sc_transport_binding sample_session))"
    by (simp add: endpoint_matches_binding_def sample_session_def strip_prefix_def)
  have serial: "mc_serial (sc_membership_certificate sample_session) = 1" and id: "sc_sister_id sample_session = 2"
    by (simp_all add: sample_session_def sample_facts)
  have "(10 :: u64) \<le> 50" by simp
  note valid = sample_session_valid(1) [OF this]
  from hellos_accepted [OF lib0_ed25519 valid valid refl _ _ matches matches, of 22 21] serial sample_session_valid(2) obtain reply peer where
    reply: "authenticate_server lib0 (\<lambda>_. Some 11) 50 22 sample_session (client_hello_of lib0 21 sample_session) (Some ''iroh://x'') = Ok (reply, peer)"
    and ok: "authenticate_client lib0 (\<lambda>_. Some 11) 50 21 sample_session (Some 2) (Some (SisterKeyPair_public_key lib0 (sc_sister_key sample_session))) reply (Some ''iroh://x'') = Ok ()"
    unfolding id by auto
  have "authenticate_client lib0 (\<lambda>_. Some 11) 50 21 sample_session (Some 2) None reply (Some ''iroh://x'') = Ok ()"
    using ok unfolding authenticate_client_def validate_server_def by (auto split: sum.splits if_splits)
  with reply show ?thesis by blast
qed

lemma sample_attempt: "is_ok (connect_attempt lib0 sample_dial sample_connector 2 (for_endpoint ip (Endpoint_Iroh 11)))"
proof -
  have "(10 :: u64) \<le> 50" by simp
  note valid = sample_session_valid(1) [OF this]
  moreover have "client_handshake 7 True (handshake_bytes 7) = Ok ()" by (simp add: client_handshake_ok)
  ultimately show ?thesis
    using sample_hello by (auto simp: connect_attempt_def for_endpoint_def EndpointCandidate_tcp_def sample_connector_def sample_peer_service_def
        sample_dial_def session_open_stream_def authenticate_stream_def Let_def)
qed

theorem connect_established_witness:
  "is_ok (connect_to_sister_with_session lib0 sample_endpoints sample_dial sample_connector 2)"
proof -
  have "NetworkEndpoint_from_str sample_endpoints ''iroh://x'' = Some (Endpoint_Iroh 11)"
    by (simp add: NetworkEndpoint_from_str_def sample_endpoints_def strip_prefix_def)
  moreover have "hm_get (pt_peers (svc_registry (co_peers sample_connector))) 2 = Some (sample_peer\<lparr>ps_stream_endpoints := [''?'', ''iroh://x'']\<rparr>)"
    by (simp add: sample_connector_def sample_peer_service_def)
  ultimately show ?thesis
    using connect_established [of sample_dial sample_connector 2 _ lib0 sample_endpoints] sample_attempt by (auto simp: sample_dial_def)
qed

section \<open>Tasks that share the manager\<close>

lemma open_step_states:
  assumes "open_step L E D sister phase m = (r, m')"
  shows "k \<noteq> sister \<Longrightarrow> hm_get (cm_states m') k = hm_get (cm_states m) k" "r = Inl phase' \<Longrightarrow> cm_states m' = cm_states m"
  using assms by (auto simp: open_step_def Let_def set_state_def hm_simps split: open_phase.splits option.splits sum.splits if_splits prod.splits
      NetworkEndpoint.splits)

definition cm_inv :: "SisterId \<Rightarrow> ConnectionManager \<times> (nat, SisterId \<times> open_phase) hashmap \<Rightarrow> bool" where
  "cm_inv i = (\<lambda>(m, tasks).
     (\<forall>t ph. hm_get tasks t = Some (i, ph) \<longrightarrow> hm_get (cm_states m) i = Some Connecting \<and> (\<forall>t' ph'. hm_get tasks t' = Some (i, ph') \<longrightarrow> t' = t)))"

lemma cm_inv_apply:
  assumes "cm_inv i s" "event \<noteq> Mark i"
  shows "cm_inv i (cm_apply L E event s)"
proof -
  obtain m tasks where s: "s = (m, tasks)" by (cases s)
  show ?thesis
  proof (cases event)
    case (Open t sister)
    show ?thesis
    proof (cases "sister = i")
      case True
      with Open assms(1) show ?thesis
        unfolding s by (auto simp: cm_inv_def open_admit_def set_state_def hm_simps split: if_splits)
    next
      case False
      with Open assms(1) show ?thesis
        unfolding s by (auto simp: cm_inv_def open_admit_def set_state_def hm_simps split: if_splits)
    qed
  next
    case (Turn t D)
    show ?thesis
    proof (cases "hm_get tasks t")
      case (Some task)
      obtain sister phase where task: "task = (sister, phase)" by (cases task)
      obtain r m' where step: "open_step L E D sister phase m = (r, m')" by (cases "open_step L E D sister phase m")
      note st = open_step_states [OF step]
      show ?thesis
      proof (cases r)
        case (Inl phase')
        with st(2) have "cm_states m' = cm_states m" by simp
        with Inl Turn Some task step assms(1) show ?thesis unfolding s by (auto simp: cm_inv_def hm_simps split: if_splits)
      next
        case (Inr result)
        with Turn Some task step assms(1) show ?thesis
          unfolding s using st(1) [of i] by (cases "sister = i") (fastforce simp: cm_inv_def hm_simps split: if_splits)+
      qed
    qed (use Turn assms(1) s in simp)
  qed (use assms s in \<open>auto simp: cm_inv_def mark_disconnected_def set_state_def hm_simps split: if_splits\<close>)
qed

lemma cm_inv_fold: "cm_inv i s \<Longrightarrow> Mark i \<notin> set events \<Longrightarrow> cm_inv i (fold (cm_apply L E) events s)"
proof (induction events arbitrary: s)
  case (Cons event events)
  have "cm_inv i (cm_apply L E event s)" by (rule cm_inv_apply) (use Cons.prems in auto)
  from Cons.IH [OF this] Cons.prems show ?case by simp
qed simp

lemma cm_inv_run: "Mark i \<notin> set events \<Longrightarrow> cm_inv i (cm_run L E c events)"
  unfolding cm_run_def by (rule cm_inv_fold) (simp_all add: cm_inv_def)

text \<open>C24: A Sister is dialled by one task at a time. However the steps of any number of tasks interleave, and
  whichever of them are dropped, as long as no lost stream is reported for a Sister there is at most one
  task connecting to it, its state is then Connecting, and every other request is refused.\<close>

theorem connects_once:
  assumes "Mark i \<notin> set events" "cm_run L E c events = (m, tasks)" "hm_get tasks t = Some (i, phase)"
  shows "cm_state m i = Connecting \<and> open_admit i m = Err (AlreadyConnecting i)
    \<and> (\<forall>t' phase'. hm_get tasks t' = Some (i, phase') \<longrightarrow> t' = t)"
proof -
  from cm_inv_run [OF assms(1), of L E c] assms(2, 3)
  have "hm_get (cm_states m) i = Some Connecting \<and> (\<forall>t' phase'. hm_get tasks t' = Some (i, phase') \<longrightarrow> t' = t)"
    unfolding cm_inv_def by (simp only: prod.case) blast
  then show ?thesis by (simp add: cm_state_def open_admit_def)
qed

theorem connects_once_witness:
  "cm_state (fst (cm_run lib0 sample_endpoints sample_connector [Open 1 2, Turn 1 sample_dial, Open 5 2])) 2 = Connecting"
proof -
  have "cm_run lib0 sample_endpoints sample_connector [Open 1 2, Turn 1 sample_dial, Open 5 2]
      = (set_state 2 Connecting (ConnectionManager_new sample_connector), [(1, 2, Dialling)])"
    by (simp add: cm_run_def open_admit_def ConnectionManager_new_def set_state_def open_step_def)
  from connects_once [OF _ this, of 2 1 Dialling] show ?thesis
    by (simp add: cm_run_def open_admit_def ConnectionManager_new_def set_state_def open_step_def)
qed

text \<open>A Sister whose state is Connecting while no task connects to it\<close>

definition orphaned :: "SisterId \<Rightarrow> ConnectionManager \<times> (nat, SisterId \<times> open_phase) hashmap \<Rightarrow> bool" where
  "orphaned i = (\<lambda>(m, tasks). hm_get (cm_states m) i = Some Connecting \<and> (\<forall>t ph. hm_get tasks t \<noteq> Some (i, ph)))"

lemma orphaned_apply:
  assumes "orphaned i s" "event \<noteq> Mark i"
  shows "orphaned i (cm_apply L E event s)"
proof -
  obtain m tasks where s: "s = (m, tasks)" by (cases s)
  show ?thesis
  proof (cases event)
    case (Turn t D)
    show ?thesis
    proof (cases "hm_get tasks t")
      case (Some task)
      obtain sister phase where task: "task = (sister, phase)" by (cases task)
      with Some assms(1) s have ne: "sister \<noteq> i" by (auto simp: orphaned_def)
      obtain r m' where step: "open_step L E D sister phase m = (r, m')" by (cases "open_step L E D sister phase m")
      have "hm_get (cm_states m') i = hm_get (cm_states m) i" using open_step_states(1) [OF step] ne by simp
      with Turn Some task step assms(1) ne show ?thesis unfolding s orphaned_def by (cases r) (auto simp: hm_simps)
    qed (use Turn assms(1) s in simp)
  qed (use assms s in \<open>auto simp: orphaned_def open_admit_def mark_disconnected_def set_state_def hm_simps split: if_splits\<close>)
qed

lemma orphaned_fold: "Mark i \<notin> set events \<Longrightarrow> orphaned i s \<Longrightarrow> orphaned i (fold (cm_apply L E) events s)"
proof (induction events arbitrary: s)
  case (Cons event events)
  have "orphaned i (cm_apply L E event s)" by (rule orphaned_apply) (use Cons.prems in auto)
  from Cons.IH [OF _ this] Cons.prems show ?case by simp
qed simp

text \<open>C25: A dropped request blocks its Sister. If the future of \<open>open_stream\<close> is dropped while it is connecting,
  as a time limit around the call does, the state stays Connecting with no task left to change it: every
  later request is refused, whatever happens to other Sisters, until somebody reports a lost stream.\<close>

theorem dropped_open_blocks:
  assumes "Mark i \<notin> set events" "cm_run L E c events = (m, tasks)" "hm_get tasks t = Some (i, phase)"
    and "Mark i \<notin> set later" "cm_run L E c (events @ Drop t # later) = (m', tasks')"
  shows "open_admit i m' = Err (AlreadyConnecting i) \<and> (\<forall>t' phase'. hm_get tasks' t' \<noteq> Some (i, phase'))"
proof -
  from cm_inv_run [OF assms(1), of L E c] assms(2, 3) have "orphaned i (m, hm_remove t tasks)"
    unfolding cm_inv_def orphaned_def by (auto simp: hm_simps split: if_splits)
  from orphaned_fold [OF assms(4) this, of L E] show ?thesis
    using assms(2, 5) by (simp add: cm_run_def orphaned_def open_admit_def)
qed

theorem dropped_open_blocks_witness:
  "open_admit 2 (fst (cm_run lib0 sample_endpoints sample_connector ([Open 1 2] @ Drop 1 # [Open 2 2, Mark 3]))) = Err (AlreadyConnecting 2)"
proof -
  have a: "cm_run lib0 sample_endpoints sample_connector [Open 1 2] = (set_state 2 Connecting (ConnectionManager_new sample_connector), [(1, 2, Admitted)])"
    by (simp add: cm_run_def open_admit_def ConnectionManager_new_def set_state_def)
  obtain m' tasks' where b: "cm_run lib0 sample_endpoints sample_connector ([Open 1 2] @ Drop 1 # [Open 2 2, Mark 3]) = (m', tasks')"
    by (cases "cm_run lib0 sample_endpoints sample_connector ([Open 1 2] @ Drop 1 # [Open 2 2, Mark 3])")
  from dropped_open_blocks [OF _ a _ _ b, of 2 Admitted] b show ?thesis by simp
qed

lemma open_fresh:
  assumes "open_stream L E D sister m = (Ok stream, m')" "hm_get (cm_iroh_sessions m) sister = None"
  obtains connection where "connect_to_sister_with_session L E D (cm_connector m) sister = Ok connection" "stream = cs_stream connection"
    "hm_get (cm_states m') sister = Some Connected" "cm_connector m' = cm_connector m"
    "hm_get (cm_iroh_sessions m') sister = (case (cs_iroh_session connection, ns_endpoint (cs_stream connection)) of
       (Some session, Endpoint_Iroh endpoint) \<Rightarrow> Some (endpoint, session) | _ \<Rightarrow> None)"
proof -
  obtain m1 where m1: "open_admit sister m = Ok m1" "open_loop L E D sister Admitted m1 = (Ok stream, m')"
    using assms(1) by (auto simp: open_stream_def split: sum.splits)
  then have "m1 = set_state sister Connecting m" by (auto simp: open_admit_def split: if_splits)
  with assms(2) m1(2) show thesis
    by (auto simp: open_loop.simps open_step_def set_state_def hm_simps split: sum.splits prod.splits option.splits NetworkEndpoint.splits intro!: that)
qed

text \<open>C26: A reused session skips the authentication. On a manager with session material the first stream to a
  Sister carries the exchange of hellos; the next one is opened on the cached session without it, although
  the Sister at the other end authenticates every stream before it serves it.\<close>

theorem reused_stream_unauthenticated:
  assumes "co_authenticated_session c = Some auth" "open_stream L E D sister (ConnectionManager_new c) = (Ok first, m)"
    and "ns_session first = Some session" "de_open D' session = Ok (True, handshake_bytes (svc_network_id (co_peers c)) @ rest)"
    and "\<not> de_closed D' session" "de_in_time D' session"
  shows "ns_hellos first \<noteq> None
    \<and> (\<exists>second m'. open_stream L E D' sister m = (Ok second, m') \<and> ns_session second = Some session \<and> ns_hellos second = None)"
proof -
  obtain connection where connection: "connect_to_sister_with_session L E D c sister = Ok connection" "first = cs_stream connection"
    "hm_get (cm_states m) sister = Some Connected" "cm_connector m = c"
    "hm_get (cm_iroh_sessions m) sister = (case (cs_iroh_session connection, ns_endpoint (cs_stream connection)) of
       (Some session, Endpoint_Iroh endpoint) \<Rightarrow> Some (endpoint, session) | _ \<Rightarrow> None)"
    using open_fresh [OF assms(2)] by (auto simp: ConnectionManager_new_def)
  from connection(1) obtain candidate where "connect_attempt L D c sister candidate = Ok connection" by (elim connectD)
  from attempt_established [OF this] assms(1, 3) connection(2) obtain endpoint where
    first: "ns_endpoint first = Endpoint_Iroh endpoint" "cs_iroh_session connection = Some session" "ns_hellos first \<noteq> None"
    by (auto simp: stream_established_def split: NetworkEndpoint.splits option.splits)
  then have "hm_get (cm_iroh_sessions m) sister = Some (endpoint, session)" using connection(2, 5) by simp
  moreover have "session_open_stream D' (svc_network_id (co_peers c)) endpoint session
      = Ok \<lparr>ns_endpoint = Endpoint_Iroh endpoint, ns_session = Some session, ns_hellos = None\<rparr>"
  proof -
    have "client_handshake (svc_network_id (co_peers c)) True (handshake_bytes (svc_network_id (co_peers c)) @ rest) = Ok ()"
      by (simp add: client_handshake_ok)
    with assms(4) show ?thesis by (simp add: session_open_stream_def)
  qed
  ultimately show ?thesis
    using first(3) connection(3, 4) assms(5, 6)
    by (simp add: open_stream_def open_admit_def open_loop.simps open_step_def set_state_def)
qed

lemma sample_open: "\<exists>first m. open_stream lib0 sample_endpoints sample_dial 2 (ConnectionManager_new sample_connector) = (Ok first, m) \<and> ns_session first = Some 0"
proof -
  obtain s where s: "connect_attempt lib0 sample_dial sample_connector 2 (for_endpoint (\<lambda>_. V4 10 0 0 1) (Endpoint_Iroh 11)) = Ok s"
    using sample_attempt [of "\<lambda>_. V4 10 0 0 1"] by (cases "connect_attempt lib0 sample_dial sample_connector 2 (for_endpoint (\<lambda>_. V4 10 0 0 1) (Endpoint_Iroh 11))") auto
  have kept: "ec_endpoint (for_endpoint (\<lambda>_. V4 10 0 0 1) (Endpoint_Iroh 11)) = Endpoint_Iroh 11"
    by (simp add: for_endpoint_def EndpointCandidate_tcp_def)
  have "ns_session (cs_stream s) = Some 0" "cs_iroh_session s = Some 0" "ns_endpoint (cs_stream s) = Endpoint_Iroh 11"
    using attempt_established [OF s] kept by (auto simp: stream_established_def sample_dial_def)
  moreover have "connect_to_sister_with_session lib0 sample_endpoints sample_dial sample_connector 2 = Ok s"
    using s by (simp add: connect_to_sister_with_session_def sample_connector_def sample_peer_service_def sample_endpoints_def
        NetworkEndpoint_from_str_def strip_prefix_def rank_candidates_def sample_dial_def)
  ultimately show ?thesis
    by (simp add: open_stream_def open_admit_def ConnectionManager_new_def open_loop.simps open_step_def set_state_def)
qed

theorem reused_stream_unauthenticated_witness:
  "\<exists>first m second m'. open_stream lib0 sample_endpoints sample_dial 2 (ConnectionManager_new sample_connector) = (Ok first, m)
     \<and> open_stream lib0 sample_endpoints sample_dial 2 m = (Ok second, m') \<and> ns_hellos first \<noteq> None \<and> ns_hellos second = None"
proof -
  obtain first m where first: "open_stream lib0 sample_endpoints sample_dial 2 (ConnectionManager_new sample_connector) = (Ok first, m)" "ns_session first = Some 0"
    using sample_open by blast
  have "co_authenticated_session sample_connector = Some sample_session" "svc_network_id (co_peers sample_connector) = 7"
    by (simp_all add: sample_connector_def sample_peer_service_def)
  with reused_stream_unauthenticated [OF _ first, of sample_session sample_dial "[]"] first show ?thesis
    by (auto simp: sample_dial_def)
qed

lemma those_None: "those xs = None \<longleftrightarrow> None \<in> set xs"
  by (induction xs) (auto split: option.splits)

text \<open>The TLS connector takes every endpoint for TCP. If a Sister with a pinned certificate is known by an
  Iroh endpoint, wherever it stands in the list, connecting to it panics instead of using its other
  endpoints or reporting an error.\<close>

theorem secure_connect_panics:
  assumes "hm_get (pt_peers (svc_registry peers)) sister = Some peer" "ps_stream_certificate peer = Some certificate"
    and "config certificate = Ok tls" "raw \<in> set (ps_stream_endpoints peer)" "NetworkEndpoint_from_str E raw = Some (Endpoint_Iroh endpoint)"
  shows "secure_connect_to_sister E ip config peers sister = None"
proof -
  obtain endpoints e where p: "parse_endpoints E sister (ps_stream_endpoints peer) None = (endpoints, e)" by fastforce
  then have "endpoints = List.map_filter (NetworkEndpoint_from_str E) (ps_stream_endpoints peer)"
    using parse_endpoints_fst [of E sister "ps_stream_endpoints peer" None] by simp
  then have "Endpoint_Iroh endpoint \<in> set endpoints" using assms(4, 5) by (force simp: set_map_filter_some image_iff)
  then have "those (map (EndpointCandidate_tcp ip) endpoints) = None" by (force simp: those_None EndpointCandidate_tcp_def image_iff)
  with p assms show ?thesis by (auto simp: secure_connect_to_sister_def)
qed

theorem secure_connect_panics_witness:
  "secure_connect_to_sister sample_endpoints (\<lambda>_. V4 10 0 0 1) (\<lambda>_. Ok (\<lambda>_. Err Net_Tls))
     (sample_peer_service\<lparr>svc_registry := \<lparr>pt_peers = [(2, sample_peer\<lparr>ps_stream_endpoints := [''tcp://a'', ''iroh://x''], ps_stream_certificate := Some [1]\<rparr>)],
        pt_last_seen = []\<rparr>\<rparr>) 2 = None"
  by (rule secure_connect_panics [where raw = "''iroh://x''" and endpoint = 11 and certificate = "[1]"
        and peer = "sample_peer\<lparr>ps_stream_endpoints := [''tcp://a'', ''iroh://x''], ps_stream_certificate := Some [1]\<rparr>"])
    (simp_all add: NetworkEndpoint_from_str_def sample_endpoints_def strip_prefix_def)


section \<open>The streams in the registry\<close>

text \<open>Registrations as they are made and dropped, with the handles that are alive\<close>

datatype reg_event = Register ActiveStream | Unregister u64

fun reg_apply :: "reg_event \<Rightarrow> StreamRegistry \<times> (u64 \<times> ActiveStream) list \<Rightarrow> StreamRegistry \<times> (u64 \<times> ActiveStream) list" where
  "reg_apply (Register stream) (r, live) = (case register stream r of (i, r') \<Rightarrow> (r', live @ [(i, stream)]))"
| "reg_apply (Unregister i) (r, live) = (drop_registration i r, filter (\<lambda>(j, _). j \<noteq> i) live)"

definition reg_count :: "reg_event list \<Rightarrow> nat" where
  "reg_count events = length (filter (\<lambda>e. case e of Register _ \<Rightarrow> True | Unregister _ \<Rightarrow> False) events)"

lemma reg_run:
  assumes "reg_count events \<le> 2 ^ 64" "fold reg_apply events (\<lparr>reg_next_id = 0, reg_entries = []\<rparr>, []) = (r, live)"
  shows "reg_next_id r = of_nat (reg_count events) \<and> reg_entries r = live \<and> distinct (map fst live)
    \<and> (\<forall>i\<in>set (map fst live). unat i < reg_count events)"
  using assms
proof (induction events arbitrary: r live rule: rev_induct)
  case Nil
  then show ?case by (auto simp: reg_count_def)
next
  case (snoc event events)
  obtain r0 live0 where run: "fold reg_apply events (\<lparr>reg_next_id = 0, reg_entries = []\<rparr>, []) = (r0, live0)" by fastforce
  show ?case
  proof (cases event)
    case (Register stream)
    then have count: "reg_count (events @ [event]) = Suc (reg_count events)" by (simp add: reg_count_def)
    with snoc.prems(1) have small: "reg_count events < 2 ^ 64" by simp
    note ih = snoc.IH [OF less_imp_le [OF small] run]
    have nid: "unat (reg_next_id r0) = reg_count events" using ih small by (simp add: unsigned_of_nat take_bit_nat_eq_self)
    then have fresh: "reg_next_id r0 \<notin> set (map fst live0)" using ih by (metis less_irrefl)
    then have "hm_insert (reg_next_id r0) stream live0 = live0 @ [(reg_next_id r0, stream)]"
      by (induction live0) auto
    moreover have "r = r0\<lparr>reg_next_id := reg_next_id r0 + 1, reg_entries := hm_insert (reg_next_id r0) stream (reg_entries r0)\<rparr>"
      "live = live0 @ [(reg_next_id r0, stream)]" using snoc.prems(2) run Register by (simp_all add: register_def)
    ultimately have shape: "reg_next_id r = reg_next_id r0 + 1" "reg_entries r = live" "live = live0 @ [(reg_next_id r0, stream)]" using ih by simp_all
    have "\<forall>i\<in>set (map fst live). unat i < Suc (reg_count events)" using shape(3) ih nid by (auto simp: less_Suc_eq)
    moreover have "distinct (map fst live)" using shape(3) ih fresh by auto
    ultimately show ?thesis using shape(1, 2) ih count by (simp add: add.commute)
  next
    case (Unregister i)
    then have count: "reg_count (events @ [event]) = reg_count events" by (simp add: reg_count_def)
    have ih: "reg_next_id r0 = of_nat (reg_count events)" "reg_entries r0 = live0" "distinct (map fst live0)" "\<forall>i\<in>set (map fst live0). unat i < reg_count events"
      using snoc.IH [OF _ run] snoc.prems(1) count by auto
    have "hm_remove i live0 = filter (\<lambda>(j, _). j \<noteq> i) live0" by (induction live0) auto
    moreover have "distinct (map fst (filter (\<lambda>(j, _). j \<noteq> i) live0))" using ih(3) by (rule distinct_map_filter)
    moreover have "r = drop_registration i r0" "live = filter (\<lambda>(j, _). j \<noteq> i) live0" using snoc.prems(2) run Unregister by simp_all
    moreover have "set (filter (\<lambda>(j, _). j \<noteq> i) live0) \<subseteq> set live0" by simp
    ultimately show ?thesis using ih count by (simp add: drop_registration_def)
  qed
qed

text \<open>The registry shows exactly the streams that are open. Over any sequence of registrations and drops,
  of which there may be as many as there are 64-bit numbers, no two live streams share an id, a snapshot
  lists each of them once in the order of the ids, and the summary counts and adds them up.\<close>

theorem registry_exact:
  assumes "reg_count events \<le> 2 ^ 64" "fold reg_apply events (\<lparr>reg_next_id = 0, reg_entries = []\<rparr>, []) = (r, live)"
  shows "distinct (map fst live) \<and> map ass_stream_id (registry_snapshot now r) = sort (map fst live)
    \<and> set (registry_snapshot now r) = stream_snapshot now ` set live
    \<and> registry_summary r = (length live, sum_list (map (fst \<circ> as_stats \<circ> snd) live), sum_list (map (snd \<circ> as_stats \<circ> snd) live))"
proof -
  note run = reg_run [OF assms]
  have ids: "ass_stream_id (stream_snapshot now p) = fst p" for p by (cases p) (simp add: stream_snapshot_def Let_def)
  have "map ass_stream_id (registry_snapshot now r) = sort (map fst live)"
  proof (rule properties_for_sort [symmetric])
    show "mset (map ass_stream_id (registry_snapshot now r)) = mset (map fst live)"
      using run by (simp add: registry_snapshot_def ids multiset.map_comp comp_def)
    show "sorted (map ass_stream_id (registry_snapshot now r))" by (simp add: registry_snapshot_def)
  qed
  with run show ?thesis by (simp add: registry_snapshot_def registry_summary_def comp_def)
qed

definition sample_active :: ActiveStream where
  "sample_active = \<lparr>as_path = \<lparr>pi_backend = ''iroh'', pi_route = ''direct'', pi_rtt_ms = None, pi_path_switches = 0, pi_local_endpoint = None,
     pi_remote_endpoint = None\<rparr>, as_path_provider = None, as_stats = (5, 6), as_started_at = 1, as_peer_addr = None\<rparr>"

theorem registry_exact_witness:
  "\<exists>r live. fold reg_apply [Register sample_active, Register sample_active, Unregister 0] (\<lparr>reg_next_id = 0, reg_entries = []\<rparr>, []) = (r, live)
     \<and> map ass_stream_id (registry_snapshot 5 r) = [1]"
proof -
  let ?es = "[Register sample_active, Register sample_active, Unregister 0]"
  have run: "fold reg_apply ?es (\<lparr>reg_next_id = 0, reg_entries = []\<rparr>, []) = (\<lparr>reg_next_id = 2, reg_entries = [(1, sample_active)]\<rparr>, [(1, sample_active)])"
    by (simp add: register_def drop_registration_def)
  from registry_exact [OF _ run, of 5] run show ?thesis by (simp add: reg_count_def)
qed

end
