(* ===== verification/Misaka_Accept.thy ===== *)
theory Misaka_Accept
  imports Misaka_Streams Misaka_Connections
begin

text \<open>
  What comes in: the control channel (\<^verbatim>\<open>misaka-runtime/src/control_channel.rs\<close>), the service of an Iroh
  stream and the accept loops (\<^verbatim>\<open>misaka-runtime/src/runtime.rs\<close>, \<^verbatim>\<open>misaka-network/src/iroh_backend.rs\<close>). A
  stalled peer is one whose bytes end early: the time limits of single reads are the end of the input. The
  time limit on the opening of the next stream matters for the others and is modelled with the clock.
\<close>

section \<open>The control channel\<close>

definition CONTROL_MAGIC :: bytes where
  "CONTROL_MAGIC = str_bytes ''MSKC''"

record ControlRequest =
  cq_envelope :: Envelope
  cq_expect_response :: bool

record control_codec =
  cc_enc_request :: "ControlRequest \<Rightarrow> bytes"
  cc_dec_request :: "bytes \<Rightarrow> ControlRequest option"
  cc_enc_envelope :: "Envelope \<Rightarrow> bytes"
  cc_dec_envelope :: "bytes \<Rightarrow> Envelope option"

definition io_flush :: "unit io" where
  "io_flush = io_op (io_return ())"

definition control_write_frame :: "bytes \<Rightarrow> unit io" where
  "control_write_frame payload =
     (if length payload > MAX_CONTROL_FRAME_LENGTH then io_fail InvalidData else io_then (io_write_frame payload) io_flush)"

text \<open>
  The sending end after the stream is open and authenticated: \<open>answer\<close> is all that the far end sends. The
  result and the bytes that were written.
\<close>

definition control_exchange :: "control_codec \<Rightarrow> Envelope \<Rightarrow> bool \<Rightarrow> bytes \<Rightarrow> (NetworkError + Envelope option) \<times> bytes" where
  "control_exchange K envelope expect_response answer =
     (case read_exact 5 answer of
        Inl _ \<Rightarrow> (Err Net_Io, [])
      | Inr (greeting, answer') \<Rightarrow>
          if greeting \<noteq> str_bytes ''world'' then (Err Net_Authentication, [])
          else (case write_frame MAX_CONTROL_FRAME_LENGTH (cc_enc_request K \<lparr>cq_envelope = envelope, cq_expect_response = expect_response\<rparr>) of
             Inl _ \<Rightarrow> (Err Net_Authentication, CONTROL_MAGIC)
           | Inr frame \<Rightarrow>
               (if \<not> expect_response then Ok None
                else (case read_frame MAX_CONTROL_FRAME_LENGTH answer' of
                   Inl Unexpected_eof \<Rightarrow> Err Net_Io
                 | Inl Frame_too_large \<Rightarrow> Err Net_Authentication
                 | Inr (payload, _) \<Rightarrow>
                     (case cc_dec_envelope K payload of None \<Rightarrow> Err Net_Authentication | Some response \<Rightarrow> Ok (Some response))),
                CONTROL_MAGIC @ frame)))"

text \<open>\<open>control_channel::send\<close>: a session, a stream, the hellos with the pinned Sister, and the exchange\<close>

definition control_send :: "lib \<Rightarrow> dial_env \<Rightarrow> control_codec \<Rightarrow> IrohEndpointId \<Rightarrow> NetworkId \<Rightarrow> AuthenticatedSessionConfig option \<Rightarrow> Envelope \<Rightarrow> bool
    \<Rightarrow> SisterPublicKey option \<Rightarrow> bytes \<Rightarrow> (NetworkError + Envelope option) \<times> bytes" where
  "control_send L D K endpoint network_id auth envelope expect_response expected_key answer =
     (case de_session D endpoint of
        Inl e \<Rightarrow> (Err e, [])
      | Inr session \<Rightarrow>
          (case session_open_stream D network_id endpoint session of
             Inl e \<Rightarrow> (Err e, [])
           | Inr stream \<Rightarrow>
               (case (case auth of None \<Rightarrow> Ok stream
                      | Some auth \<Rightarrow> authenticate_stream L D auth (if env_to envelope \<noteq> 0 then Some (env_to envelope) else None) expected_key session stream) of
                  Inl e \<Rightarrow> (Err e, [])
                | Inr _ \<Rightarrow> control_exchange K envelope expect_response answer)))"

definition net_error :: "io_error \<Rightarrow> NetworkError" where
  "net_error e = (if e = InvalidData then Net_Authentication else Net_Io)"

text \<open>\<open>control_channel::serve\<close>\<close>

definition control_serve :: "lib \<Rightarrow> endpoint_parsers \<Rightarrow> codec \<Rightarrow> control_codec \<Rightarrow> ambient \<Rightarrow> SisterNode \<Rightarrow> u64 option \<Rightarrow> world
    \<Rightarrow> (NetworkError + unit) \<times> effect list \<times> SisterNode \<times> world" where
  "control_serve L E C K A node peer w =
     (case io_read_frame MAX_CONTROL_FRAME_LENGTH (cc_dec_request K) w of
        (Inl e, w') \<Rightarrow> (Err (net_error e), [], node, w')
      | (Inr request, w') \<Rightarrow>
          (case dispatch_envelope L E C A node (cq_envelope request) peer of
             (Inl _, fx, node') \<Rightarrow> (Err Net_Authentication, fx, node', w')
           | (Inr response, fx, node') \<Rightarrow>
               (case (cq_expect_response request, response) of
                  (True, Some r) \<Rightarrow>
                    (case control_write_frame (cc_enc_envelope K r) w' of
                       (Inl e, w'') \<Rightarrow> (Err (net_error e), fx, node', w'') | (Inr _, w'') \<Rightarrow> (Ok (), fx, node', w''))
                | _ \<Rightarrow> (Ok (), fx, node', w'))))"

section \<open>One stream\<close>

definition read_service_prefix :: "world \<Rightarrow> bytes option \<times> world" where
  "read_service_prefix w = (case io_read_exact 4 w of (Inl _, w') \<Rightarrow> (None, w') | (Inr prefix, w') \<Rightarrow> (Some prefix, w'))"

text \<open>\<open>control_channel::prepend\<close>: the four bytes that were read are delivered again.\<close>

definition prepend :: "bytes \<Rightarrow> world \<Rightarrow> world" where
  "prepend prefix w = w\<lparr>w_in := prefix @ w_in w\<rparr>"

definition serve_iroh_stream ::
    "lib \<Rightarrow> endpoint_parsers \<Rightarrow> codec \<Rightarrow> control_codec \<Rightarrow> transfer_codec \<Rightarrow> ambient \<Rightarrow> (bytes \<Rightarrow> nat) \<Rightarrow> (string \<Rightarrow> 'addr option) \<Rightarrow> ('addr \<Rightarrow> bool)
      \<Rightarrow> string \<Rightarrow> string \<Rightarrow> string \<Rightarrow> bool \<Rightarrow> SisterNode \<Rightarrow> u64 option \<Rightarrow> world \<Rightarrow> effect list \<times> SisterNode \<times> world" where
  "serve_iroh_stream L E C K T A pick parse connect root tag tag' probe_only node peer w =
     (case io_then (io_write_all (str_bytes ''world'')) io_flush w of
        (Inl _, w1) \<Rightarrow> ([], node, w1)
      | (Inr _, w1) \<Rightarrow>
          (case read_service_prefix w1 of
             (None, w2) \<Rightarrow> ([], node, w2)
           | (Some prefix, w2) \<Rightarrow>
               if prefix = CONTROL_MAGIC
               then (case control_serve L E C K A node peer w2 of (_, fx, node', w3) \<Rightarrow> (fx, node', w3))
               else (case echo_stream_after_greeting L T A pick parse connect root tag tag' probe_only (Some node) (prepend prefix w2) of
                  (_, node', w3) \<Rightarrow> ([], (case node' of Some n \<Rightarrow> n | None \<Rightarrow> node), w3))))"

section \<open>The accept loops\<close>

definition MAX_IROH_SESSIONS :: nat where
  "MAX_IROH_SESSIONS = 512"

definition MAX_IROH_STREAMS :: nat where
  "MAX_IROH_STREAMS = 2048"

definition IROH_ALPN :: bytes where
  "IROH_ALPN = str_bytes ''misaka/stream/iroh/0''"

definition ENROLLMENT_ALPN :: bytes where
  "ENROLLMENT_ALPN = str_bytes ''misaka/enrollment/1''"

datatype stream_phase = Authenticating | Serving "AuthenticatedPeer option"

text \<open>The tasks that run: sessions, with whether they enroll, and streams, each with its session\<close>

record Acceptor =
  ac_auth :: "AuthenticatedSessionConfig option"
  ac_enrollment :: bool
  ac_sessions :: "(nat, bool) hashmap"
  ac_streams :: "(nat, nat \<times> stream_phase) hashmap"
  ac_shutdown :: bool

datatype accept_event = Session_in nat bytes | Session_out nat | Stream_in nat nat
  | Hello_in nat u64 arr32 AuthenticatedClientHello "string option" | Hello_lost nat | Stream_out nat | Shutdown_requested

fun accept_apply :: "lib \<Rightarrow> (string \<Rightarrow> IrohEndpointId option) \<Rightarrow> accept_event \<Rightarrow> Acceptor \<Rightarrow> Acceptor" where
  "accept_apply L parse (Session_in s alpn) ac =
     (if ac_shutdown ac \<or> hm_get (ac_sessions ac) s \<noteq> None then ac
      else if length (ac_sessions ac) \<ge> MAX_IROH_SESSIONS then ac
      else if alpn = ENROLLMENT_ALPN \<and> \<not> ac_enrollment ac then ac
      else ac\<lparr>ac_sessions := hm_insert s (alpn = ENROLLMENT_ALPN) (ac_sessions ac)\<rparr>)"
| "accept_apply L parse (Session_out s) ac =
     ac\<lparr>ac_sessions := hm_remove s (ac_sessions ac), ac_streams := hm_retain (\<lambda>_ (s', _). s' \<noteq> s) (ac_streams ac)\<rparr>"
| "accept_apply L parse (Stream_in t s) ac =
     (if ac_shutdown ac \<or> hm_get (ac_streams ac) t \<noteq> None \<or> hm_get (ac_sessions ac) s \<noteq> Some False then ac
      else if length (ac_streams ac) \<ge> MAX_IROH_STREAMS then ac
      else ac\<lparr>ac_streams := hm_insert t (s, if ac_auth ac = None then Serving None else Authenticating) (ac_streams ac)\<rparr>)"
| "accept_apply L parse (Hello_in t now nonce hello remote) ac =
     (case (ac_auth ac, hm_get (ac_streams ac) t) of
        (Some auth, Some (s, Authenticating)) \<Rightarrow>
          (case authenticate_server L parse now nonce auth hello remote of
             Inr (_, peer) \<Rightarrow> ac\<lparr>ac_streams := hm_insert t (s, Serving (Some peer)) (ac_streams ac)\<rparr>
           | Inl _ \<Rightarrow> ac\<lparr>ac_streams := hm_remove t (ac_streams ac)\<rparr>)
      | _ \<Rightarrow> ac)"
| "accept_apply L parse (Hello_lost t) ac =
     (case hm_get (ac_streams ac) t of
        Some (s, Authenticating) \<Rightarrow> ac\<lparr>ac_streams := hm_remove t (ac_streams ac)\<rparr> | _ \<Rightarrow> ac)"
| "accept_apply L parse (Stream_out t) ac = ac\<lparr>ac_streams := hm_remove t (ac_streams ac)\<rparr>"
| "accept_apply L parse Shutdown_requested ac = ac\<lparr>ac_shutdown := True, ac_sessions := [], ac_streams := []\<rparr>"

definition accept_run :: "lib \<Rightarrow> (string \<Rightarrow> IrohEndpointId option) \<Rightarrow> AuthenticatedSessionConfig option \<Rightarrow> bool \<Rightarrow> accept_event list \<Rightarrow> Acceptor" where
  "accept_run L parse auth enrollment events =
     fold (accept_apply L parse) events
       \<lparr>ac_auth = auth, ac_enrollment = enrollment, ac_sessions = [], ac_streams = [], ac_shutdown = False\<rparr>"

section \<open>One session and its clock\<close>

text \<open>Milliseconds\<close>

definition HANDSHAKE_TIMEOUT :: nat where
  "HANDSHAKE_TIMEOUT = 5000"

text \<open>
  What the peer of a session does next, after \<open>wait\<close>: it opens a stream, whose handshake arrives after
  \<open>handshake\<close> more and whose service would last for \<open>lasts\<close>, or the connection is lost, or the node is
  shut down. \<open>slot\<close> says whether the node has capacity for another stream.
\<close>

record stream_arrival =
  sa_wait :: nat
  sa_handshake :: nat
  sa_request :: bytes
  sa_written :: bool
  sa_slot :: bool
  sa_lasts :: nat

datatype session_event = Opens stream_arrival | Lost nat | Stopped nat

text \<open>\<open>IrohSession::accept_stream\<close>: the result, and how long it took\<close>

definition accept_stream :: "NetworkId \<Rightarrow> session_event option \<Rightarrow> (NetworkError + stream_arrival) \<times> nat" where
  "accept_stream network_id event =
     (case event of
        Some (Opens a) \<Rightarrow>
          if sa_wait a > HANDSHAKE_TIMEOUT then (Err Net_Handshake, HANDSHAKE_TIMEOUT)
          else if sa_handshake a > HANDSHAKE_TIMEOUT then (Err Net_Handshake, sa_wait a + HANDSHAKE_TIMEOUT)
          else (case server_handshake network_id (sa_written a) (sa_request a) of
                  (Inl e, _) \<Rightarrow> (Err e, sa_wait a + sa_handshake a) | (Inr _, _) \<Rightarrow> (Ok a, sa_wait a + sa_handshake a))
      | Some (Lost wait) \<Rightarrow> if wait > HANDSHAKE_TIMEOUT then (Err Net_Handshake, HANDSHAKE_TIMEOUT) else (Err Net_Iroh, wait)
      | _ \<Rightarrow> (Err Net_Handshake, HANDSHAKE_TIMEOUT))"

text \<open>
  \<open>iroh_session_loop\<close>: the streams that were accepted, each with the time of its start and the time its
  service needs, and the time at which the loop ended and aborted those still running
\<close>

fun session_loop :: "NetworkId \<Rightarrow> nat \<Rightarrow> session_event list \<Rightarrow> (nat \<times> nat) list \<Rightarrow> (nat \<times> nat) list \<times> nat" where
  "session_loop network_id now (Stopped wait # events) streams = (streams, now + min wait HANDSHAKE_TIMEOUT)"
| "session_loop network_id now [] streams = (streams, now + snd (accept_stream network_id None))"
| "session_loop network_id now (event # events) streams =
     (case accept_stream network_id (Some event) of
        (Inl _, took) \<Rightarrow> (streams, now + took)
      | (Inr a, took) \<Rightarrow>
          session_loop network_id (now + took) events (if sa_slot a then streams @ [(now + took, sa_lasts a)] else streams))"

datatype stream_fate = Completed | Aborted_after nat

definition session_fates :: "NetworkId \<Rightarrow> nat \<Rightarrow> session_event list \<Rightarrow> (nat \<times> nat) list \<Rightarrow> stream_fate list" where
  "session_fates network_id now events streams =
     (case session_loop network_id now events streams of (accepted, ended) \<Rightarrow>
        map (\<lambda>(start, lasts). if start + lasts \<le> ended then Completed else Aborted_after (ended - start)) accepted)"

section \<open>Capacity and authentication\<close>

text \<open>A stream may be served for a peer: without session material for nobody in particular, otherwise for one
  whose hello arrived on this stream and was accepted.\<close>

definition stream_admitted :: "lib \<Rightarrow> (string \<Rightarrow> IrohEndpointId option) \<Rightarrow> AuthenticatedSessionConfig option \<Rightarrow> accept_event list \<Rightarrow> nat \<Rightarrow> AuthenticatedPeer option \<Rightarrow> bool" where
  "stream_admitted L parse auth events t peer \<longleftrightarrow>
     (case auth of
        None \<Rightarrow> peer = None
      | Some local \<Rightarrow> \<exists>now nonce hello remote reply p. peer = Some p \<and> Hello_in t now nonce hello remote \<in> set events
          \<and> authenticate_server L parse now nonce local hello remote = Ok (reply, p))"

text \<open>What holds of the running tasks after any events\<close>

definition accept_inv :: "lib \<Rightarrow> (string \<Rightarrow> IrohEndpointId option) \<Rightarrow> AuthenticatedSessionConfig option \<Rightarrow> bool \<Rightarrow> accept_event list \<Rightarrow> Acceptor \<Rightarrow> bool" where
  "accept_inv L parse auth enrollment events ac \<longleftrightarrow>
     ac_auth ac = auth \<and> ac_enrollment ac = enrollment \<and> hm_wf (ac_sessions ac) \<and> hm_wf (ac_streams ac)
     \<and> length (ac_sessions ac) \<le> MAX_IROH_SESSIONS \<and> length (ac_streams ac) \<le> MAX_IROH_STREAMS
     \<and> (ac_shutdown ac \<longrightarrow> ac_sessions ac = [] \<and> ac_streams ac = [])
     \<and> (\<forall>t s phase. hm_get (ac_streams ac) t = Some (s, phase) \<longrightarrow> hm_get (ac_sessions ac) s = Some False)
     \<and> (\<forall>t s peer. hm_get (ac_streams ac) t = Some (s, Serving peer) \<longrightarrow> stream_admitted L parse auth events t peer)"

lemma stream_admitted_later: "stream_admitted L parse auth events t peer \<Longrightarrow> set events \<subseteq> set events' \<Longrightarrow> stream_admitted L parse auth events' t peer"
  unfolding stream_admitted_def by (cases auth) (simp, simp only: option.case, blast)

lemma stream_admitted_simps:
  "stream_admitted L parse None events t None"
  "authenticate_server L parse now nonce local hello remote = Ok (reply, p) \<Longrightarrow> Hello_in t now nonce hello remote \<in> set events
     \<Longrightarrow> stream_admitted L parse (Some local) events t (Some p)"
  unfolding stream_admitted_def by (simp, simp only: option.case, blast)

lemma length_hm_insert: "length (hm_insert k v m) = (if hm_get m k = None then Suc (length m) else length m)"
  by (induction m) auto

lemma length_hm_remove: "length (hm_remove k m) \<le> length m"
  by (simp add: AList.length_delete_le)

lemma hm_retain_Nil: "hm_retain P [] = []"
  by (simp add: hm_retain_def)

lemma length_hm_retain: "length (hm_retain P m) \<le> length m"
  by (simp add: hm_retain_def)

lemma accept_inv_later: "accept_inv L parse auth enrollment events ac \<Longrightarrow> set events \<subseteq> set events' \<Longrightarrow> accept_inv L parse auth enrollment events' ac"
  unfolding accept_inv_def using stream_admitted_later [of L parse auth events _ _ events'] by blast

lemma accept_inv_remove:
  assumes "accept_inv L parse auth enrollment events ac"
  shows "accept_inv L parse auth enrollment events (ac\<lparr>ac_streams := hm_remove t (ac_streams ac)\<rparr>)"
  using assms length_hm_remove [of t "ac_streams ac"] unfolding accept_inv_def
  by (auto simp: hm_simps split: if_splits intro: order_trans)

lemma accept_inv_serve:
  assumes "accept_inv L parse auth enrollment events ac" "hm_get (ac_streams ac) t = Some (s, phase)" "stream_admitted L parse auth events t peer"
  shows "accept_inv L parse auth enrollment events (ac\<lparr>ac_streams := hm_insert t (s, Serving peer) (ac_streams ac)\<rparr>)"
proof -
  have "hm_get (ac_sessions ac) s = Some False" "\<not> ac_shutdown ac" using assms(1, 2) unfolding accept_inv_def by auto
  with assms show ?thesis unfolding accept_inv_def by (simp add: hm_simps length_hm_insert)
qed

lemma accept_inv_apply:
  assumes "accept_inv L parse auth enrollment events ac"
  shows "accept_inv L parse auth enrollment (events @ [event]) (accept_apply L parse event ac)"
proof -
  have inv: "accept_inv L parse auth enrollment (events @ [event]) ac" by (rule accept_inv_later [OF assms]) auto
  show ?thesis
  proof (cases event)
    case (Session_in s alpn)
    with inv show ?thesis by (auto simp: accept_inv_def hm_simps length_hm_insert) (metis option.distinct(1))
  next
    case (Session_out s)
    have "length (hm_remove s (ac_sessions ac)) \<le> MAX_IROH_SESSIONS" "length (hm_retain (\<lambda>_ (s', _). s' \<noteq> s) (ac_streams ac)) \<le> MAX_IROH_STREAMS"
      using inv length_hm_remove [of s "ac_sessions ac"] length_hm_retain [of "\<lambda>_ (s', _). s' \<noteq> s" "ac_streams ac"]
      unfolding accept_inv_def by auto
    with Session_out inv show ?thesis by (auto simp: accept_inv_def hm_simps hm_retain_Nil split: option.splits if_splits)
  next
    case (Stream_in t s)
    with inv show ?thesis by (auto simp: accept_inv_def hm_simps length_hm_insert stream_admitted_simps split: if_splits)
  next
    case (Hello_in t now nonce hello remote)
    show ?thesis
    proof (cases "\<exists>local s. auth = Some local \<and> hm_get (ac_streams ac) t = Some (s, Authenticating)")
      case True
      then obtain local s where live: "auth = Some local" "hm_get (ac_streams ac) t = Some (s, Authenticating)" by blast
      have auth: "ac_auth ac = auth" using inv by (simp add: accept_inv_def)
      show ?thesis
      proof (cases "authenticate_server L parse now nonce local hello remote")
        case (Inr result)
        then obtain reply p where ok: "authenticate_server L parse now nonce local hello remote = Ok (reply, p)" by (cases result) simp
        then have "stream_admitted L parse auth (events @ [event]) t (Some p)"
          unfolding live(1) by (rule stream_admitted_simps(2)) (simp add: Hello_in)
        from accept_inv_serve [OF inv live(2) this] Hello_in auth live ok show ?thesis by simp
      qed (use Hello_in auth live accept_inv_remove [OF inv] in simp)
    next
      case False
      moreover have "ac_auth ac = auth" using inv by (simp add: accept_inv_def)
      ultimately show ?thesis using inv Hello_in by (auto split: option.splits stream_phase.splits)
    qed
  next
    case (Hello_lost t)
    with inv accept_inv_remove [OF inv] show ?thesis by (auto split: option.splits stream_phase.splits)
  next
    case (Stream_out t)
    with inv accept_inv_remove [OF inv] show ?thesis by simp
  next
    case Shutdown_requested
    with inv show ?thesis by (auto simp: accept_inv_def)
  qed
qed

lemma accept_inv_run: "accept_inv L parse auth enrollment events (accept_run L parse auth enrollment events)"
proof (induction events rule: rev_induct)
  case Nil
  then show ?case by (simp add: accept_run_def accept_inv_def)
next
  case (snoc event events)
  from accept_inv_apply [OF snoc.IH, of event] show ?case by (simp add: accept_run_def)
qed


definition sample_accept :: "accept_event list" where
  "sample_accept = [Session_in 0 IROH_ALPN, Stream_in 5 0, Hello_in 5 50 22 (client_hello_of lib0 21 sample_session) (Some ''iroh://x''), Session_in 1 ENROLLMENT_ALPN]"


section \<open>Sessions and time\<close>

fun event_wait :: "session_event \<Rightarrow> nat" where
  "event_wait (Opens a) = sa_wait a"
| "event_wait (Lost wait) = wait"
| "event_wait (Stopped wait) = wait"

lemma quiet_loop:
  assumes "\<forall>e es. events = e # es \<longrightarrow> event_wait e > HANDSHAKE_TIMEOUT"
  shows "session_loop network_id now events streams = (streams, now + HANDSHAKE_TIMEOUT)"
proof (cases events)
  case (Cons e es)
  with assms show ?thesis by (cases e) (auto simp: accept_stream_def)
qed (simp add: accept_stream_def)

text \<open>C17: A session that opens no new stream for five seconds is torn down with all that runs on it: the wait for
  the next stream has the time limit of a handshake, its expiry ends the loop, and the loop aborts every
  stream still in service, however busy it is. A stream on its own is cut after exactly five seconds. In the
  same way one stream of another Network ends all the others at once.\<close>

theorem session_cuts_streams:
  assumes "accept_stream network_id (Some (Opens a)) = (Ok a, took)" "sa_slot a"
    and "\<forall>e es. events = e # es \<longrightarrow> event_wait e > HANDSHAKE_TIMEOUT"
    and "sa_wait b \<le> HANDSHAKE_TIMEOUT" "sa_handshake b \<le> HANDSHAKE_TIMEOUT" "sa_request b = handshake_bytes other @ rest" "other \<noteq> network_id"
  shows "session_fates network_id now (Opens a # events) streams =
      map (\<lambda>(start, lasts). if start + lasts \<le> now + took + 5000 then Completed else Aborted_after (now + took + 5000 - start)) streams
        @ [if sa_lasts a \<le> 5000 then Completed else Aborted_after 5000]
    \<and> session_fates network_id now (Opens b # events') streams =
      map (\<lambda>(start, lasts). let ended = now + sa_wait b + sa_handshake b in if start + lasts \<le> ended then Completed else Aborted_after (ended - start)) streams"
proof
  from assms(1, 2) quiet_loop [OF assms(3), of network_id "now + took"]
  show "session_fates network_id now (Opens a # events) streams =
      map (\<lambda>(start, lasts). if start + lasts \<le> now + took + 5000 then Completed else Aborted_after (now + took + 5000 - start)) streams
        @ [if sa_lasts a \<le> 5000 then Completed else Aborted_after 5000]"
    by (simp add: session_fates_def HANDSHAKE_TIMEOUT_def)
  have "server_handshake network_id (sa_written b) (sa_request b) = (Err (Net_NetworkMismatch network_id other), [])"
    using handshake_refused [OF assms(7), of rest] assms(6) by (simp add: server_handshake_def)
  with assms(4, 5) show "session_fates network_id now (Opens b # events') streams =
      map (\<lambda>(start, lasts). let ended = now + sa_wait b + sa_handshake b in if start + lasts \<le> ended then Completed else Aborted_after (ended - start)) streams"
    by (simp add: session_fates_def accept_stream_def Let_def add.assoc)
qed

definition sample_arrival :: stream_arrival where
  "sample_arrival = \<lparr>sa_wait = 10, sa_handshake = 5, sa_request = handshake_bytes 7, sa_written = True, sa_slot = True, sa_lasts = 60000\<rparr>"

theorem session_cuts_streams_witness:
  "session_fates 7 0 [Opens sample_arrival] [] = [Aborted_after 5000]
   \<and> session_fates 7 100 [Opens (sample_arrival\<lparr>sa_request := handshake_bytes 8\<rparr>)] [(0, 60000)] = [Aborted_after 115]"
proof -
  have "read_and_validate_handshake (handshake_bytes 7) 7 = Ok ()" using handshake_accepted by blast
  then have ok: "accept_stream 7 (Some (Opens sample_arrival)) = (Ok sample_arrival, 15)"
    by (simp add: accept_stream_def sample_arrival_def HANDSHAKE_TIMEOUT_def server_handshake_def)
  let ?b = "sample_arrival\<lparr>sa_request := handshake_bytes 8\<rparr>"
  have b: "sa_wait ?b \<le> HANDSHAKE_TIMEOUT" "sa_handshake ?b \<le> HANDSHAKE_TIMEOUT" "sa_request ?b = handshake_bytes 8 @ []" "(8 :: NetworkId) \<noteq> 7" "sa_slot sample_arrival"
    by (simp_all add: sample_arrival_def HANDSHAKE_TIMEOUT_def)
  from session_cuts_streams [OF ok b(5) _ b(1-4), of "[]" 0 "[]" "[]"] session_cuts_streams [OF ok b(5) _ b(1-4), of "[]" 100 "[(0, 60000)]" "[]"]
  show ?thesis by (simp add: sample_arrival_def)
qed

section \<open>Messages and their answers\<close>

lemma control_limits: "MAX_CONTROL_FRAME_LENGTH < 2 ^ 32" "length CONTROL_MAGIC = 4"
  by (simp_all add: MAX_CONTROL_FRAME_LENGTH_def CONTROL_MAGIC_def str_bytes_def)

lemma control_write_calm:
  assumes "w_faults w = []" "write_frame MAX_CONTROL_FRAME_LENGTH payload = Ok frame"
  shows "control_write_frame payload w = (Ok (), w\<lparr>w_out := w_out w @ frame\<rparr>)"
  using assms by (auto simp: control_write_frame_def io_write_frame_def io_flush_def io_bind_def io_write_all_def io_op_def next_fault_def io_return_def
      write_frame_def split: if_splits)

text \<open>What the dispatcher's result puts on the stream\<close>

definition control_reply :: "control_codec \<Rightarrow> bool \<Rightarrow> NodeError + Envelope option \<Rightarrow> bytes" where
  "control_reply K expect r =
     (case r of Inr (Some response) \<Rightarrow> if expect then write_bincode_frame (cc_enc_envelope K response) else [] | _ \<Rightarrow> [])"

text \<open>A response that fits a frame and can be read back\<close>

definition response_ok :: "control_codec \<Rightarrow> NodeError + Envelope option \<Rightarrow> bool" where
  "response_ok K r \<longleftrightarrow> (\<forall>response. r = Ok (Some response) \<longrightarrow> length (cc_enc_envelope K response) \<le> MAX_CONTROL_FRAME_LENGTH
     \<and> cc_dec_envelope K (cc_enc_envelope K response) = Some response)"

lemma control_reply_frame:
  "response_ok K (Ok (Some response)) \<Longrightarrow> write_frame MAX_CONTROL_FRAME_LENGTH (cc_enc_envelope K response) = Ok (control_reply K True (Ok (Some response)))"
  by (simp add: response_ok_def write_frame_def control_reply_def write_bincode_frame_def)

lemma control_serve_calm:
  assumes "io_read_frame MAX_CONTROL_FRAME_LENGTH (cc_dec_request K) w = (Ok request, w')" "w_faults w' = []"
    and "dispatch_envelope L E C A node (cq_envelope request) peer = (r, fx, node')" "response_ok K r"
  shows "snd (control_serve L E C K A node peer w) = (fx, node', w'\<lparr>w_out := w_out w' @ control_reply K (cq_expect_response request) r\<rparr>)"
proof (cases "\<exists>response. r = Ok (Some response) \<and> cq_expect_response request")
  case True
  then obtain response where response: "r = Ok (Some response)" "cq_expect_response request" by blast
  with assms(4) control_write_calm [OF assms(2) control_reply_frame] assms(1, 3) show ?thesis
    by (simp add: control_serve_def)
next
  case False
  then have "control_reply K (cq_expect_response request) r = []" by (auto simp: control_reply_def split: sum.splits option.splits)
  with False assms(1, 3) show ?thesis
    by (cases r) (auto simp: control_serve_def split: option.splits bool.splits)
qed

lemma control_exchange_result:
  assumes "write_frame MAX_CONTROL_FRAME_LENGTH (cc_enc_request K \<lparr>cq_envelope = envelope, cq_expect_response = expect\<rparr>) = Ok frame" "response_ok K r"
  shows "control_exchange K envelope expect (str_bytes ''world'' @ control_reply K expect r)
    = (if expect then (case r of Inr (Some response) \<Rightarrow> Ok (Some response) | _ \<Rightarrow> Err Net_Io) else Ok None, CONTROL_MAGIC @ frame)"
proof -
  have greeting: "read_exact 5 (str_bytes ''world'' @ s) = Ok (str_bytes ''world'', s)" for s by (simp add: read_exact_def str_bytes_def)
  show ?thesis
  proof (cases "\<exists>response. r = Ok (Some response) \<and> expect")
    case True
    then obtain response where response: "r = Ok (Some response)" expect by blast
    with assms(2) have ok: "response_ok K (Ok (Some response))" by simp
    from read_written_frame [OF control_reply_frame [OF this] control_limits(1), of "[]"] ok assms(1) response show ?thesis
      by (simp add: control_exchange_def greeting response_ok_def)
  next
    case False
    then have "control_reply K expect r = []" by (auto simp: control_reply_def split: sum.splits option.splits)
    with False assms(1) show ?thesis
      by (cases r) (auto simp: control_exchange_def greeting read_frame_def read_exact_def str_bytes_def split: option.splits)
  qed
qed

lemma serve_control_stream:
  "serve_iroh_stream L E C K T A pick parse connect root tag tag' probe_only node peer \<lparr>w_files = f, w_faults = [], w_in = CONTROL_MAGIC @ s, w_out = []\<rparr>
     = snd (control_serve L E C K A node peer \<lparr>w_files = f, w_faults = [], w_in = s, w_out = str_bytes ''world''\<rparr>)"
  using control_limits(2)
  by (simp add: serve_iroh_stream_def read_service_prefix_def io_read_exact_def read_exact_def io_bind_def io_write_all_def io_flush_def io_op_def
      next_fault_def io_return_def split: prod.splits)

text \<open>C16: A message over the control channel arrives as it was sent. Whatever the node does with it, the message
  that the sender puts on a stream is dispatched exactly once, unchanged, and under the identity that was
  authenticated for the stream; and the sender that expects an answer gets exactly the answer of the
  dispatcher, or an error where there is none.\<close>

theorem control_round_trip:
  assumes "write_frame MAX_CONTROL_FRAME_LENGTH (cc_enc_request K \<lparr>cq_envelope = envelope, cq_expect_response = expect\<rparr>) = Ok frame"
    and "cc_dec_request K (cc_enc_request K \<lparr>cq_envelope = envelope, cq_expect_response = expect\<rparr>) = Some \<lparr>cq_envelope = envelope, cq_expect_response = expect\<rparr>"
    and "dispatch_envelope L E C A node envelope peer = (r, fx, node')"
    and "response_ok K r"
  shows "\<exists>answer. serve_iroh_stream L E C K T A pick parse connect root tag tag' probe_only node peer
        \<lparr>w_files = f, w_faults = [], w_in = snd (control_exchange K envelope expect answer), w_out = []\<rparr>
      = (fx, node', \<lparr>w_files = f, w_faults = [], w_in = [], w_out = answer\<rparr>)
    \<and> fst (control_exchange K envelope expect answer)
      = (if expect then (case r of Inr (Some response) \<Rightarrow> Ok (Some response) | _ \<Rightarrow> Err Net_Io) else Ok None)"
proof -
  let ?answer = "str_bytes ''world'' @ control_reply K expect r"
  let ?w = "\<lparr>w_files = f, w_faults = [], w_in = [], w_out = str_bytes ''world''\<rparr>"
  note exchange = control_exchange_result [OF assms(1, 4)]
  have frame: "frame = write_bincode_frame (cc_enc_request K \<lparr>cq_envelope = envelope, cq_expect_response = expect\<rparr>)"
    "length (cc_enc_request K \<lparr>cq_envelope = envelope, cq_expect_response = expect\<rparr>) \<le> MAX_CONTROL_FRAME_LENGTH"
    using assms(1) by (auto simp: write_frame_def write_bincode_frame_def split: if_splits)
  have "io_read_frame MAX_CONTROL_FRAME_LENGTH (cc_dec_request K) (?w\<lparr>w_in := frame\<rparr>) = (Ok \<lparr>cq_envelope = envelope, cq_expect_response = expect\<rparr>, ?w)"
    using io_read_written_frame [where decode = "cc_dec_request K" and w = ?w and rest = "[]", OF frame(2) control_limits(1) assms(2)] frame(1) by simp
  from control_serve_calm [OF this _ _ assms(4)] assms(3) show ?thesis
    by (intro exI [of _ ?answer]) (simp add: exchange serve_control_stream)
qed

definition sample_control :: control_codec where
  "sample_control = \<lparr>cc_enc_request = \<lambda>_. [1], cc_dec_request = \<lambda>_. Some \<lparr>cq_envelope = Envelope_new 7 Ping 3 2 [], cq_expect_response = True\<rparr>,
     cc_enc_envelope = \<lambda>_. [2], cc_dec_envelope = \<lambda>_. Some (Envelope_new 7 Pong 2 3 [])\<rparr>"

theorem control_round_trip_witness:
  "\<exists>answer. fst (control_exchange sample_control (Envelope_new 7 Ping 3 2 []) True answer) = Ok (Some (Envelope_new 7 Pong 2 3 []))"
proof -
  have ping: "dispatch_envelope lib0 sample_parsers sample_codec (sample_ambient 50 50) sample_node (Envelope_new 7 Ping 3 2 []) (Some 3)
      = (Ok (Some (Envelope_new 7 Pong 2 3 [])), [], sample_node)"
    by (simp add: dispatch_envelope_def Envelope_new_def sample_node_def sender_matches_peer_def sample_identity_def)
  have frame: "write_frame MAX_CONTROL_FRAME_LENGTH (cc_enc_request sample_control \<lparr>cq_envelope = Envelope_new 7 Ping 3 2 [], cq_expect_response = True\<rparr>)
      = Ok (word_bytes 4 (1 :: u32) @ [1])"
    by (simp add: write_frame_def sample_control_def MAX_CONTROL_FRAME_LENGTH_def)
  have dec: "cc_dec_request sample_control (cc_enc_request sample_control \<lparr>cq_envelope = Envelope_new 7 Ping 3 2 [], cq_expect_response = True\<rparr>)
      = Some \<lparr>cq_envelope = Envelope_new 7 Ping 3 2 [], cq_expect_response = True\<rparr>" by (simp add: sample_control_def)
  have resp: "response_ok sample_control (Ok (Some (Envelope_new 7 Pong 2 3 [])))"
    by (simp add: response_ok_def sample_control_def MAX_CONTROL_FRAME_LENGTH_def)
  from control_round_trip [OF frame dec ping resp, where T = sample_transfer_codec and pick = length and parse = "\<lambda>_. None :: unit option"
      and connect = "\<lambda>_. False" and f = "\<lambda>_. None" and root = "''o''" and tag = "''a''" and tag' = "''b''" and probe_only = False]
  show ?thesis by auto
qed

section \<open>Who speaks on a stream\<close>

lemma authorize_stream_peers: "authorize_stream_operation L A (Some node) a p c b = (r, node') \<Longrightarrow> \<exists>n. node' = Some n \<and> sn_peers n = sn_peers node"
  by (auto simp: authorize_stream_operation_def split: sum.splits option.splits prod.splits if_splits)

lemma authorized_stream_peers:
  assumes "authorized_stream L A request needs body (Some node) w = (r, node', w')"
  shows "\<exists>n. node' = Some n \<and> sn_peers n = sn_peers node"
  using assms by (auto simp: authorized_stream_def split: prod.splits sum.splits dest: authorize_stream_peers)

lemma echo_stream_peers:
  assumes "echo_stream_after_greeting L T A pick parse connect root tag tag' probe_only (Some node) w = (r, node', w')"
  shows "\<exists>n. node' = Some n \<and> sn_peers n = sn_peers node"
  using assms
  by (auto simp: echo_stream_after_greeting_def receive_transfer_def receive_transfer_v1_def receive_transfer_v2_def receive_tunnel_def
      split: prod.splits sum.splits if_splits dest: authorized_stream_peers)

text \<open>C8: On a stream authenticated as one Sister nothing can be done in the name of another. Whatever bytes
  arrive on it, for the control channel, a transfer, a tunnel or anything else, and wherever writing
  fails, the peer-table row and the last sign of life of every other Sister stay as they are, and the
  stored locator of any Sister changes only to one that this Sister has signed itself, for this network,
  with a sequence number that is not lower.\<close>

theorem iroh_stream_pinned:
  assumes "serve_iroh_stream L E C K T A pick parse connect root tag tag' probe_only node (Some p) w = (fx, node', w')"
  shows "speaks_only_for L E p node node'"
proof -
  have control: "speaks_only_for L E p node n"
    if "control_serve L E C K A node (Some p) v = (r, fx', n, v')" for v r fx' n v'
  proof (cases "io_read_frame MAX_CONTROL_FRAME_LENGTH (cc_dec_request K) v")
    case (Pair req v1)
    have "n = node \<or> (\<exists>env. n = snd (snd (dispatch_envelope L E C A node env (Some p))))"
      using that Pair by (auto simp: control_serve_def split: sum.splits prod.splits option.splits bool.splits) (metis snd_conv)+
    then show ?thesis using dispatch_speaks [of L E p node C A] speaks_only_for_same [of node node] by auto
  qed
  show ?thesis
    using assms(1) unfolding serve_iroh_stream_def
    by (auto split: prod.splits sum.splits option.splits if_splits intro: speaks_only_for_same dest: control dest!: echo_stream_peers)
qed

theorem iroh_stream_pinned_witness:
  "speaks_only_for lib0 sample_parsers 3 sample_node (fst (snd (serve_iroh_stream lib0 sample_parsers sample_codec sample_control sample_transfer_codec
      (sample_ambient 50 50) length (\<lambda>_. None :: unit option) (\<lambda>_. False) ''o'' ''a'' ''b'' False sample_node (Some 3)
      \<lparr>w_files = \<lambda>_. None, w_faults = [], w_in = CONTROL_MAGIC @ [0, 0, 0, 0], w_out = []\<rparr>)))"
proof -
  let ?s = "serve_iroh_stream lib0 sample_parsers sample_codec sample_control sample_transfer_codec (sample_ambient 50 50)
      length (\<lambda>_. None :: unit option) (\<lambda>_. False) ''o'' ''a'' ''b'' False sample_node (Some 3)
      \<lparr>w_files = \<lambda>_. None, w_faults = [], w_in = CONTROL_MAGIC @ [0, 0, 0, 0], w_out = []\<rparr>"
  obtain fx node' w' where run: "?s = (fx, node', w')" by (cases ?s)
  from iroh_stream_pinned [OF run] run show ?thesis by simp
qed


section \<open>The legacy TCP transport\<close>

text \<open>
  \<^verbatim>\<open>misaka-runtime/src/network.rs\<close> and \<^verbatim>\<open>crypto.rs\<close>: an envelope is serialised, encrypted under a random nonce
  that is put before the text, and framed. AES-GCM itself is the record \<open>aes_gcm\<close>, with the key in it.
\<close>

datatype TransportError = Transport_eof | FrameTooLarge nat nat | Transport_cipher | Transport_malformed | Unsupported_protocol u16

record aes_gcm =
  aes_encrypt :: "bytes \<Rightarrow> bytes \<Rightarrow> bytes option"
  aes_decrypt :: "bytes \<Rightarrow> bytes \<Rightarrow> bytes option"

definition crypto_encrypt :: "aes_gcm \<Rightarrow> bytes \<Rightarrow> bytes \<Rightarrow> bytes option" where
  "crypto_encrypt aes nonce data = map_option (\<lambda>ciphertext. nonce @ ciphertext) (aes_encrypt aes nonce data)"

definition crypto_decrypt :: "aes_gcm \<Rightarrow> bytes \<Rightarrow> bytes option" where
  "crypto_decrypt aes ciphertext_with_nonce =
     (if length ciphertext_with_nonce < 12 then None
      else aes_decrypt aes (take 12 ciphertext_with_nonce) (drop 12 ciphertext_with_nonce))"

definition validate_protocol_version :: "u16 \<Rightarrow> TransportError + unit" where
  "validate_protocol_version version = (if version \<noteq> PROTOCOL_VERSION then Err (Unsupported_protocol version) else Ok ())"

definition validate_frame_length :: "nat \<Rightarrow> TransportError + unit" where
  "validate_frame_length n = (if n > MAX_FRAME_LENGTH then Err (FrameTooLarge n MAX_FRAME_LENGTH) else Ok ())"

definition write_envelope :: "control_codec \<Rightarrow> aes_gcm \<Rightarrow> bytes \<Rightarrow> Envelope \<Rightarrow> TransportError + bytes" where
  "write_envelope K aes nonce env =
     (case crypto_encrypt aes nonce (cc_enc_envelope K env) of
        None \<Rightarrow> Err Transport_cipher
      | Some encrypted \<Rightarrow>
          (case validate_frame_length (length encrypted) of
             Inl e \<Rightarrow> Err e | Inr _ \<Rightarrow> Ok (word_bytes 4 (of_nat (length encrypted) :: u32) @ encrypted)))"

definition read_envelope :: "control_codec \<Rightarrow> aes_gcm \<Rightarrow> bytes \<Rightarrow> TransportError + Envelope" where
  "read_envelope K aes s =
     (case read_exact 4 s of
        Inl _ \<Rightarrow> Err Transport_eof
      | Inr (len_buf, s') \<Rightarrow>
          let n = unat (bytes_word len_buf :: u32)
          in case validate_frame_length n of
               Inl e \<Rightarrow> Err e
             | Inr _ \<Rightarrow>
                 (case read_exact n s' of
                    Inl _ \<Rightarrow> Err Transport_eof
                  | Inr (buf, _) \<Rightarrow>
                      (case crypto_decrypt aes buf of
                         None \<Rightarrow> Err Transport_cipher
                       | Some decrypted \<Rightarrow>
                           (case cc_dec_envelope K decrypted of
                              None \<Rightarrow> Err Transport_malformed
                            | Some env \<Rightarrow> (case validate_protocol_version (env_protocol_version env) of Inl e \<Rightarrow> Err e | Inr _ \<Rightarrow> Ok env)))))"

text \<open>An envelope of this version that was written is read back, whatever follows it.\<close>

lemma envelope_round_trip:
  assumes "write_envelope K aes nonce env = Ok sent" "env_protocol_version env = PROTOCOL_VERSION" "length nonce = 12"
    and "\<And>plain encrypted. aes_encrypt aes nonce plain = Some encrypted \<Longrightarrow> aes_decrypt aes nonce encrypted = Some plain"
    and "cc_dec_envelope K (cc_enc_envelope K env) = Some env"
  shows "read_envelope K aes (sent @ rest) = Ok env"
proof -
  obtain ct where c: "aes_encrypt aes nonce (cc_enc_envelope K env) = Some ct" "length (nonce @ ct) \<le> MAX_FRAME_LENGTH"
    "sent = word_bytes 4 (of_nat (length (nonce @ ct)) :: u32) @ nonce @ ct"
    using assms(1) by (auto simp: write_envelope_def crypto_encrypt_def validate_frame_length_def split: option.splits sum.splits if_splits)
  have "unat (bytes_word (word_bytes 4 (of_nat (length (nonce @ ct)) :: u32)) :: u32) = length (nonce @ ct)"
    using c(2) by (intro frame_header) (simp add: MAX_FRAME_LENGTH_def)
  with c assms(2, 3, 5) assms(4) [OF c(1)] show ?thesis
    by (simp add: read_envelope_def read_exact_def validate_frame_length_def validate_protocol_version_def crypto_decrypt_def Let_def)
qed

end
