(* ===== verification/Spec2Isabelle.thy ===== *)
theory Spec2Isabelle
  imports Misaka_Join Misaka_Layout Misaka_Cloudflare Misaka_Jobs Misaka_Receivers Misaka_Accept
begin

text \<open>
  Misaka: a verification library for the program under \<^verbatim>\<open>src/\<close>.

  \<^bold>\<open>The program.\<close> A network of Sisters (nodes), each a daemon with an identity, a certificate signed by
  the authority of its network, a job queue and a set of service streams. Sisters find each other through
  gateways (a native host and a Cloudflare host that share one request contract), authenticate each other
  by a mutual hello, exchange control messages over length-prefixed frames, run shell jobs that a human
  operator authorizes, steal work from each other, and receive files over resumable streams. Below,
  \<^verbatim>\<open>core\<close>, \<^verbatim>\<open>runtime\<close>, \<^verbatim>\<open>gatewayd\<close> and \<^verbatim>\<open>cli\<close> are the directories \<^verbatim>\<open>src/crates/misaka-core/src\<close>,
  \<^verbatim>\<open>misaka-runtime/src\<close>, \<^verbatim>\<open>misaka-gatewayd/src\<close> and \<^verbatim>\<open>misaka-cli/src\<close>.

  \<^bold>\<open>Foundations.\<close>
  \<^item> \<^verbatim>\<open>Misaka_Prelude\<close>: Rust integers as words (\<open>u64\<close> is \<open>64 word\<close>, \<open>[u8; N]\<close> an \<open>8 N\<close>-bit word with its
    big-endian bytes), \<open>Result\<close> as a sum (\<open>Ok\<close>, \<open>Err\<close>), hash maps as association lists with distinct keys
    (\<open>hm_get\<close>, \<open>hm_insert\<close>), strings with \<open>trim\<close> and decimal numbers, and files whose write may fail or be
    cut short (\<open>disk\<close>, \<open>write_outcome\<close>).
  \<^item> \<^verbatim>\<open>Misaka_External\<close>: the record \<open>lib\<close> of the packages the sources call (bincode, ed25519-dalek, sha2,
    uuid) and what the code relies on: \<open>bincode_injective\<close>, \<open>ed25519_correct\<close>, \<open>uuid_injective\<close>. The locale
    \<open>signed_artifact\<close> holds what is common to everything that is signed. Unforgeability is not assumed: a
    safety theorem says that a violation exhibits one signature valid for two messages.
    \<^verbatim>\<open>Misaka_Sample\<close> gives an instance \<open>lib0\<close> in which these hypotheses hold, used by the witnesses.
  \<^item> \<^verbatim>\<open>Misaka_Replay\<close>: the locale \<open>replay_guard\<close> of a nonce store, with its theorem that no request is
    accepted twice in a run with a non-decreasing clock.

  \<^bold>\<open>Components.\<close>
  \<^item> \<^verbatim>\<open>Misaka_Identity\<close> (\<^verbatim>\<open>core/identity.rs\<close>): identifiers, roles and permissions, membership
    certificates, revocations, transport bindings, locators, invites, command authorizations; each is an
    interpretation of \<open>signed_artifact\<close>. Shown: an issued authorization is accepted exactly in its window
    for a permission of the granted role, and cannot be altered.
  \<^item> \<^verbatim>\<open>Misaka_Base64\<close>, \<^verbatim>\<open>Misaka_Enrollment\<close> (\<^verbatim>\<open>core/enrollment.rs\<close>): the base64 codec is a bijection onto
    what the decoder accepts; the one-line invite code round trips; the enrollment messages.
  \<^item> \<^verbatim>\<open>Misaka_Gateway\<close> (\<^verbatim>\<open>core/gateway.rs\<close>, \<^verbatim>\<open>gatewayd/lib.rs\<close>) and \<^verbatim>\<open>Misaka_Cloudflare\<close>
    (\<^verbatim>\<open>src/gateway/cloudflare/src\<close>): both hosts with their tables as state and every handler, the alarm
    included. Shown: no replay on either host, what a query returns is signed and vouched for, a proper
    announcement is served, the two hosts keep corresponding directories (\<open>same_directory\<close>, all rows) under
    the same announcements, and the two inputs on which they do not.
  \<^item> \<^verbatim>\<open>Misaka_Protocol\<close> (\<^verbatim>\<open>core/protocol.rs\<close>): messages, signed hellos, the transfer checksum, and the
    single-precision load figures as exact rationals with rounding.
  \<^item> \<^verbatim>\<open>Misaka_Peers\<close> (\<^verbatim>\<open>core/peer.rs\<close>, \<^verbatim>\<open>runtime/peer_*.rs\<close>): the peer table, the peer service and its files;
    the locale \<open>latest_wins\<close> gives that the order of gossip does not matter.
  \<^item> \<^verbatim>\<open>Misaka_Jobs\<close> (\<^verbatim>\<open>core/job.rs\<close>, \<^verbatim>\<open>runtime/queue.rs\<close>, \<^verbatim>\<open>job_manager.rs\<close>, \<^verbatim>\<open>scheduler.rs\<close>,
    \<^verbatim>\<open>stealing.rs\<close>): the queue and the manager shared by tasks, as a step relation over their
    interleavings, the cancellation of a task included; no job is doubled, a job is lost only with a
    cancelled or failed handler of a job request that holds it, and the scheduler (locale \<open>comparator\<close>) is deterministic.
  \<^item> \<^verbatim>\<open>Misaka_Stores\<close> (the \<^verbatim>\<open>*_store.rs\<close> files of \<^verbatim>\<open>runtime\<close>): each store with write failures and torn
    writes; the locale \<open>write_once\<close> is implemented by six of them. \<open>unspent\<close> says independently of the code
    when a nonce file has no unexpired entry for a nonce.
  \<^item> \<^verbatim>\<open>Misaka_Node\<close> (\<^verbatim>\<open>runtime/handler.rs\<close>, \<^verbatim>\<open>executor.rs\<close>, \<^verbatim>\<open>node.rs\<close>): the state of a Sister
    (\<open>SisterNode\<close>), the dispatch of every message, submission, execution and the merge of gateway
    answers. Shown: a job is queued only with a valid authorization whose nonce is unspent, it is not queued
    again before the authorization expires (and is, in every case, when the two clock reads of the handler
    straddle the expiry), a sender changes no row of another Sister and no locator except by a record which
    that Sister signed, and a remote job comes back with its result.
  \<^item> \<^verbatim>\<open>Misaka_Framing\<close>, \<^verbatim>\<open>Misaka_Session\<close> (\<^verbatim>\<open>runtime/authenticated_session.rs\<close> and the frame functions of
    the other files): frames round trip; two honest Sisters authenticate each other, a recorded hello is
    useless in another session, a revoked Sister is refused.
  \<^item> \<^verbatim>\<open>Misaka_Files\<close>: the file and stream operations as functions of a \<open>world\<close> (files by path, the list of
    faults to come, input, output). Every operation consumes a fault: it may succeed, fail, find its
    target occupied, or write only a part. \<open>wp m Q E f\<close> says that from files \<open>f\<close>, under every fault and
    every input, \<open>m\<close> ends with \<open>Q\<close> on success and \<open>E\<close> on failure; \<open>wp_rules\<close> has one rule per operation.
    \<open>calm\<close> evaluates a program when nothing fails.
  \<^item> \<^verbatim>\<open>Misaka_Content\<close> (\<^verbatim>\<open>runtime/content_store.rs\<close>), \<^verbatim>\<open>Misaka_Transfer\<close> and \<^verbatim>\<open>Misaka_Parallel\<close>
    (\<^verbatim>\<open>runtime/runtime.rs\<close>, lines 748 to 1620): the content store, stream authorization, and the receivers
    v0, v1 and v2. \<open>v2_trace\<close> is the step relation of the parallel receiver: the critical sections of any
    number of requests for one file, interleaved, each one possibly cut off by a fault.
  \<^item> \<^verbatim>\<open>Misaka_Streams\<close> (\<^verbatim>\<open>runtime/runtime.rs\<close>, \<^verbatim>\<open>cli/main.rs\<close>): the dispatch on the preamble, the tunnel
    request, the echo service, the sender \<open>run_copy_v2\<close>, and sender and receiver together: a parallel copy
    completes in any order of its chunks and after any earlier attempts that were cut off.
  \<^item> \<^verbatim>\<open>Misaka_Receivers\<close>: what a stream can do to the files of a Sister, for every input and every fault: only
    with an authorization for exactly that destination, only to the files of that transfer, and never
    leaving a part of a file as the destination of a v1 or v2 transfer; the exact outcome of v0 transfers,
    probes and tunnel requests; the two ways in which a transfer gets stuck.
  \<^item> \<^verbatim>\<open>Misaka_Join\<close> (\<^verbatim>\<open>runtime/enrollment.rs\<close>, \<^verbatim>\<open>runtime/join_transaction.rs\<close>, the invite and join commands of
    \<^verbatim>\<open>cli/main.rs\<close>): the enrollment service and its client over one stream, the staged installation of a
    Network with every write and rename possibly failing, and the commands around them. Shown: what an
    issued membership rests on, that an interrupted installation never shows a membership without its
    authority, that a join with a valid code completes from the printing of the invite to the files of
    the new member, and two defects (an installed authority is replaced, plural units are refused).
  \<^item> \<^verbatim>\<open>Misaka_Layout\<close> (\<^verbatim>\<open>runtime/state_layout.rs\<close>): the layout manifest of the config directory; a newer
    layout is never touched by opening it, but a migration lowers it.
  \<^item> \<^verbatim>\<open>Misaka_Connections\<close> (\<^verbatim>\<open>src/crates/misaka-network/src/lib.rs\<close> and \<^verbatim>\<open>resolver.rs\<close>,
    \<^verbatim>\<open>runtime/connection.rs\<close>, \<^verbatim>\<open>stream_registry.rs\<close>): the handshake of a stream, the ranking and racing of
    endpoints, the connectors, the registry, and the connection manager. \<open>open_stream\<close> is split where it
    releases its locks (\<open>open_step\<close>), and a run of the manager is a list of steps of its tasks, each of which
    may be dropped. Shown: what a connection has established and that one is made if one can be, that a
    Sister is dialled by one task at a time, that the registry is exact, and three defects (a dropped
    request blocks its Sister, a reused session skips authentication, the TLS connector can panic).
  \<^item> \<^verbatim>\<open>Misaka_Accept\<close> (\<^verbatim>\<open>runtime/control_channel.rs\<close>, the accept loops of \<^verbatim>\<open>runtime/runtime.rs\<close>,
    \<^verbatim>\<open>runtime/network.rs\<close>, \<^verbatim>\<open>crypto.rs\<close>): both ends of the control channel, the service of a stream as a
    whole, the accept loops as events on the running tasks (\<open>accept_apply\<close>), and one session with its clock
    (\<open>session_loop\<close>, in milliseconds). Shown: capacity and authentication of everything served, that a control
    message and its answer arrive unchanged, that a stream speaks for its own Sister only, and that a session
    aborts its streams after five quiet seconds.

  \<^bold>\<open>Bounds and fuel.\<close> No definition has fuel: loops over a stream terminate because each turn consumes
  input (\<open>v0_loop\<close>, \<open>v1_loop\<close>, \<open>echo_loop\<close>), \<open>open_loop\<close> because its phases decrease, the others are
  structural. The parallel copy is proved for files of at most \<open>2 ^ 36\<close> bytes, the limit
  \<open>TRANSFER_V2_MAX_CHUNKS\<close> of the receiver, and messages that fit the frame limits. The clock, random
  numbers and the outcome of sends and writes are arguments.

  \<^bold>\<open>Not modelled.\<close> The relay, TLS and the iroh and tokio objects behind a stream (\<^verbatim>\<open>misaka-relay\<close>,
  \<^verbatim>\<open>tls.rs\<close>, most of \<^verbatim>\<open>iroh_backend.rs\<close>) are libraries and adapters, and what they answer is an argument;
  so are the parser of socket addresses and AES-GCM. The HTTP interface, the web pages, discovery, metrics
  and the command line outside the parallel copy, the invite and the join are I/O around the modelled
  functions; \<^verbatim>\<open>testament\<close> is the test harness. The TCP bytes of an open tunnel are not modelled. A read
  error of a stream counts as its end. Stopping the accept loops is one step, and so is a SQL statement; the
  conversion of an \<open>i64\<close> into a SQL value by the \<^verbatim>\<open>worker\<close> package is taken to be exact (JavaScript numbers
  are not, above \<open>2 ^ 53\<close>). Directories
  exist implicitly: creating one either succeeds or fails. Hashing and copying read a file in one step
  where the code reads blocks.
\<close>

end
